(* ===== verification/Prelude.thy ===== *)
theory Prelude
  imports Main "HOL-Library.Word" "HOL-Library.AList"
begin

unbundle bit_operations_syntax

text \<open>
  What every component of the relay model shares.

  \<^item> Machine integers: \<open>u8\<close>, \<open>u32\<close>, \<open>u64\<close> are words; the saturating and checked operations of
    Rust's integers are written out here.  The Rust crate is compiled for \<open>wasm32\<close>, so \<open>usize\<close> is
    32 bits wide and \<open>as usize\<close> truncates a \<open>u64\<close>.
  \<^item> Text: a \<open>string\<close> holds the UTF-8 encoding of a Rust or JavaScript string, so \<open>length\<close> is the
    byte length that Rust's \<open>len()\<close> and the browser's \<open>TextEncoder\<close> report.
  \<^item> Errors: a thrown \<open>Error\<close> (TypeScript) or an \<open>Err(JsValue)\<close> (Rust) is a value of type
    \<open>error\<close>; it carries the message, without the numbers and names a template splices into it.
  \<^item> Effects: an operation on a mutable state of type \<open>'s\<close> is a function
    \<open>'s \<Rightarrow> (error + 'a) \<times> 's\<close>.  An operation that fails still returns the state it had reached, as
    the code does: nothing is rolled back.
  \<^item> Maps: \<open>Map\<close> (TypeScript) iterates in insertion order and \<open>set\<close> on a present key keeps its
    place; this is the association list with \<open>AList.update\<close> and \<open>AList.delete\<close>.  The same lists
    stand for Rust's \<open>HashMap\<close>, whose iteration order the code never relies on.
\<close>

named_theorems pres "operations that keep a predicate of the state"
named_theorems word_defs "byte order conversions, to be unfolded bit by bit"

type_synonym u8 = "8 word"
type_synonym u32 = "32 word"
type_synonym u64 = "64 word"
type_synonym bytes = "8 word list"

datatype error = Err string

text \<open>The message \<open>common.UUID\<close>.\<close>

record uuid =
  part1 :: u32
  part2 :: u32
  part3 :: u32
  part4 :: u32

subsection \<open>Integers\<close>

definition sat_sub :: "'a::len word \<Rightarrow> 'a word \<Rightarrow> 'a word" where
  "sat_sub a b = (if b \<le> a then a - b else 0)"

definition sat_add :: "'a::len word \<Rightarrow> 'a word \<Rightarrow> 'a word" where
  "sat_add a b = (if a \<le> - 1 - b then a + b else - 1)"

definition checked_add :: "'a::len word \<Rightarrow> 'a word \<Rightarrow> 'a word option" where
  "checked_add a b = (if a \<le> - 1 - b then Some (a + b) else None)"

lemma unat_minus_one_word':
  "unat (- 1 :: 'a::len word) = 2 ^ LENGTH('a) - 1"
  by (simp add: unsigned_minus_1_eq_mask mask_eq_exp_minus_1)

lemma no_overflow_iff:
  fixes a b :: "'a::len word"
  shows "a \<le> - 1 - b \<longleftrightarrow> unat a + unat b < 2 ^ LENGTH('a)"
proof -
  have m: "unat (- 1 :: 'a word) = 2 ^ LENGTH('a) - 1"
    by (rule unat_minus_one_word')
  have "unat (- 1 - b) = 2 ^ LENGTH('a) - 1 - unat b"
    by (subst unat_sub) (auto simp: m)
  moreover have "unat b < 2 ^ LENGTH('a)" by (rule unsigned_less)
  ultimately have "unat a \<le> unat (- 1 - b) \<longleftrightarrow> unat a + unat b < 2 ^ LENGTH('a)"
    by linarith
  then show ?thesis by (simp only: word_le_nat_alt)
qed

lemma unat_sat_sub [simp]: "unat (sat_sub a b) = unat a - unat b"
  by (auto simp: sat_sub_def unat_sub word_le_nat_alt)

lemma unat_sat_add:
  "unat (sat_add (a :: 'a::len word) b) = min (unat a + unat b) (2 ^ LENGTH('a) - 1)"
  proof (cases "unat a + unat b < 2 ^ LENGTH('a)")
  case True
  then show ?thesis by (simp add: sat_add_def no_overflow_iff unat_word_ariths)
next
  case False
  then show ?thesis by (simp add: sat_add_def no_overflow_iff unat_minus_one_word')
qed

lemma checked_add_Some:
  "checked_add a b = Some c \<Longrightarrow> unat c = unat a + unat b"
  by (auto simp: checked_add_def no_overflow_iff unat_add_lem split: if_splits)

lemma sat_sub_self [simp]: "sat_sub a a = 0"
  by (simp add: sat_sub_def)

text \<open>\<open>x as usize\<close> of a \<open>u64\<close> on \<open>wasm32\<close>: the low 32 bits.\<close>

definition usize_of_u64 :: "u64 \<Rightarrow> nat" where
  "usize_of_u64 x = unat (ucast x :: u32)"

lemma usize_of_u64_mod: "usize_of_u64 x = unat x mod 2 ^ 32"
  by (simp add: usize_of_u64_def unsigned_ucast_eq take_bit_eq_mod unsigned_take_bit_eq)

lemma usize_of_u64_small: "unat x < 2 ^ 32 \<Longrightarrow> usize_of_u64 x = unat x"
  by (simp add: usize_of_u64_mod)

subsection \<open>Byte order\<close>

definition u32_to_le :: "u32 \<Rightarrow> bytes" where
  "u32_to_le w = [ucast w, ucast (drop_bit 8 w), ucast (drop_bit 16 w), ucast (drop_bit 24 w)]"

definition u32_from_le :: "u8 \<Rightarrow> u8 \<Rightarrow> u8 \<Rightarrow> u8 \<Rightarrow> u32" where
  "u32_from_le a b c d =
     ucast a OR push_bit 8 (ucast b) OR push_bit 16 (ucast c) OR push_bit 24 (ucast d)"

definition u32_to_be :: "u32 \<Rightarrow> bytes" where
  "u32_to_be w = rev (u32_to_le w)"

definition u64_to_be :: "u64 \<Rightarrow> bytes" where
  "u64_to_be w = u32_to_be (ucast (drop_bit 32 w)) @ u32_to_be (ucast w)"

definition u32_from_be :: "bytes \<Rightarrow> u32" where
  "u32_from_be bs = u32_from_le (bs ! 3) (bs ! 2) (bs ! 1) (bs ! 0)"

definition u64_from_be :: "bytes \<Rightarrow> u64" where
  "u64_from_be bs = push_bit 32 (ucast (u32_from_be (take 4 bs))) OR ucast (u32_from_be (drop 4 bs))"

lemma u8_of_u32_of_u8 [simp]: "ucast (ucast (x :: u8) :: u32) = x"
  by (rule bit_word_eqI) (auto simp: bit_simps dest: bit_imp_le_length)

lemma u32_le_round_trip [simp]:
  "u32_from_le (ucast w) (ucast (drop_bit 8 w)) (ucast (drop_bit 16 w)) (ucast (drop_bit 24 w)) = w"
proof -
  have top: "24 + (n - 24) = n" if "\<not> n - 16 < 8" for n :: nat using that by arith
  then show ?thesis
    unfolding u32_from_le_def by (intro bit_word_eqI) (simp add: bit_simps; auto; metis top)
qed

lemma u32_to_le_from_le [simp]: "u32_to_le (u32_from_le a b c d) = [a, b, c, d]"
  unfolding u32_to_le_def u32_from_le_def
  by (intro arg_cong2 [of _ _ _ _ Cons] refl; rule bit_word_eqI; simp add: bit_simps; auto dest: bit_imp_le_length)

lemma length_u32_to_le [simp]: "length (u32_to_le w) = 4"
  by (simp add: u32_to_le_def)

lemma length_u32_to_be [simp]: "length (u32_to_be w) = 4"
  by (simp add: u32_to_be_def)

lemma length_u64_to_be [simp]: "length (u64_to_be w) = 8"
  by (simp add: u64_to_be_def)

lemma u32_be_round_trip [simp]: "u32_from_be (u32_to_be w) = w"
  by (simp add: u32_from_be_def u32_to_be_def u32_to_le_def)

lemma u64_be_round_trip [simp]: "u64_from_be (u64_to_be w) = w"
proof -
  have "push_bit 32 (ucast (ucast (drop_bit 32 w) :: u32)) OR ucast (ucast w :: u32) = w"
    by (rule bit_word_eqI) (simp add: bit_simps; auto)
  then show ?thesis by (simp add: u64_from_be_def u64_to_be_def)
qed

subsection \<open>Maps\<close>

type_synonym ('k, 'v) jsmap = "('k \<times> 'v) list"

abbreviation m_get :: "('k, 'v) jsmap \<Rightarrow> 'k \<Rightarrow> 'v option" where
  "m_get m k \<equiv> map_of m k"

abbreviation m_put :: "'k \<Rightarrow> 'v \<Rightarrow> ('k, 'v) jsmap \<Rightarrow> ('k, 'v) jsmap" where
  "m_put k v m \<equiv> AList.update k v m"

abbreviation m_del :: "'k \<Rightarrow> ('k, 'v) jsmap \<Rightarrow> ('k, 'v) jsmap" where
  "m_del k m \<equiv> AList.delete k m"

abbreviation m_keys :: "('k, 'v) jsmap \<Rightarrow> 'k list" where
  "m_keys m \<equiv> map fst m"

abbreviation m_values :: "('k, 'v) jsmap \<Rightarrow> 'v list" where
  "m_values m \<equiv> map snd m"

text \<open>Rust's \<open>values_mut\<close> loop and \<open>retain\<close>.\<close>

definition m_map :: "('v \<Rightarrow> 'w) \<Rightarrow> ('k, 'v) jsmap \<Rightarrow> ('k, 'w) jsmap" where
  "m_map f m = map (\<lambda>(k, v). (k, f v)) m"

definition m_retain :: "('k \<Rightarrow> 'v \<Rightarrow> bool) \<Rightarrow> ('k, 'v) jsmap \<Rightarrow> ('k, 'v) jsmap" where
  "m_retain P m = filter (\<lambda>(k, v). P k v) m"

abbreviation m_ok :: "('k, 'v) jsmap \<Rightarrow> bool" where
  "m_ok m \<equiv> distinct (map fst m)"

lemma m_get_map [simp]: "m_get (m_map f m) k = map_option f (m_get m k)"
  by (simp add: m_map_def map_of_map)

lemma m_keys_map [simp]: "m_keys (m_map f m) = m_keys m"
  by (induction m) (auto simp: m_map_def)

lemma m_get_put: "m_get (m_put k v m) k' = (if k' = k then Some v else m_get m k')"
  by (simp add: update_conv')

lemma m_get_del: "m_get (m_del k m) k' = (if k' = k then None else m_get m k')"
  by (simp add: delete_conv')

lemma m_keys_put: "set (m_keys (m_put k v m)) = insert k (set (m_keys m))"
  by (metis image_set dom_map_of_conv_image_fst dom_update list.set_map update_conv' dom_fun_upd option.simps(3))

lemma m_ok_put [simp]: "m_ok m \<Longrightarrow> m_ok (m_put k v m)"
  by (rule distinct_update)

lemma m_ok_del [simp]: "m_ok m \<Longrightarrow> m_ok (m_del k m)"
  by (rule distinct_delete)

lemma m_ok_retain [simp]: "m_ok m \<Longrightarrow> m_ok (m_retain P m)"
  by (simp add: m_retain_def distinct_map_filter)

lemma m_get_retain:
  "m_ok m \<Longrightarrow> m_get (m_retain P m) k =
     (case m_get m k of None \<Rightarrow> None | Some v \<Rightarrow> if P k v then Some v else None)"
proof (induction m)
  case Nil
  then show ?case by (simp add: m_retain_def)
next
  case (Cons p m)
  have "m_get m k = None" if "fst p = k"
    using Cons.prems that by (auto simp: map_of_eq_None_iff)
  with Cons show ?case
    by (cases p) (auto simp: m_retain_def split: option.splits)
qed

lemma length_m_retain: "length (m_retain P m) \<le> length m"
  by (simp add: m_retain_def)

lemma length_m_put:
  "length (m_put k v m) = (if m_get m k = None then Suc (length m) else length m)"
  by (induction m) auto

lemma m_put_nonempty [simp]: "m_put k v m \<noteq> []"
  by (cases m) auto

lemma list_all_m_put:
  "list_all P m \<Longrightarrow> P (k, v) \<Longrightarrow> list_all P (m_put k v m)"
  by (induction m) auto

lemma list_all_m_del: "list_all P m \<Longrightarrow> list_all P (m_del k m)"
  by (auto simp: AList.delete_eq list_all_iff)

lemma m_put_put [simp]: "m_put k v (m_put k w m) = m_put k v m"
  by (induction m) auto

lemma m_del_empty_get: "m_del k m = [] \<Longrightarrow> k' \<noteq> k \<Longrightarrow> m_get m k' = None"
  by (metis m_get_del map_of.simps(1))

lemma m_put_append: "k \<notin> set (m_keys acc) \<Longrightarrow> m_put k v acc = acc @ [(k, v)]"
  by (induction acc) auto

lemma list_all_m_retain: "list_all P m \<Longrightarrow> list_all P (m_retain Q m)"
  by (auto simp: m_retain_def list_all_iff)

lemma list_all_m_get: "list_all (\<lambda>(k, v). P v) m \<Longrightarrow> m_get m k = Some v \<Longrightarrow> P v"
  by (auto simp: list_all_iff dest: map_of_SomeD)

lemma length_m_put_le: "length (m_put k v m) \<le> Suc (length m)"
  by (simp add: length_m_put)

subsection \<open>Operations on a state that may throw\<close>

type_synonym ('s, 'a) op = "'s \<Rightarrow> (error + 'a) \<times> 's"

definition mret :: "'a \<Rightarrow> ('s, 'a) op" where
  "mret a = (\<lambda>s. (Inr a, s))"

definition mraise :: "error \<Rightarrow> ('s, 'a) op" where
  "mraise e = (\<lambda>s. (Inl e, s))"

definition mbind :: "('s, 'a) op \<Rightarrow> ('a \<Rightarrow> ('s, 'b) op) \<Rightarrow> ('s, 'b) op" where
  "mbind m f = (\<lambda>s. case m s of (Inl e, s') \<Rightarrow> (Inl e, s') | (Inr a, s') \<Rightarrow> f a s')"

definition mlift :: "error + 'a \<Rightarrow> ('s, 'a) op" where
  "mlift r = (\<lambda>s. (r, s))"

definition mget :: "('s \<Rightarrow> 'a) \<Rightarrow> ('s, 'a) op" where
  "mget f = (\<lambda>s. (Inr (f s), s))"

definition mmod :: "('s \<Rightarrow> 's) \<Rightarrow> ('s, unit) op" where
  "mmod f = (\<lambda>s. (Inr (), f s))"

text \<open>A function that cannot fail, returning a value and the new state; a value read with an error.\<close>

definition mrun :: "('s \<Rightarrow> 'a \<times> 's) \<Rightarrow> ('s, 'a) op" where
  "mrun f = (\<lambda>s. case f s of (a, s') \<Rightarrow> (Inr a, s'))"

definition mtry :: "('s \<Rightarrow> error + 'a) \<Rightarrow> ('s, 'a) op" where
  "mtry f = (\<lambda>s. (f s, s))"

text \<open>\<open>try { m } catch (e) { h(e) }\<close> and \<open>try { m } finally { f }\<close>.\<close>

definition mcatch :: "('s, 'a) op \<Rightarrow> (error \<Rightarrow> ('s, 'a) op) \<Rightarrow> ('s, 'a) op" where
  "mcatch m h = (\<lambda>s. case m s of (Inl e, s') \<Rightarrow> h e s' | (Inr a, s') \<Rightarrow> (Inr a, s'))"

definition mfinally :: "('s, 'a) op \<Rightarrow> ('s, unit) op \<Rightarrow> ('s, 'a) op" where
  "mfinally m f = (\<lambda>s. case m s of (r, s') \<Rightarrow>
     (case f s' of (Inl e, s'') \<Rightarrow> (Inl e, s'') | (Inr _, s'') \<Rightarrow> (r, s'')))"

text \<open>A result kept for later, as in \<open>let result = m; \<dots>; result?\<close>.\<close>

definition mattempt :: "('s, 'a) op \<Rightarrow> ('s, error + 'a) op" where
  "mattempt m = (\<lambda>s. case m s of (r, s') \<Rightarrow> (Inr r, s'))"

primrec mfor :: "'x list \<Rightarrow> ('x \<Rightarrow> ('s, unit) op) \<Rightarrow> ('s, unit) op" where
  "mfor [] f = mret ()"
| "mfor (x # xs) f = mbind (f x) (\<lambda>_. mfor xs f)"

definition ok_or :: "error \<Rightarrow> 'a option \<Rightarrow> error + 'a" where
  "ok_or e x = (case x of None \<Rightarrow> Inl e | Some a \<Rightarrow> Inr a)"

definition rbind :: "error + 'a \<Rightarrow> ('a \<Rightarrow> error + 'b) \<Rightarrow> error + 'b" where
  "rbind r f = (case r of Inl e \<Rightarrow> Inl e | Inr a \<Rightarrow> f a)"

lemma rbind_simps [simp]: "rbind (Inl e) f = Inl e" "rbind (Inr a) f = f a"
  by (simp_all add: rbind_def)

lemma rbind_Inr_iff: "rbind r f = Inr b \<longleftrightarrow> (\<exists>a. r = Inr a \<and> f a = Inr b)"
  by (cases r) auto

lemma ok_or_simps [simp]: "ok_or e None = Inl e" "ok_or e (Some a) = Inr a"
  by (simp_all add: ok_or_def)

lemma ok_or_Inr_iff [simp]: "ok_or e x = Inr a \<longleftrightarrow> x = Some a"
  by (cases x) auto

lemmas op_defs = mret_def mraise_def mbind_def mlift_def mget_def mmod_def mcatch_def mfinally_def
  mrun_def mtry_def mattempt_def

text \<open>When an operation returns normally.\<close>

lemma mbind_Inr:
  "mbind m f s = (Inr b, s') \<longleftrightarrow> (\<exists>a s1. m s = (Inr a, s1) \<and> f a s1 = (Inr b, s'))"
  by (auto simp: mbind_def split: prod.splits sum.splits)

lemma case_prod_Inr:
  "(case p of (a, b) \<Rightarrow> f a b) s = (Inr x, s') \<longleftrightarrow> (\<exists>a b. p = (a, b) \<and> f a b s = (Inr x, s'))"
  by (cases p) simp

lemma case_sum_Inr:
  "(case r of Inl e \<Rightarrow> f e | Inr a \<Rightarrow> g a) s = (Inr x, s') \<longleftrightarrow>
     (\<exists>e. r = Inl e \<and> f e s = (Inr x, s')) \<or> (\<exists>a. r = Inr a \<and> g a s = (Inr x, s'))"
  by (cases r) simp_all

lemma case_option_Inr:
  "(case r of None \<Rightarrow> f | Some a \<Rightarrow> g a) s = (Inr x, s') \<longleftrightarrow>
     (r = None \<and> f s = (Inr x, s')) \<or> (\<exists>a. r = Some a \<and> g a s = (Inr x, s'))"
  by (cases r) simp_all

lemma if_op_Inr:
  "(if b then f else g) s = (Inr x, s') \<longleftrightarrow> (b \<and> f s = (Inr x, s')) \<or> (\<not> b \<and> g s = (Inr x, s'))"
  by simp

lemmas op_inv = mbind_Inr case_prod_Inr case_sum_Inr case_option_Inr if_op_Inr

lemma mrun_Inr [simp]: "mrun f s = (Inr a, s') \<longleftrightarrow> f s = (a, s')"
  by (cases "f s") (auto simp: mrun_def)

lemma op_Inr [simp]:
  "mret a s = (Inr b, s') \<longleftrightarrow> b = a \<and> s' = s"
  "mraise e s = (Inr b, s') \<longleftrightarrow> False"
  "mlift r s = (Inr b, s') \<longleftrightarrow> r = Inr b \<and> s' = s"
  "mget f s = (Inr b, s') \<longleftrightarrow> b = f s \<and> s' = s"
  "mtry g s = (Inr b, s') \<longleftrightarrow> g s = Inr b \<and> s' = s"
  by (auto simp: op_defs)

lemma mattempt_Inr [simp]: "mattempt m s = (Inr r, s') \<longleftrightarrow> m s = (r, s')"
  by (cases "m s") (auto simp: op_defs)

lemma mmod_Inr [simp]: "mmod f s = (Inr u, s') \<longleftrightarrow> s' = f s"
  by (auto simp: op_defs)

text \<open>\<open>keeps I m\<close>: whether \<open>m\<close> returns or throws, it leaves a state that satisfies \<open>I\<close>.\<close>

definition keeps :: "('s \<Rightarrow> bool) \<Rightarrow> ('s, 'a) op \<Rightarrow> bool" where
  "keeps I m \<longleftrightarrow> (\<forall>s. I s \<longrightarrow> I (snd (m s)))"

lemma keepsD: "keeps I m \<Longrightarrow> I s \<Longrightarrow> I (snd (m s))"
  by (simp add: keeps_def)

lemma keepsI: "(\<And>s. I s \<Longrightarrow> I (snd (m s))) \<Longrightarrow> keeps I m"
  by (simp add: keeps_def)

lemma keeps_ret [pres]: "keeps I (mret a)"
  and keeps_raise [pres]: "keeps I (mraise e)"
  and keeps_lift [pres]: "keeps I (mlift r)"
  and keeps_get [pres]: "keeps I (mget f)"
  by (simp_all add: keeps_def op_defs)

lemma keeps_mod: "(\<And>s. I s \<Longrightarrow> I (f s)) \<Longrightarrow> keeps I (mmod f)"
  by (simp add: keeps_def mmod_def)

lemma keeps_bind [pres]: "keeps I m \<Longrightarrow> (\<And>a. keeps I (f a)) \<Longrightarrow> keeps I (mbind m f)"
  by (fastforce simp: keeps_def mbind_def split: prod.splits sum.splits dest: spec)

lemma keeps_catch [pres]: "keeps I m \<Longrightarrow> (\<And>e. keeps I (h e)) \<Longrightarrow> keeps I (mcatch m h)"
  by (fastforce simp: keeps_def mcatch_def split: prod.splits sum.splits dest: spec)

lemma keeps_finally [pres]: "keeps I m \<Longrightarrow> keeps I f \<Longrightarrow> keeps I (mfinally m f)"
  by (fastforce simp: keeps_def mfinally_def split: prod.splits sum.splits dest: spec)

lemma keeps_attempt [pres]: "keeps I m \<Longrightarrow> keeps I (mattempt m)"
  by (simp add: keeps_def mattempt_def case_prod_unfold)

lemma keeps_for [pres]: "(\<And>x. x \<in> set xs \<Longrightarrow> keeps I (f x)) \<Longrightarrow> keeps I (mfor xs f)"
  by (induction xs) (auto intro: pres)

lemma keeps_if [pres]: "(b \<Longrightarrow> keeps I m) \<Longrightarrow> (\<not> b \<Longrightarrow> keeps I n) \<Longrightarrow> keeps I (if b then m else n)"
  by simp

lemma keeps_try [pres]: "keeps I (mtry f)"
  by (simp add: keeps_def mtry_def)

lemma keeps_run: "(\<And>s. I s \<Longrightarrow> I (snd (f s))) \<Longrightarrow> keeps I (mrun f)"
  by (simp add: keeps_def mrun_def case_prod_unfold)

lemma keeps_case_prod [pres]: "(\<And>a b. keeps I (f a b)) \<Longrightarrow> keeps I (case p of (a, b) \<Rightarrow> f a b)"
  by (cases p) simp

lemma keeps_case_sum [pres]:
  "(\<And>e. keeps I (f e)) \<Longrightarrow> (\<And>a. keeps I (g a)) \<Longrightarrow> keeps I (case r of Inl e \<Rightarrow> f e | Inr a \<Rightarrow> g a)"
  by (cases r) simp_all

lemma keeps_case_option [pres]:
  "keeps I f \<Longrightarrow> (\<And>a. keeps I (g a)) \<Longrightarrow> keeps I (case r of None \<Rightarrow> f | Some a \<Rightarrow> g a)"
  by (cases r) simp_all

lemma keeps_let [pres]: "keeps I (f x) \<Longrightarrow> keeps I (let y = x in f y)"
  by simp

end
