(* ===== verification/Packet.thy ===== *)
theory Packet
  imports Prelude
begin

text \<open>
  The 16-byte peer-manager header and the framing rules: \<open>cloudflare/wasm/src/packet.rs\<close>, its
  TypeScript front \<open>cloudflare/src/core/packet.ts\<close>, and the constants of
  \<open>cloudflare/src/core/constants.ts\<close>.
\<close>

subsection \<open>Constants\<close>

definition EASYTIER_HEADER_SIZE :: nat where "EASYTIER_HEADER_SIZE = 16"
definition SERVER_PEER_ID :: u32 where "SERVER_PEER_ID = 10000001"
definition WS_OPEN :: nat where "WS_OPEN = 1"

definition Ping :: u8 where "Ping = 4"
definition Pong :: u8 where "Pong = 5"
definition RpcReq :: u8 where "RpcReq = 8"
definition RpcResp :: u8 where "RpcResp = 9"
definition NoiseHandshakeMsg1 :: u8 where "NoiseHandshakeMsg1 = 13"
definition NoiseHandshakeMsg3 :: u8 where "NoiseHandshakeMsg3 = 15"
definition ENCRYPTED_FLAG :: u8 where "ENCRYPTED_FLAG = 1"

lemmas packet_types = Ping_def Pong_def RpcReq_def RpcResp_def NoiseHandshakeMsg1_def
  NoiseHandshakeMsg3_def

definition HEADER_SIZE :: nat where "HEADER_SIZE = 16"
definition AEAD_TAIL_SIZE :: nat where "AEAD_TAIL_SIZE = 28"
definition MAX_FORWARD_HOPS :: u8 where "MAX_FORWARD_HOPS = 7"

lemmas sizes = HEADER_SIZE_def EASYTIER_HEADER_SIZE_def AEAD_TAIL_SIZE_def

subsection \<open>packet.rs\<close>

record packet_header =
  from_peer_id :: u32
  to_peer_id :: u32
  packet_type :: u8
  flags :: u8
  forward_counter :: u8
  reserved :: u8
  len :: u32

definition from_bytes :: "bytes \<Rightarrow> error + packet_header" where
  "from_bytes b =
     (if length b < HEADER_SIZE then Inl (Err ''header too short'')
      else Inr \<lparr>from_peer_id = u32_from_le (b ! 0) (b ! 1) (b ! 2) (b ! 3),
                to_peer_id = u32_from_le (b ! 4) (b ! 5) (b ! 6) (b ! 7),
                packet_type = b ! 8,
                flags = b ! 9,
                forward_counter = b ! 10,
                reserved = b ! 11,
                len = u32_from_le (b ! 12) (b ! 13) (b ! 14) (b ! 15)\<rparr>)"

definition to_bytes :: "packet_header \<Rightarrow> bytes" where
  "to_bytes h =
     u32_to_le (from_peer_id h) @ u32_to_le (to_peer_id h) @
     [packet_type h, flags h, forward_counter h, reserved h] @ u32_to_le (len h)"

definition encrypted :: "packet_header \<Rightarrow> bool" where
  "encrypted h \<longleftrightarrow> flags h AND ENCRYPTED_FLAG \<noteq> 0"

text \<open>
  \<open>parse_packet\<close> adds 28 to the declared length of an encrypted packet in \<open>usize\<close>, which is 32 bits
  wide on the \<open>wasm32\<close> target; the release profile leaves overflow checks off, so the sum wraps.
\<close>

definition expected_len :: "packet_header \<Rightarrow> u32" where
  "expected_len h = len h + (if encrypted h then of_nat AEAD_TAIL_SIZE else 0)"

definition parse_packet :: "bytes \<Rightarrow> error + packet_header" where
  "parse_packet b =
     (case from_bytes b of
        Inl e \<Rightarrow> Inl e
      | Inr h \<Rightarrow>
          (if length b - HEADER_SIZE \<noteq> unat (expected_len h)
           then Inl (Err ''payload length mismatch'')
           else Inr h))"

text \<open>\<open>inspect_packet\<close> returns the header's fields as seven \<open>u32\<close>s, in the order of the struct.\<close>

definition inspect_packet :: "bytes \<Rightarrow> error + u32 list" where
  "inspect_packet b =
     (case parse_packet b of
        Inl e \<Rightarrow> Inl e
      | Inr h \<Rightarrow> Inr [from_peer_id h, to_peer_id h, ucast (packet_type h), ucast (flags h),
                      ucast (forward_counter h), ucast (reserved h), len h])"

definition build_packet :: "u32 \<Rightarrow> u32 \<Rightarrow> u8 \<Rightarrow> bytes \<Rightarrow> error + bytes" where
  "build_packet from_id to_id ptype payload =
     (if 2 ^ 32 \<le> length payload
      then Inl (Err ''packet payload exceeds the EasyTier u32 length'')
      else Inr (to_bytes \<lparr>from_peer_id = from_id, to_peer_id = to_id, packet_type = ptype,
                          flags = 0, forward_counter = 1, reserved = 0,
                          len = of_nat (length payload)\<rparr> @ payload))"

definition prepare_forward :: "bytes \<Rightarrow> error + bytes" where
  "prepare_forward b =
     (case parse_packet b of
        Inl e \<Rightarrow> Inl e
      | Inr h \<Rightarrow>
          (if MAX_FORWARD_HOPS < forward_counter h
           then Inl (Err ''EasyTier forwarding hop limit exceeded'')
           else Inr (b[10 := forward_counter h + 1])))"

definition prepare_pong :: "bytes \<Rightarrow> error + bytes" where
  "prepare_pong b =
     (case parse_packet b of
        Inl e \<Rightarrow> Inl e
      | Inr h \<Rightarrow>
          (if packet_type h \<noteq> Ping
           then Inl (Err ''only an EasyTier Ping packet can become Pong'')
           else Inr (b[8 := Pong])))"

subsection \<open>packet.ts\<close>

text \<open>
  \<open>parsePacket\<close> reads the seven numbers back into a header object.  The JavaScript numbers that come
  from a \<open>u8\<close> field are below 256; the record keeps the field at its width.
\<close>

definition header_of_values :: "u32 list \<Rightarrow> packet_header" where
  "header_of_values v =
     \<lparr>from_peer_id = v ! 0, to_peer_id = v ! 1, packet_type = ucast (v ! 2), flags = ucast (v ! 3),
      forward_counter = ucast (v ! 4), reserved = ucast (v ! 5), len = v ! 6\<rparr>"

definition parsePacket :: "bytes \<Rightarrow> error + (packet_header \<times> bytes)" where
  "parsePacket b =
     (case inspect_packet b of
        Inl e \<Rightarrow> Inl e
      | Inr v \<Rightarrow> Inr (header_of_values v, drop EASYTIER_HEADER_SIZE b))"

definition createPacket :: "u32 \<Rightarrow> u32 \<Rightarrow> u8 \<Rightarrow> bytes \<Rightarrow> error + bytes" where
  "createPacket = build_packet"

definition incrementForwardCounter :: "bytes \<Rightarrow> error + bytes" where
  "incrementForwardCounter = prepare_forward"

definition createPong :: "bytes \<Rightarrow> error + bytes" where
  "createPong = prepare_pong"

datatype ws_data = TextFrame string | BinaryFrame bytes

fun toUint8Array :: "ws_data \<Rightarrow> error + bytes" where
  "toUint8Array (TextFrame _) = Inl (Err ''EasyTier accepts binary WebSocket messages only'')"
| "toUint8Array (BinaryFrame b) = Inr b"

subsection \<open>The header as bytes\<close>

lemma length_to_bytes [simp]: "length (to_bytes h) = 16"
  by (simp add: to_bytes_def)

lemma to_bytes_explicit:
  "to_bytes h =
     [ucast (from_peer_id h), ucast (drop_bit 8 (from_peer_id h)),
      ucast (drop_bit 16 (from_peer_id h)), ucast (drop_bit 24 (from_peer_id h)),
      ucast (to_peer_id h), ucast (drop_bit 8 (to_peer_id h)),
      ucast (drop_bit 16 (to_peer_id h)), ucast (drop_bit 24 (to_peer_id h)),
      packet_type h, flags h, forward_counter h, reserved h,
      ucast (len h), ucast (drop_bit 8 (len h)), ucast (drop_bit 16 (len h)),
      ucast (drop_bit 24 (len h))]"
  by (simp add: to_bytes_def u32_to_le_def)

lemma from_bytes_to_bytes [simp]: "from_bytes (to_bytes h @ payload) = Inr h"
  by (simp add: from_bytes_def sizes to_bytes_explicit)

text \<open>What a frame's first 16 bytes must be, given the header read from it.\<close>

lemma from_bytes_split:
  assumes "from_bytes b = Inr h"
  shows "b = to_bytes h @ drop 16 b"
proof -
  from assms have len: "16 \<le> length b"
    by (simp add: from_bytes_def sizes split: if_splits)
  have up: "[0..<16] = [0, 1, 2, 3, 4, 5, 6, 7, 8, 9, 10, 11, 12, 13, 14, 15::nat]"
    by code_simp
  have "take 16 b = map ((!) b) [0..<16]"
    by (rule nth_equalityI) (use len in auto)
  also have "\<dots> = to_bytes h"
    using assms len
    by (auto simp: from_bytes_def sizes to_bytes_def up split: if_splits)
  finally show ?thesis by (metis append_take_drop_id)
qed

lemma parse_packet_Inr_iff:
  "parse_packet b = Inr h \<longleftrightarrow>
     (\<exists>p. b = to_bytes h @ p \<and> length p = unat (expected_len h))"
proof
  assume "parse_packet b = Inr h"
  then have h: "from_bytes b = Inr h" and l: "length b - 16 = unat (expected_len h)"
    by (auto simp: parse_packet_def sizes split: sum.splits if_splits)
  from from_bytes_split [OF h] l show "\<exists>p. b = to_bytes h @ p \<and> length p = unat (expected_len h)"
    by (intro exI [of _ "drop 16 b"]) simp
next
  assume "\<exists>p. b = to_bytes h @ p \<and> length p = unat (expected_len h)"
  then show "parse_packet b = Inr h" by (auto simp: parse_packet_def sizes)
qed

lemma parse_packetE:
  assumes "parse_packet b = Inr h"
  obtains p where "b = to_bytes h @ p" "length p = unat (expected_len h)"
  using assms by (auto simp: parse_packet_Inr_iff)

lemma header_of_inspect [simp]:
  "header_of_values [from_peer_id h, to_peer_id h, ucast (packet_type h), ucast (flags h),
     ucast (forward_counter h), ucast (reserved h), len h] = h"
  by (simp add: header_of_values_def)

lemma parsePacket_eq:
  "parsePacket b = (case parse_packet b of Inl e \<Rightarrow> Inl e | Inr h \<Rightarrow> Inr (h, drop 16 b))"
  by (simp add: parsePacket_def inspect_packet_def sizes split: sum.splits)

lemma parsePacket_Inr_iff:
  "parsePacket b = Inr (h, p) \<longleftrightarrow> b = to_bytes h @ p \<and> length p = unat (expected_len h)"
proof -
  have "parsePacket b = Inr (h, p) \<longleftrightarrow> parse_packet b = Inr h \<and> p = drop 16 b"
    by (auto simp: parsePacket_eq split: sum.splits)
  then show ?thesis by (auto simp: parse_packet_Inr_iff)
qed

lemma to_bytes_update10: "(to_bytes h @ p)[10 := c] = to_bytes (h\<lparr>forward_counter := c\<rparr>) @ p"
  and to_bytes_update8: "(to_bytes h @ p)[8 := t] = to_bytes (h\<lparr>packet_type := t\<rparr>) @ p"
  by (simp_all add: to_bytes_explicit)

lemma expected_len_update [simp]:
  "expected_len (h\<lparr>forward_counter := c\<rparr>) = expected_len h"
  "expected_len (h\<lparr>packet_type := t\<rparr>) = expected_len h"
  by (simp_all add: expected_len_def encrypted_def)


subsection \<open>Relaying\<close>

lemma incrementForwardCounter_parsed:
  assumes "parsePacket b = Inr (h, p)"
  shows "incrementForwardCounter b =
    (if MAX_FORWARD_HOPS < forward_counter h
     then Inl (Err ''EasyTier forwarding hop limit exceeded'')
     else Inr (to_bytes (h\<lparr>forward_counter := forward_counter h + 1\<rparr>) @ p))"
  using assms
  by (auto simp: parsePacket_Inr_iff incrementForwardCounter_def prepare_forward_def
      to_bytes_update10 parse_packet_Inr_iff [THEN iffD2])

lemma createPong_parsed:
  assumes "parsePacket b = Inr (h, p)"
  shows "createPong b =
    (if packet_type h \<noteq> Ping
     then Inl (Err ''only an EasyTier Ping packet can become Pong'')
     else Inr (to_bytes (h\<lparr>packet_type := Pong\<rparr>) @ p))"
  using assms
  by (auto simp: parsePacket_Inr_iff createPong_def prepare_pong_def
      to_bytes_update8 parse_packet_Inr_iff [THEN iffD2])

lemma incrementForwardCounter_rejects:
  "parsePacket b = Inl e \<Longrightarrow> incrementForwardCounter b = Inl e"
  by (auto simp: parsePacket_eq incrementForwardCounter_def prepare_forward_def split: sum.splits)

definition fresh_header :: "u32 \<Rightarrow> u32 \<Rightarrow> u8 \<Rightarrow> bytes \<Rightarrow> packet_header" where
  "fresh_header f t ty p =
     \<lparr>from_peer_id = f, to_peer_id = t, packet_type = ty, flags = 0, forward_counter = 1,
      reserved = 0, len = of_nat (length p)\<rparr>"

lemma unat_len_fresh: "length p < 2 ^ 32 \<Longrightarrow> unat (expected_len (fresh_header f t ty p)) = length p"
  by (simp add: expected_len_def encrypted_def fresh_header_def unat_of_nat)

lemma createPacket_fresh:
  "createPacket f t ty p = Inr b \<longleftrightarrow> length p < 2 ^ 32 \<and> b = to_bytes (fresh_header f t ty p) @ p"
  by (auto simp: createPacket_def build_packet_def fresh_header_def)

text \<open>A packet that passes through \<open>n\<close> relays in a row.\<close>

fun forward_times :: "nat \<Rightarrow> bytes \<Rightarrow> error + bytes" where
  "forward_times 0 b = Inr b"
| "forward_times (Suc n) b = rbind (incrementForwardCounter b) (forward_times n)"

lemma forward_times_parsed:
  assumes "parsePacket b = Inr (h, p)" and "unat (forward_counter h) + n \<le> 8"
  shows "forward_times n b =
    Inr (to_bytes (h\<lparr>forward_counter := forward_counter h + of_nat n\<rparr>) @ p)"
  using assms
proof (induction n arbitrary: b h)
  case 0
  then show ?case by (simp add: parsePacket_Inr_iff)
next
  case (Suc n)
  let ?h = "h\<lparr>forward_counter := forward_counter h + 1\<rparr>"
  from Suc.prems have le: "forward_counter h \<le> MAX_FORWARD_HOPS"
    by (simp add: MAX_FORWARD_HOPS_def word_le_nat_alt)
  from Suc.prems have inc: "unat (forward_counter h + 1) = Suc (unat (forward_counter h))"
    by (simp add: unat_word_ariths)
  have p: "parsePacket (to_bytes ?h @ p) = Inr (?h, p)"
    using Suc.prems(1) by (simp add: parsePacket_Inr_iff)
  from Suc.IH [OF p] Suc.prems(2) inc
  have "forward_times n (to_bytes ?h @ p) =
      Inr (to_bytes (h\<lparr>forward_counter := forward_counter h + 1 + of_nat n\<rparr>) @ p)"
    by simp
  with le show ?case
    by (simp add: incrementForwardCounter_parsed [OF Suc.prems(1)] not_less add.assoc)
qed

lemma forward_times_Suc:
  "forward_times (Suc n) b = rbind (forward_times n b) incrementForwardCounter"
proof (induction n arbitrary: b)
  case 0
  then show ?case by (cases "incrementForwardCounter b") auto
next
  case (Suc n)
  then show ?case by (cases "incrementForwardCounter b") auto
qed

subsection \<open>Properties\<close>

text \<open>C14: A packet built by \<open>createPacket\<close> parses back to exactly the fields and the payload it was
  built from, with no flag set, the forward counter at 1 and the payload's length as its length.\<close>

theorem packet_round_trip:
  assumes "createPacket f t ty p = Inr b"
  shows "parsePacket b = Inr (fresh_header f t ty p, p) \<and> length b = 16 + length p"
  using assms by (simp add: createPacket_fresh parsePacket_Inr_iff unat_len_fresh)

theorem packet_round_trip_witness:
  "createPacket 1 2 RpcReq [7, 8] = Inr (to_bytes (fresh_header 1 2 RpcReq [7, 8]) @ [7, 8]) \<and>
   parsePacket (to_bytes (fresh_header 1 2 RpcReq [7, 8]) @ [7, 8]) =
     Inr (fresh_header 1 2 RpcReq [7, 8], [7, 8])"
proof -
  have "createPacket 1 2 RpcReq [7, 8] = Inr (to_bytes (fresh_header 1 2 RpcReq [7, 8]) @ [7, 8])"
    by (simp add: createPacket_fresh)
  from this packet_round_trip [OF this] show ?thesis by simp
qed

text \<open>C15: A fresh packet can be relayed seven times and no more.  After \<open>n \<le> 7\<close> relays only its
  forward counter has changed, to \<open>n + 1\<close>; the eighth relay fails with the hop-limit error.\<close>

theorem relay_hop_limit:
  assumes "createPacket f t ty p = Inr b"
  shows "(\<forall>n \<le> 7. \<exists>b'. forward_times n b = Inr b' \<and>
            parsePacket b' =
              Inr ((fresh_header f t ty p)\<lparr>forward_counter := of_nat (Suc n)\<rparr>, p)) \<and>
         forward_times 8 b = Inl (Err ''EasyTier forwarding hop limit exceeded'')"
proof -
  let ?h = "fresh_header f t ty p"
  from assms have b: "parsePacket b = Inr (?h, p)"
    by (simp add: createPacket_fresh parsePacket_Inr_iff unat_len_fresh)
  have fc: "forward_counter ?h = 1" by (simp add: fresh_header_def)
  have run: "forward_times n b = Inr (to_bytes (?h\<lparr>forward_counter := of_nat (Suc n)\<rparr>) @ p)"
    if "n \<le> 7" for n
    using forward_times_parsed [OF b, of n] that by (simp add: fc)
  have parse: "parsePacket (to_bytes (?h\<lparr>forward_counter := c\<rparr>) @ p) =
      Inr (?h\<lparr>forward_counter := c\<rparr>, p)" for c
    using b by (simp add: parsePacket_Inr_iff)
  have "forward_times (Suc 7) b = Inl (Err ''EasyTier forwarding hop limit exceeded'')"
    using run [of 7] parse [of 8]
    by (simp only: forward_times_Suc)
      (simp add: incrementForwardCounter_parsed [OF parse] MAX_FORWARD_HOPS_def)
  then show ?thesis using run parse by auto
qed

theorem relay_hop_limit_witness:
  "\<exists>b. createPacket 1 2 1 [9] = Inr b \<and>
     forward_times 8 b = Inl (Err ''EasyTier forwarding hop limit exceeded'')"
proof -
  have "createPacket 1 2 1 [9] = Inr (to_bytes (fresh_header 1 2 1 [9]) @ [9])"
    by (simp add: createPacket_fresh)
  from this relay_hop_limit [OF this] show ?thesis by blast
qed

text \<open>C16: The length check of \<open>parse_packet\<close> does not make sure that an encrypted frame is long
  enough to hold its 28-byte AEAD tail.  The check adds the tail in 32 bits, so a frame with the
  encrypted flag passes exactly when its payload has \<open>(len + 28) mod 2 ^ 32\<close> bytes; a declared length
  close to \<open>2 ^ 32\<close> wraps around (the witness is a frame that passes with an empty payload).\<close>

theorem encrypted_length_wraps:
  assumes "from_bytes b = Inr h" and "encrypted h"
  shows "parsePacket b = Inr (h, drop 16 b) \<longleftrightarrow>
           length b = 16 + (unat (len h) + 28) mod 2 ^ 32"
proof -
  from assms(2) have "unat (expected_len h) = (unat (len h) + 28) mod 2 ^ 32"
    by (simp add: expected_len_def AEAD_TAIL_SIZE_def unat_word_ariths)
  moreover have b: "b = to_bytes h @ drop 16 b" using assms(1) by (rule from_bytes_split)
  moreover have "16 \<le> length b" by (subst b) simp
  ultimately show ?thesis by (auto simp: parsePacket_Inr_iff)
qed

definition wrapped_header :: packet_header where
  "wrapped_header =
     \<lparr>from_peer_id = 1, to_peer_id = 2, packet_type = 8, flags = 1, forward_counter = 1,
      reserved = 0, len = 4294967268\<rparr>"

theorem encrypted_length_wraps_witness:
  "encrypted wrapped_header \<and> parsePacket (to_bytes wrapped_header) = Inr (wrapped_header, [])"
proof -
  have f: "from_bytes (to_bytes wrapped_header) = Inr wrapped_header"
    using from_bytes_to_bytes [of wrapped_header "[]"] by simp
  have e: "encrypted wrapped_header"
    by (simp add: encrypted_def wrapped_header_def ENCRYPTED_FLAG_def)
  have "length (to_bytes wrapped_header) = 16 + (unat (len wrapped_header) + 28) mod 2 ^ 32"
    by (simp add: wrapped_header_def)
  with encrypted_length_wraps [OF f e] e show ?thesis by simp
qed

text \<open>A ping is answered with the same frame in which only the packet type is changed, to Pong;
  any other well-formed frame is refused.  The frame that leaves the relay parses to the same source,
  destination, flags, counter and payload.\<close>

theorem pong_is_ping:
  assumes "parsePacket b = Inr (h, p)"
  shows "if packet_type h = Ping
         then \<exists>b'. createPong b = Inr b' \<and> parsePacket b' = Inr (h\<lparr>packet_type := Pong\<rparr>, p) \<and>
                   length b' = length b
         else createPong b = Inl (Err ''only an EasyTier Ping packet can become Pong'')"
  using assms by (auto simp: createPong_parsed parsePacket_Inr_iff)

theorem pong_is_ping_witness:
  "createPong (to_bytes (fresh_header 5 SERVER_PEER_ID Ping [])) =
     Inr (to_bytes (fresh_header 5 SERVER_PEER_ID Pong []))"
proof -
  let ?h = "fresh_header 5 SERVER_PEER_ID Ping []"
  have "parsePacket (to_bytes ?h) = Inr (?h, [])"
    by (simp add: parsePacket_Inr_iff unat_len_fresh)
  from pong_is_ping [OF this] show ?thesis
    by (auto simp: fresh_header_def parsePacket_Inr_iff)
qed

end
