(* ===== verification/Replay_Window.thy ===== *)
theory Replay_Window
  imports Prelude
begin

text \<open>
  \<open>ReplayWindow256\<close> of \<open>cloudflare/wasm/src/secure.rs\<close>: the highest sequence number accepted so far
  and a 256-bit map of which of the last 256 numbers were accepted.  Bit \<open>i\<close> of the map stands for
  \<open>max_seq - i\<close>; it is bit \<open>i mod 8\<close> of byte \<open>i div 8\<close>.

  The abstract view is the set of accepted sequence numbers.  The locale \<open>anti_replay\<close> states what a
  client of such a filter may rely on; it is interpreted with the code's window at the end.  The window
  meets the contract for sequence numbers that stay within \<open>2 ^ 32\<close> of each other: the code computes
  distances in \<open>u64\<close> and then truncates them to \<open>usize\<close>, 32 bits on \<open>wasm32\<close>.
\<close>

record replay_window =
  max_seq :: u64
  bitmap :: bytes
  window_valid :: bool

definition window_default :: replay_window where
  "window_default = \<lparr>max_seq = 0, bitmap = replicate 32 0, window_valid = False\<rparr>"

definition window_clear :: "replay_window \<Rightarrow> replay_window" where
  "window_clear w = w\<lparr>max_seq := 0, bitmap := replicate (length (bitmap w)) 0, window_valid := False\<rparr>"

definition test_bit :: "bytes \<Rightarrow> nat \<Rightarrow> bool" where
  "test_bit bm idx \<longleftrightarrow> drop_bit (idx mod 8) (bm ! (idx div 8)) AND 1 = 1"

definition set_bit_at :: "bytes \<Rightarrow> nat \<Rightarrow> bytes" where
  "set_bit_at bm idx = bm[idx div 8 := (bm ! (idx div 8)) OR push_bit (idx mod 8) 1]"

text \<open>The first loop of \<open>shift_right\<close> runs over the bytes in place, from the last to the first.\<close>

definition shift_bytes :: "nat \<Rightarrow> bytes \<Rightarrow> bytes" where
  "shift_bytes byte_shift bm =
     fold (\<lambda>i bm. bm[i := if byte_shift \<le> i then bm ! (i - byte_shift) else 0])
       (rev [0..<length bm]) bm"

text \<open>The second loop runs from the first byte to the last and carries the bits that leave a byte.\<close>

fun shift_bits :: "nat \<Rightarrow> u8 \<Rightarrow> bytes \<Rightarrow> bytes" where
  "shift_bits bit_shift carry [] = []"
| "shift_bits bit_shift carry (b # bs) =
     (push_bit bit_shift b OR carry) # shift_bits bit_shift (drop_bit (8 - bit_shift) b) bs"

definition shift_right :: "nat \<Rightarrow> bytes \<Rightarrow> bytes" where
  "shift_right shift bm =
     (if shift = 0 then bm
      else if 256 \<le> shift then replicate (length bm) 0
      else
        let byte_shift = shift div 8; bit_shift = shift mod 8;
            bm = (if 0 < byte_shift then shift_bytes byte_shift bm else bm)
        in if 0 < bit_shift then shift_bits bit_shift 0 bm else bm)"

definition can_accept :: "replay_window \<Rightarrow> u64 \<Rightarrow> bool" where
  "can_accept w seq \<longleftrightarrow>
     \<not> window_valid w \<or> max_seq w < seq \<or>
     (let delta = usize_of_u64 (max_seq w - seq) in delta < 256 \<and> \<not> test_bit (bitmap w) delta)"

definition accept :: "replay_window \<Rightarrow> u64 \<Rightarrow> bool \<times> replay_window" where
  "accept w seq =
     (if \<not> window_valid w
      then (True, w\<lparr>window_valid := True, max_seq := seq, bitmap := set_bit_at (bitmap w) 0\<rparr>)
      else if max_seq w < seq
      then (True, w\<lparr>bitmap := set_bit_at (shift_right (usize_of_u64 (seq - max_seq w)) (bitmap w)) 0,
                    max_seq := seq\<rparr>)
      else
        let delta = usize_of_u64 (max_seq w - seq)
        in if 256 \<le> delta \<or> test_bit (bitmap w) delta then (False, w)
           else (True, w\<lparr>bitmap := set_bit_at (bitmap w) delta\<rparr>))"

lemma can_accept_accept: "fst (accept w seq) = can_accept w seq"
  by (auto simp: accept_def can_accept_def Let_def)

subsection \<open>The bitmap as 256 bits\<close>

lemma test_bit_iff: "test_bit bm idx \<longleftrightarrow> bit (bm ! (idx div 8)) (idx mod 8)"
proof -
  have "x AND 1 = 1 \<longleftrightarrow> bit x 0" for x :: u8
    by (simp add: and_one_eq mod_2_eq_odd bit_0)
  then show ?thesis by (simp add: test_bit_def bit_drop_bit_eq)
qed

lemma length_set_bit_at [simp]: "length (set_bit_at bm idx) = length bm"
  by (simp add: set_bit_at_def)

lemma test_bit_set_bit:
  assumes "idx < 8 * length bm"
  shows "test_bit (set_bit_at bm idx) i \<longleftrightarrow> i = idx \<or> test_bit bm i"
proof (cases "i div 8 = idx div 8")
  case True
  from assms have "idx div 8 < length bm" by (simp add: div_less_iff_less_mult mult.commute)
  moreover have "i = idx \<longleftrightarrow> i mod 8 = idx mod 8" using True by (metis mod_div_decomp)
  ultimately show ?thesis
    using True by (auto simp: test_bit_iff set_bit_at_def bit_simps)
next
  case False
  then have "i \<noteq> idx" by auto
  with False show ?thesis by (auto simp: test_bit_iff set_bit_at_def)
qed

lemma test_bit_zero [simp]: "i < 8 * n \<Longrightarrow> \<not> test_bit (replicate n 0) i"
  by (simp add: test_bit_iff div_less_iff_less_mult mult.commute)

lemma shift_bytes_loop:
  assumes "n \<le> length bm"
  shows "length (fold (\<lambda>i bm. bm[i := if s \<le> i then bm ! (i - s) else 0]) (rev [0..<n]) bm) = length bm \<and>
     (\<forall>j < length bm. fold (\<lambda>i bm. bm[i := if s \<le> i then bm ! (i - s) else 0]) (rev [0..<n]) bm ! j =
       (if j < n then if s \<le> j then bm ! (j - s) else 0 else bm ! j))"
  using assms
proof (induction n arbitrary: bm)
  case 0
  then show ?case by simp
next
  case (Suc n)
  let ?bm = "bm[n := if s \<le> n then bm ! (n - s) else 0]"
  from Suc.IH [of ?bm] Suc.prems show ?case
    by (auto simp: less_Suc_eq nth_list_update)
qed

lemma nth_shift_bits:
  "j < length bm \<Longrightarrow> shift_bits k c bm ! j =
     push_bit k (bm ! j) OR (if j = 0 then c else drop_bit (8 - k) (bm ! (j - 1)))"
  by (induction k c bm arbitrary: j rule: shift_bits.induct) (auto simp: nth_Cons split: nat.splits)

lemma length_shift_bits [simp]: "length (shift_bits k c bm) = length bm"
  by (induction k c bm rule: shift_bits.induct) auto

lemma length_shift_bytes [simp]: "length (shift_bytes s bm) = length bm"
  using shift_bytes_loop [of "length bm" bm s] by (simp add: shift_bytes_def)

lemma nth_shift_bytes: "j < length bm \<Longrightarrow> shift_bytes s bm ! j = (if s \<le> j then bm ! (j - s) else 0)"
  using shift_bytes_loop [of "length bm" bm s] by (simp add: shift_bytes_def)

lemma length_shift_right [simp]: "length (shift_right s bm) = length bm"
  by (simp add: shift_right_def Let_def)

text \<open>Byte \<open>j\<close> of the shifted map, for a shift of \<open>8 * m + k\<close> bits.\<close>

lemma nth_shift_right:
  assumes "j < length bm" and "s < 256"
  shows "shift_right s bm ! j =
    (let m = s div 8; k = s mod 8 in
      (if m \<le> j then push_bit k (bm ! (j - m)) else 0) OR
      (if m < j \<and> 0 < k then drop_bit (8 - k) (bm ! (j - m - 1)) else 0))"
proof -
  have z: "s div 8 = 0 \<Longrightarrow> s mod 8 = 0 \<Longrightarrow> s = 0" by presburger
  show ?thesis using assms z
    by (cases "s = 0") (auto simp: shift_right_def Let_def nth_shift_bits nth_shift_bytes)
qed

lemma test_bit_at: "b < 8 \<Longrightarrow> test_bit bm (8 * a + b) = bit (bm ! a) b"
  by (simp add: test_bit_iff)

lemma test_bit_shift_right:
  assumes "i < 8 * length bm" and "length bm = 32"
  shows "test_bit (shift_right s bm) i \<longleftrightarrow> s \<le> i \<and> test_bit bm (i - s)"
proof (cases "s < 256")
  case False
  with assms show ?thesis by (simp add: shift_right_def)
next
  case True
  define j r m k where d: "j = i div 8" "r = i mod 8" "m = s div 8" "k = s mod 8"
  have r: "r < 8" "k < 8" and i: "i = 8 * j + r" and s: "s = 8 * m + k"
    by (auto simp: d)
  have j: "j < length bm" using assms d by linarith
  have hi: "\<not> bit (x :: u8) n" if "8 \<le> n" for x n
    using that bit_imp_le_length [of x n] by auto
  have lhs: "test_bit (shift_right s bm) i \<longleftrightarrow>
      m \<le> j \<and> k \<le> r \<and> bit (bm ! (j - m)) (r - k) \<or> m < j \<and> r < k \<and> bit (bm ! (j - m - 1)) (8 - k + r)"
    using r j True
    by (auto simp: test_bit_iff nth_shift_right Let_def d [symmetric] bit_simps hi)
  have rhs: "s \<le> i \<and> test_bit bm (i - s) \<longleftrightarrow>
      m \<le> j \<and> k \<le> r \<and> bit (bm ! (j - m)) (r - k) \<or> m < j \<and> r < k \<and> bit (bm ! (j - m - 1)) (8 - k + r)"
  proof (cases "k \<le> r")
    case True
    then have "s \<le> i \<longleftrightarrow> m \<le> j" and "m \<le> j \<Longrightarrow> i - s = 8 * (j - m) + (r - k)"
      using r by (auto simp: i s)
    with True r show ?thesis by (cases "m \<le> j") (simp_all only: test_bit_at, auto simp: test_bit_at)
  next
    case False
    then have "s \<le> i \<longleftrightarrow> m < j" and "m < j \<Longrightarrow> i - s = 8 * (j - m - 1) + (8 - k + r)"
      using r by (auto simp: i s)
    with False r show ?thesis by (cases "m < j") (simp_all only: test_bit_at, auto simp: test_bit_at)
  qed
  from lhs rhs show ?thesis by simp
qed


subsection \<open>The contract of a replay filter\<close>

fun filter_run :: "('w \<Rightarrow> u64 \<Rightarrow> bool \<times> 'w) \<Rightarrow> 'w \<Rightarrow> u64 list \<Rightarrow> u64 list" where
  "filter_run acc w [] = []"
| "filter_run acc w (s # ss) =
     (case acc w s of (ok, w') \<Rightarrow> (if ok then [s] else []) @ filter_run acc w' ss)"

locale anti_replay =
  fixes can :: "'w \<Rightarrow> u64 \<Rightarrow> bool"
    and acc :: "'w \<Rightarrow> u64 \<Rightarrow> bool \<times> 'w"
    and fresh :: "'w"
    and repr :: "'w \<Rightarrow> nat set \<Rightarrow> bool"
    and near :: "nat set \<Rightarrow> u64 \<Rightarrow> bool"
  assumes can_iff_acc: "can w s = fst (acc w s)"
    and repr_fresh: "repr fresh {}"
    and acc_new: "repr w S \<Longrightarrow> near S s \<Longrightarrow> fst (acc w s) \<Longrightarrow> unat s \<notin> S"
    and acc_repr: "repr w S \<Longrightarrow> near S s \<Longrightarrow>
      repr (snd (acc w s)) (if fst (acc w s) then insert (unat s) S else S)"
begin

lemma accepted_then_refused:
  assumes "repr w S" and "near S s" and "fst (acc w s)" and "near (insert (unat s) S) s"
  shows "\<not> can (snd (acc w s)) s"
proof -
  from acc_repr [OF assms(1,2)] assms(3) have "repr (snd (acc w s)) (insert (unat s) S)" by simp
  from acc_new [OF this assms(4)] show ?thesis by (auto simp: can_iff_acc)
qed

lemma run_distinct_from:
  assumes "repr w S" and "\<And>S s. S \<subseteq> S0 \<Longrightarrow> s \<in> set ss \<Longrightarrow> near S s"
    and "S \<union> unat ` set ss \<subseteq> S0"
  shows "distinct (filter_run acc w ss) \<and> (\<forall>s \<in> set (filter_run acc w ss). unat s \<notin> S)"
  using assms
proof (induction ss arbitrary: w S)
  case Nil
  then show ?case by simp
next
  case (Cons s ss)
  obtain ok w' where a: "acc w s = (ok, w')" by fastforce
  have near: "near S s" using Cons.prems by auto
  have "repr w' (if ok then insert (unat s) S else S)"
    using acc_repr [OF Cons.prems(1) near] a by simp
  from Cons.IH [OF this] Cons.prems(2,3)
  have ih: "distinct (filter_run acc w' ss) \<and>
      (\<forall>t \<in> set (filter_run acc w' ss). unat t \<notin> (if ok then insert (unat s) S else S))"
    by (auto split: if_splits)
  from acc_new [OF Cons.prems(1) near] a have "ok \<Longrightarrow> unat s \<notin> S" by simp
  with ih a show ?case by (auto split: if_splits)
qed

lemma run_distinct:
  assumes "\<And>S s. S \<subseteq> unat ` set ss \<Longrightarrow> s \<in> set ss \<Longrightarrow> near S s"
  shows "distinct (filter_run acc fresh ss)"
  using run_distinct_from [OF repr_fresh, of "unat ` set ss" ss] assms by auto

end

subsection \<open>The code's window meets it\<close>

definition window_repr :: "replay_window \<Rightarrow> nat set \<Rightarrow> bool" where
  "window_repr w S \<longleftrightarrow>
     length (bitmap w) = 32 \<and>
     (if window_valid w
      then unat (max_seq w) \<in> S \<and> (\<forall>s \<in> S. s \<le> unat (max_seq w)) \<and>
           (\<forall>i < 256. test_bit (bitmap w) i \<longleftrightarrow>
              i \<le> unat (max_seq w) \<and> unat (max_seq w) - i \<in> S)
      else S = {} \<and> (\<forall>i < 256. \<not> test_bit (bitmap w) i))"

text \<open>The new number is less than \<open>2 ^ 32\<close> away from the largest number accepted before.\<close>

definition near_window :: "nat set \<Rightarrow> u64 \<Rightarrow> bool" where
  "near_window S seq \<longleftrightarrow> (\<forall>s \<in> S. unat seq < s + 2 ^ 32 \<and> s < unat seq + 2 ^ 32)"

lemma window_repr_default: "window_repr window_default {}"
  by (simp add: window_repr_def window_default_def)

lemma window_repr_clear: "length (bitmap w) = 32 \<Longrightarrow> window_repr (window_clear w) {}"
  by (simp add: window_repr_def window_clear_def)

lemma accept_default: "fst (accept window_default s)"
  by (simp add: accept_def window_default_def)

lemma accept_repr:
  assumes r: "window_repr w S" and near: "near_window S seq"
  shows "(fst (accept w seq) \<longleftrightarrow> unat seq \<notin> S \<and> (\<forall>s \<in> S. s < unat seq + 256)) \<and>
     window_repr (snd (accept w seq)) (if fst (accept w seq) then insert (unat seq) S else S)"
proof (cases "window_valid w")
  case False
  with r show ?thesis
    by (auto simp: accept_def window_repr_def test_bit_set_bit)
next
  case True
  let ?M = "unat (max_seq w)"
  from r True have len: "length (bitmap w) = 32" and M: "?M \<in> S" and le: "\<forall>s \<in> S. s \<le> ?M"
    and bits: "\<And>i. i < 256 \<Longrightarrow> test_bit (bitmap w) i \<longleftrightarrow> i \<le> ?M \<and> ?M - i \<in> S"
    by (auto simp: window_repr_def)
  show ?thesis
  proof (cases "max_seq w < seq")
    case newer: True
    define d where "d = usize_of_u64 (seq - max_seq w)"
    have lt: "?M < unat seq" using newer by (simp add: word_less_nat_alt)
    have "unat (seq - max_seq w) = unat seq - ?M" using newer by (simp add: unat_sub)
    moreover have "unat seq - ?M < 2 ^ 32" using near M by (auto simp: near_window_def)
    ultimately have d: "d = unat seq - ?M" by (simp add: d_def usize_of_u64_mod)
    have "unat seq \<notin> S" using le lt by auto
    moreover have "\<forall>s \<in> S. s < unat seq + 256" using le lt by auto
    moreover have "window_repr (snd (accept w seq)) (insert (unat seq) S)"
      using True newer len M le lt
      by (auto simp: accept_def window_repr_def test_bit_set_bit test_bit_shift_right bits
          d_def [symmetric] d)
    ultimately show ?thesis using True newer by (simp add: accept_def)
  next
    case old: False
    define d where "d = usize_of_u64 (max_seq w - seq)"
    have ge: "unat seq \<le> ?M" using old by (simp add: word_less_nat_alt)
    have "unat (max_seq w - seq) = ?M - unat seq" using old by (simp add: unat_sub)
    moreover have "?M - unat seq < 2 ^ 32" using near M by (auto simp: near_window_def)
    ultimately have d: "d = ?M - unat seq" by (simp add: d_def usize_of_u64_mod)
    have at: "test_bit (bitmap w) d \<longleftrightarrow> unat seq \<in> S" if "d < 256"
      using bits [OF that] ge d by simp
    have ok: "fst (accept w seq) \<longleftrightarrow> d < 256 \<and> unat seq \<notin> S"
      using True old at by (auto simp: accept_def d_def [symmetric] Let_def)
    have "d < 256 \<longleftrightarrow> (\<forall>s \<in> S. s < unat seq + 256)" using M le d ge by fastforce
    moreover have "window_repr (snd (accept w seq)) (insert (unat seq) S)"
      if "d < 256" "unat seq \<notin> S"
    proof -
      have "i = d \<longleftrightarrow> i \<le> ?M \<and> ?M - i = unat seq" for i using ge d by auto
      then have "test_bit (set_bit_at (bitmap w) d) i \<longleftrightarrow> i \<le> ?M \<and> ?M - i \<in> insert (unat seq) S"
        if "i < 256" for i
        using \<open>d < 256\<close> that len bits [OF that] by (auto simp: test_bit_set_bit)
      with True old that at len M le ge show ?thesis
        by (simp add: accept_def d_def [symmetric] Let_def window_repr_def)
    qed
    moreover have "snd (accept w seq) = w" if "\<not> (d < 256 \<and> unat seq \<notin> S)"
      using True old at that by (auto simp: accept_def d_def [symmetric] Let_def)
    ultimately show ?thesis using r ok by auto
  qed
qed


interpretation rw: anti_replay can_accept accept window_default window_repr near_window
proof unfold_locales
  fix w S s
  show "can_accept w s = fst (accept w s)" by (simp add: can_accept_accept)
  show "window_repr window_default {}" by (rule window_repr_default)
  assume "window_repr w S" and "near_window S s"
  note acc = accept_repr [OF this]
  show "window_repr (snd (accept w s)) (if fst (accept w s) then insert (unat s) S else S)"
    by (rule acc [THEN conjunct2])
  assume "fst (accept w s)"
  with acc show "unat s \<notin> S" by simp
qed

subsection \<open>Properties\<close>

text \<open>C17: As long as numbers stay less than \<open>2 ^ 32\<close> away from every accepted one, the 256-bit window
  refines the set of accepted sequence numbers: such a number is accepted if and only if it was not
  accepted before and is less than 256 behind the largest one, and afterwards the window represents the
  set with exactly that number added.  Nothing is claimed of larger distances, which the code truncates.\<close>

theorem window_refines_set:
  assumes "window_repr w S" and "near_window S seq"
  shows "(fst (accept w seq) \<longleftrightarrow> unat seq \<notin> S \<and> (\<forall>s \<in> S. s < unat seq + 256)) \<and>
     window_repr (snd (accept w seq)) (if fst (accept w seq) then insert (unat seq) S else S)"
  using assms by (rule accept_repr)

theorem window_refines_set_witness:
  "fst (accept (snd (accept window_default 1000)) 745) \<and>
   \<not> fst (accept (snd (accept window_default 1000)) 744)"
proof -
  let ?w = "snd (accept window_default 1000)"
  have n: "near_window {} (1000 :: u64)" by (simp add: near_window_def)
  have "window_repr ?w {1000}"
    using window_refines_set [OF window_repr_default n] by (simp add: accept_default)
  then have "fst (accept ?w s) \<longleftrightarrow> unat s \<noteq> 1000 \<and> 1000 < unat s + 256"
    if "near_window {1000} s" for s
    using window_refines_set [of ?w "{1000}" s] that by auto
  from this [of 745] this [of 744] show ?thesis by (simp add: near_window_def)
qed

text \<open>C18: Whatever sequence numbers below \<open>2 ^ 32\<close> arrive, in whatever order and however often, one
  window accepts each of them at most once.\<close>

theorem window_accepts_once:
  assumes "\<forall>s \<in> set ss. unat s < 2 ^ 32"
  shows "distinct (filter_run accept window_default ss)"
proof (rule rw.run_distinct)
  fix S s
  assume "S \<subseteq> unat ` set ss" and "s \<in> set ss"
  with assms show "near_window S s" by (fastforce simp: near_window_def)
qed

theorem window_accepts_once_witness:
  "filter_run accept window_default [5, 7, 5, 6, 300, 6, 299] = [5, 7, 6, 300, 299] \<and>
   distinct (filter_run accept window_default [5, 7, 5, 6, 300, 6, 299])"
proof
  show "filter_run accept window_default [5, 7, 5, 6, 300, 6, 299] = [5, 7, 6, 300, 299]"
    by code_simp
  show "distinct (filter_run accept window_default [5, 7, 5, 6, 300, 6, 299])"
    by (rule window_accepts_once) simp
qed

text \<open>C19: The bound on the distance is needed.  Distances are truncated to 32 bits, so that after a jump
  whose truncated distance is at least 256 a number \<open>2 ^ 32 + k\<close> behind, with \<open>k\<close> between 1 and 255, looks
  recent: whatever the window was, even if it refused the number before, it accepts the number again.\<close>

theorem window_accepts_old_after_wrap:
  assumes "length (bitmap w) = 32" and "window_valid w" and "max_seq w < n"
    and "256 \<le> unat (n - max_seq w) mod 2 ^ 32"
    and "unat n = unat s + 2 ^ 32 + k" and "0 < k" and "k < 256"
  shows "fst (accept w n) \<and> fst (accept (snd (accept w n)) s)"
proof -
  let ?w = "snd (accept w n)"
  have w: "?w = w\<lparr>bitmap := set_bit_at (shift_right (usize_of_u64 (n - max_seq w)) (bitmap w)) 0, max_seq := n\<rparr>"
    and ok: "fst (accept w n)"
    using assms(2,3) by (simp_all add: accept_def)
  have "usize_of_u64 (n - max_seq w) \<ge> 256" using assms(4) by (simp add: usize_of_u64_mod)
  then have clear: "\<not> test_bit (bitmap ?w) k"
    using assms(1,6,7) by (simp add: w test_bit_set_bit test_bit_shift_right)
  have le: "s \<le> n" "\<not> n < s" using assms(5) by (simp_all add: word_le_nat_alt word_less_nat_alt)
  have "usize_of_u64 (n - s) = k"
    using assms(5,7) le by (simp add: usize_of_u64_mod unat_sub)
  with clear assms(2,7) le show ?thesis
    unfolding can_accept_accept [of ?w] by (simp add: ok can_accept_def w)
qed

theorem window_accepts_old_after_wrap_witness:
  "filter_run accept window_default [5, 5 + 2 ^ 31] = [5, 5 + 2 ^ 31]
   \<and> \<not> can_accept (snd (accept (snd (accept window_default 5)) (5 + 2 ^ 31))) 5
   \<and> filter_run accept (snd (accept (snd (accept window_default 5)) (5 + 2 ^ 31))) [6 + 2 ^ 32, 5] = [6 + 2 ^ 32, 5]"
proof -
  let ?w = "snd (accept (snd (accept window_default 5)) (5 + 2 ^ 31))"
  have w: "length (bitmap ?w) = 32" "window_valid ?w" "max_seq ?w = 5 + 2 ^ 31"
    by (simp_all add: accept_def window_default_def)
  have "fst (accept ?w (6 + 2 ^ 32)) \<and> fst (accept (snd (accept ?w (6 + 2 ^ 32))) 5)"
    by (rule window_accepts_old_after_wrap [OF w(1,2), where k = 1]) (use w(3) in simp_all)
  then show ?thesis
    by (simp add: case_prod_unfold) (simp add: accept_def can_accept_def window_default_def usize_of_u64_mod Let_def)
qed

end
