(* ===== verification/Traffic.thy ===== *)
theory Traffic
  imports Replay_Window
begin

text \<open>
  The traffic state of a secure session in \<open>cloudflare/wasm/src/secure.rs\<close>: the sending side (epoch,
  one sequence counter per direction, rotation counters) and the receiving side (two epoch slots per
  direction, each with a replay window, and the slots kept for a grace period after a \<open>Sync\<close>).

  The struct \<open>SecurePeer\<close> has these fields and more; its record extends \<open>traffic\<close>, and the functions
  here work on any extension.  \<open>direction\<close> indexes the arrays \<open>[_; 2]\<close> and is 0 or 1.  The clock
  \<open>js_sys::Date::now()\<close> is an argument: on Workers it does not advance while a handler runs.

  HMAC-SHA-256 and the AEAD ciphers are crates; they are fields of the parameter \<open>crypto\<close>.
\<close>

definition AEAD_TAG_SIZE :: nat where "AEAD_TAG_SIZE = 16"
definition AEAD_NONCE_SIZE :: nat where "AEAD_NONCE_SIZE = 12"
definition AEAD_TAIL :: nat where "AEAD_TAIL = 28"
definition RX_EPOCH_IDLE_MS :: u64 where "RX_EPOCH_IDLE_MS = 30000"
definition ROTATE_AFTER_PACKETS :: u64 where "ROTATE_AFTER_PACKETS = 1000000"
definition ROTATE_AFTER_MS :: u64 where "ROTATE_AFTER_MS = 10 * 60 * 1000"
definition MAX_ACCEPTED_RX_EPOCH_AHEAD :: u32 where "MAX_ACCEPTED_RX_EPOCH_AHEAD = 3"
definition DECRYPT_FAIL_THRESHOLD :: u32 where "DECRYPT_FAIL_THRESHOLD = 10"

datatype cipher = Aes128Gcm | Aes256Gcm | ChaCha20Poly1305

record crypto =
  hmac_sha256 :: "bytes \<Rightarrow> bytes \<Rightarrow> bytes"
  aead_encrypt :: "cipher \<Rightarrow> bytes \<Rightarrow> bytes \<Rightarrow> bytes \<Rightarrow> (bytes \<times> bytes) option"
  aead_decrypt :: "cipher \<Rightarrow> bytes \<Rightarrow> bytes \<Rightarrow> bytes \<Rightarrow> bytes \<Rightarrow> bytes option"

definition ascii :: "string \<Rightarrow> bytes" where
  "ascii s = map of_char s"

subsection \<open>State\<close>

record rx_slot =
  slot_epoch :: u32
  window :: replay_window
  last_rx_ms :: u64
  slot_valid :: bool

definition slot_default :: rx_slot where
  "slot_default = \<lparr>slot_epoch = 0, window = window_default, last_rx_ms = 0, slot_valid = False\<rparr>"

definition slot_clear :: "rx_slot \<Rightarrow> rx_slot" where
  "slot_clear s = s\<lparr>slot_epoch := 0, window := window_clear (window s), last_rx_ms := 0,
                    slot_valid := False\<rparr>"

definition slots_default :: "rx_slot list list" where
  "slots_default = [[slot_default, slot_default], [slot_default, slot_default]]"

record sync_grace =
  grace_slots :: "rx_slot list list"
  expires_at_ms :: u64
  grace_valid :: bool

definition grace_default :: sync_grace where
  "grace_default = \<lparr>grace_slots = slots_default, expires_at_ms = 0, grace_valid = False\<rparr>"

record traffic =
  root_key :: "bytes option"
  send_epoch :: u32
  send_seq :: "u64 list"
  send_epoch_started_ms :: u64
  send_packets_since_epoch :: u64
  rx_slots :: "rx_slot list list"
  sync_rx_grace :: sync_grace
  decrypt_fail_count :: u32

subsection \<open>Algorithms and keys\<close>

definition ascii_lower :: "char \<Rightarrow> char" where
  "ascii_lower c =
     (if 65 \<le> (of_char c :: nat) \<and> (of_char c :: nat) \<le> 90 then char_of (of_char c + 32 :: nat) else c)"

definition eq_ignore_ascii_case :: "string \<Rightarrow> string \<Rightarrow> bool" where
  "eq_ignore_ascii_case a b \<longleftrightarrow> map ascii_lower a = map ascii_lower b"

definition normalized_algorithm :: "string \<Rightarrow> error + string" where
  "normalized_algorithm value =
     (if eq_ignore_ascii_case value ''aes-gcm'' then Inr ''aes-gcm''
      else if eq_ignore_ascii_case value ''aes-256-gcm'' then Inr ''aes-256-gcm''
      else if eq_ignore_ascii_case value ''chacha20'' \<or>
              eq_ignore_ascii_case value ''chacha20-poly1305'' then Inr ''chacha20''
      else Inl (Err ''unsupported EasyTier encryption algorithm''))"

definition validate_algorithm :: "string \<Rightarrow> error + unit" where
  "validate_algorithm value = rbind (normalized_algorithm value) (\<lambda>_. Inr ())"

text \<open>The cipher and the part of the 32-byte key that \<open>seal\<close> and \<open>open\<close> select for an algorithm.\<close>

definition cipher_for :: "string \<Rightarrow> bytes \<Rightarrow> error + (cipher \<times> bytes)" where
  "cipher_for algorithm key =
     rbind (normalized_algorithm algorithm) (\<lambda>name.
       Inr (if name = ''aes-gcm'' then (Aes128Gcm, take 16 key)
            else if name = ''aes-256-gcm'' then (Aes256Gcm, key)
            else (ChaCha20Poly1305, key)))"

definition seal :: "crypto \<Rightarrow> string \<Rightarrow> bytes \<Rightarrow> bytes \<Rightarrow> bytes \<Rightarrow> error + (bytes \<times> bytes)" where
  "seal c algorithm key nonce plaintext =
     rbind (cipher_for algorithm key) (\<lambda>(ciph, k).
       ok_or (Err ''encryption failed'') (aead_encrypt c ciph k nonce plaintext))"

definition open_sealed :: "crypto \<Rightarrow> string \<Rightarrow> bytes \<Rightarrow> bytes \<Rightarrow> bytes \<Rightarrow> bytes \<Rightarrow> error + bytes" where
  "open_sealed c algorithm key nonce ciphertext tag =
     rbind (cipher_for algorithm key) (\<lambda>(ciph, k).
       ok_or (Err ''EasyTier session decryption failed'') (aead_decrypt c ciph k nonce ciphertext tag))"

definition direction_index :: "u32 \<Rightarrow> u32 \<Rightarrow> nat" where
  "direction_index sender receiver = (if receiver \<le> sender then 1 else 0)"

definition traffic_key :: "crypto \<Rightarrow> 'a traffic_scheme \<Rightarrow> u32 \<Rightarrow> nat \<Rightarrow> error + bytes" where
  "traffic_key c s epoch direction =
     rbind (ok_or (Err ''root key is missing'') (root_key s)) (\<lambda>root.
       let prk = hmac_sha256 c (replicate 32 0) root
       in Inr (hmac_sha256 c prk (ascii ''et-traffic'' @ u32_to_be epoch @ [of_nat direction] @ [1])))"

subsection \<open>Sending\<close>

definition maybe_rotate_epoch :: "u64 \<Rightarrow> 'a traffic_scheme \<Rightarrow> 'a traffic_scheme" where
  "maybe_rotate_epoch current_ms s =
     (let s = s\<lparr>send_packets_since_epoch := sat_add (send_packets_since_epoch s) 1\<rparr>
      in if send_packets_since_epoch s < ROTATE_AFTER_PACKETS \<and>
            sat_sub current_ms (send_epoch_started_ms s) < ROTATE_AFTER_MS
         then s
         else s\<lparr>send_epoch := send_epoch s + 1, send_epoch_started_ms := current_ms,
                send_packets_since_epoch := 0\<rparr>)"

definition nonce_bytes :: "u32 \<Rightarrow> u64 \<Rightarrow> bytes" where
  "nonce_bytes epoch sequence = u32_to_be epoch @ u64_to_be sequence"

definition encrypt_payload ::
  "crypto \<Rightarrow> u64 \<Rightarrow> string \<Rightarrow> nat \<Rightarrow> bytes \<Rightarrow> ('a traffic_scheme, bytes) op" where
  "encrypt_payload c now_ms algorithm direction plaintext =
     mbind (mmod (maybe_rotate_epoch now_ms)) (\<lambda>_.
     mbind (mget send_epoch) (\<lambda>epoch.
     mbind (mget (\<lambda>s. send_seq s ! direction)) (\<lambda>sequence.
     mbind (mlift (ok_or (Err ''secure packet sequence exhausted'') (checked_add sequence 1))) (\<lambda>next_seq.
     mbind (mmod (\<lambda>s. s\<lparr>send_seq := (send_seq s)[direction := next_seq]\<rparr>)) (\<lambda>_.
     mbind (mtry (\<lambda>s. traffic_key c s epoch direction)) (\<lambda>key.
     mbind (mlift (seal c algorithm key (nonce_bytes epoch sequence) plaintext)) (\<lambda>(ciphertext, tag).
     mret (ciphertext @ tag @ nonce_bytes epoch sequence))))))))"

subsection \<open>Receiving\<close>

definition evict_slot :: "u64 \<Rightarrow> rx_slot \<Rightarrow> rx_slot" where
  "evict_slot current_ms slot =
     (if slot_valid slot \<and> last_rx_ms slot \<noteq> 0 \<and>
         RX_EPOCH_IDLE_MS < sat_sub current_ms (last_rx_ms slot)
      then slot_clear slot else slot)"

definition evict_slots :: "u64 \<Rightarrow> rx_slot list list \<Rightarrow> rx_slot list list" where
  "evict_slots current_ms slots = map (map (evict_slot current_ms)) slots"

definition evict_old_rx_slots :: "u64 \<Rightarrow> 'a traffic_scheme \<Rightarrow> 'a traffic_scheme" where
  "evict_old_rx_slots current_ms s =
     (let s = s\<lparr>rx_slots := evict_slots current_ms (rx_slots s)\<rparr>; g = sync_rx_grace s
      in if grace_valid g \<and> expires_at_ms g \<le> current_ms
         then s\<lparr>sync_rx_grace := grace_default\<rparr>
         else if grace_valid g
         then s\<lparr>sync_rx_grace := g\<lparr>grace_slots := evict_slots current_ms (grace_slots g)\<rparr>\<rparr>
         else s)"

text \<open>The slot of the grace array, if there is one, that is in charge of an epoch.\<close>

definition grace_for :: "'a traffic_scheme \<Rightarrow> nat \<Rightarrow> rx_slot list" where
  "grace_for s direction =
     (if grace_valid (sync_rx_grace s) then grace_slots (sync_rx_grace s) ! direction else [])"

definition slot_is :: "u32 \<Rightarrow> rx_slot \<Rightarrow> bool" where
  "slot_is epoch slot \<longleftrightarrow> slot_valid slot \<and> slot_epoch slot = epoch"

definition precheck_slots :: "u32 \<Rightarrow> u32 \<Rightarrow> u64 \<Rightarrow> rx_slot list \<Rightarrow> bool" where
  "precheck_slots send_ep epoch sequence slots =
     (if \<not> slot_valid (slots ! 0) then True
      else if slot_epoch (slots ! 0) = epoch then can_accept (window (slots ! 0)) sequence
      else if slot_is epoch (slots ! 1) then can_accept (window (slots ! 1)) sequence
      else if slot_epoch (slots ! 0) < epoch
      then (let baseline_epoch = max send_ep (slot_epoch (slots ! 0));
                baseline_epoch = (if slot_valid (slots ! 1)
                                  then max baseline_epoch (slot_epoch (slots ! 1))
                                  else baseline_epoch)
            in epoch \<le> sat_add baseline_epoch MAX_ACCEPTED_RX_EPOCH_AHEAD)
      else False)"

definition precheck_replay :: "u32 \<Rightarrow> u64 \<Rightarrow> nat \<Rightarrow> 'a traffic_scheme \<Rightarrow> bool" where
  "precheck_replay epoch sequence direction s =
     (case find (slot_is epoch) (grace_for s direction) of
        Some slot \<Rightarrow> can_accept (window slot) sequence
      | None \<Rightarrow> precheck_slots (send_epoch s) epoch sequence (rx_slots s ! direction))"

definition new_slot :: "u32 \<Rightarrow> u64 \<Rightarrow> rx_slot" where
  "new_slot epoch received_at_ms =
     \<lparr>slot_epoch = epoch, window = window_default, last_rx_ms = received_at_ms, slot_valid = True\<rparr>"

text \<open>\<open>slot.last_rx_ms = received_at_ms; return slot.window.accept(sequence)\<close>\<close>

definition slot_accept :: "u64 \<Rightarrow> u64 \<Rightarrow> rx_slot \<Rightarrow> bool \<times> rx_slot" where
  "slot_accept sequence received_at_ms slot =
     (case accept (window slot) sequence of
        (ok, w) \<Rightarrow> (ok, slot\<lparr>last_rx_ms := received_at_ms, window := w\<rparr>))"

fun commit_grace :: "u32 \<Rightarrow> u64 \<Rightarrow> u64 \<Rightarrow> rx_slot list \<Rightarrow> (bool \<times> rx_slot list) option" where
  "commit_grace epoch sequence received_at_ms [] = None"
| "commit_grace epoch sequence received_at_ms (slot # slots) =
     (if slot_is epoch slot
      then (case slot_accept sequence received_at_ms slot of (ok, slot') \<Rightarrow> Some (ok, slot' # slots))
      else map_option (\<lambda>(ok, slots'). (ok, slot # slots'))
             (commit_grace epoch sequence received_at_ms slots))"

definition commit_slots :: "u32 \<Rightarrow> u64 \<Rightarrow> u64 \<Rightarrow> rx_slot list \<Rightarrow> bool \<times> rx_slot list" where
  "commit_slots epoch sequence received_at_ms slots =
     (let slots = (if \<not> slot_valid (slots ! 0) then slots[0 := new_slot epoch received_at_ms] else slots)
      in if slot_epoch (slots ! 0) = epoch
         then (case slot_accept sequence received_at_ms (slots ! 0) of (ok, x) \<Rightarrow> (ok, slots[0 := x]))
         else if slot_is epoch (slots ! 1)
         then (case slot_accept sequence received_at_ms (slots ! 1) of (ok, x) \<Rightarrow> (ok, slots[1 := x]))
         else if slot_epoch (slots ! 0) < epoch
         then (let slots = slots[1 := slots ! 0]; slots = slots[0 := new_slot epoch received_at_ms]
               in case accept (window (slots ! 0)) sequence of
                    (ok, w) \<Rightarrow> (ok, slots[0 := (slots ! 0)\<lparr>window := w\<rparr>]))
         else (False, slots))"

definition commit_replay :: "u32 \<Rightarrow> u64 \<Rightarrow> nat \<Rightarrow> u64 \<Rightarrow> 'a traffic_scheme \<Rightarrow> bool \<times> 'a traffic_scheme" where
  "commit_replay epoch sequence direction received_at_ms s =
     (case commit_grace epoch sequence received_at_ms (grace_for s direction) of
        Some (ok, slots) \<Rightarrow>
          (ok, s\<lparr>sync_rx_grace := (sync_rx_grace s)\<lparr>grace_slots :=
                  (grace_slots (sync_rx_grace s))[direction := slots]\<rparr>\<rparr>)
      | None \<Rightarrow>
          (case commit_slots epoch sequence received_at_ms (rx_slots s ! direction) of
             (ok, slots) \<Rightarrow> (ok, s\<lparr>rx_slots := (rx_slots s)[direction := slots]\<rparr>)))"

definition decrypt_payload ::
  "crypto \<Rightarrow> u64 \<Rightarrow> string \<Rightarrow> nat \<Rightarrow> bytes \<Rightarrow> ('a traffic_scheme, bytes option) op" where
  "decrypt_payload c now_ms algorithm direction payload =
     (if length payload < AEAD_TAIL
      then mraise (Err ''encrypted EasyTier payload is too short'')
      else
        let text_len = length payload - AEAD_TAIL;
            tag = take AEAD_TAG_SIZE (drop text_len payload);
            nonce = drop (text_len + AEAD_TAG_SIZE) payload;
            epoch = u32_from_be (take 4 nonce);
            sequence = u64_from_be (drop 4 nonce)
        in
          mbind (mmod (evict_old_rx_slots now_ms)) (\<lambda>_.
          mbind (mget (precheck_replay epoch sequence direction)) (\<lambda>fresh.
          if \<not> fresh then mret None
          else
            mbind (mtry (\<lambda>s. traffic_key c s epoch direction)) (\<lambda>key.
            case open_sealed c algorithm key nonce (take text_len payload) tag of
              Inl e \<Rightarrow>
                mbind (mmod (\<lambda>s. s\<lparr>decrypt_fail_count := sat_add (decrypt_fail_count s) 1\<rparr>)) (\<lambda>_.
                mbind (mget decrypt_fail_count) (\<lambda>n.
                if DECRYPT_FAIL_THRESHOLD \<le> n then mraise e else mret None))
            | Inr plaintext \<Rightarrow>
                mbind (mmod (\<lambda>s. s\<lparr>decrypt_fail_count := 0\<rparr>)) (\<lambda>_.
                mbind (mrun (commit_replay epoch sequence direction now_ms)) (\<lambda>ok.
                if \<not> ok then mret None else mret (Some plaintext)))))))"

subsection \<open>Well-formed state\<close>

definition slot_wf :: "rx_slot \<Rightarrow> bool" where
  "slot_wf x \<longleftrightarrow> length (bitmap (window x)) = 32"

definition slots_wf :: "rx_slot list list \<Rightarrow> bool" where
  "slots_wf ss \<longleftrightarrow> length ss = 2 \<and> (\<forall>d \<in> set ss. length d = 2 \<and> (\<forall>x \<in> set d. slot_wf x))"

definition traffic_wf :: "'a traffic_scheme \<Rightarrow> bool" where
  "traffic_wf s \<longleftrightarrow> length (send_seq s) = 2 \<and> slots_wf (rx_slots s) \<and> slots_wf (grace_slots (sync_rx_grace s))"

lemma slot_wf_simps [simp]:
  "slot_wf slot_default" "slot_wf (new_slot e t)" "slot_wf x \<Longrightarrow> slot_wf (slot_clear x)"
  "slot_wf (x\<lparr>slot_epoch := e\<rparr>) = slot_wf x" "slot_wf (x\<lparr>last_rx_ms := t\<rparr>) = slot_wf x"
  by (simp_all add: slot_wf_def slot_default_def window_default_def new_slot_def slot_clear_def window_clear_def)

lemma slots_wf_default [simp]: "slots_wf slots_default"
  by (simp add: slots_wf_def slots_default_def)

lemma accept_length [simp]: "length (bitmap (snd (accept w s))) = length (bitmap w)"
  by (auto simp: accept_def Let_def)

lemma slot_accept_simps [simp]:
  "slot_epoch (snd (slot_accept q t x)) = slot_epoch x"
  "slot_valid (snd (slot_accept q t x)) = slot_valid x"
  "last_rx_ms (snd (slot_accept q t x)) = t"
  "window (snd (slot_accept q t x)) = snd (accept (window x) q)"
  "fst (slot_accept q t x) = fst (accept (window x) q)"
  "slot_wf (snd (slot_accept q t x)) = slot_wf x"
  by (simp_all add: slot_accept_def slot_wf_def split: prod.splits)
    (metis accept_length snd_conv)

lemma slot_is_accept [simp]: "slot_is e (snd (slot_accept q t x)) = slot_is e x"
  by (simp add: slot_is_def)

lemma slots_wf_nth: "slots_wf ss \<Longrightarrow> d < 2 \<Longrightarrow> length (ss ! d) = 2 \<and> (\<forall>x \<in> set (ss ! d). slot_wf x)"
  by (auto simp: slots_wf_def)

lemma slots_wf_update:
  "slots_wf ss \<Longrightarrow> length xs = 2 \<Longrightarrow> \<forall>x \<in> set xs. slot_wf x \<Longrightarrow> slots_wf (ss[d := xs])"
  by (auto simp: slots_wf_def dest!: set_update_subset_insert [THEN subsetD])

lemma slots_wf_evict [simp]: "slots_wf ss \<Longrightarrow> slots_wf (evict_slots t ss)"
  by (auto simp: slots_wf_def evict_slots_def evict_slot_def)

lemma traffic_wf_rotate [simp]: "traffic_wf (maybe_rotate_epoch t s) = traffic_wf s"
  by (simp add: traffic_wf_def maybe_rotate_epoch_def Let_def)

lemma traffic_wf_evict: "traffic_wf s \<Longrightarrow> traffic_wf (evict_old_rx_slots t s)"
  by (simp add: traffic_wf_def evict_old_rx_slots_def Let_def grace_default_def)

lemma two_slots: "length xs = 2 \<longleftrightarrow> (\<exists>a b. xs = [a, b])"
  by (auto simp: length_Suc_conv numeral_2_eq_2)

lemma commit_slots_wf:
  assumes "length xs = 2" and "\<forall>x \<in> set xs. slot_wf x"
  shows "length (snd (commit_slots e q t xs)) = 2 \<and> (\<forall>x \<in> set (snd (commit_slots e q t xs)). slot_wf x)"
  using assms
  by (auto simp: two_slots commit_slots_def Let_def case_prod_unfold slot_wf_def new_slot_def window_default_def)

lemma commit_grace_None: "commit_grace e q t g = None \<longleftrightarrow> find (slot_is e) g = None"
  by (induction g) (auto simp: case_prod_unfold)

lemma commit_grace_Some:
  "commit_grace e q t g = Some (ok, g') \<Longrightarrow>
     \<exists>x. find (slot_is e) g = Some x \<and> ok = fst (accept (window x) q)"
  by (induction g arbitrary: g') (auto simp: case_prod_unfold split: if_splits)

lemma commit_grace_wf:
  "commit_grace e q t g = Some (ok, g') \<Longrightarrow> \<forall>x \<in> set g. slot_wf x \<Longrightarrow>
     length g' = length g \<and> (\<forall>x \<in> set g'. slot_wf x)"
  by (induction g arbitrary: g') (auto simp: case_prod_unfold split: if_splits)

lemma find_commit_grace:
  "commit_grace e q t g = Some (ok, g') \<Longrightarrow>
     find (slot_is e') g' = (if e' = e then map_option (\<lambda>x. snd (slot_accept q t x)) (find (slot_is e) g)
                             else find (slot_is e') g)"
  by (induction g arbitrary: g')
    (auto simp: case_prod_unfold split: if_splits, auto simp: slot_is_def)

lemma grace_for_wf:
  "traffic_wf s \<Longrightarrow> d < 2 \<Longrightarrow> \<forall>x \<in> set (grace_for s d). slot_wf x"
  by (auto simp: traffic_wf_def grace_for_def dest: slots_wf_nth)

lemma traffic_wf_commit:
  assumes s: "traffic_wf s" and d: "d < 2"
  shows "traffic_wf (snd (commit_replay e q d t s))"
proof (cases "commit_grace e q t (grace_for s d)")
  case None
  with s d show ?thesis
    using commit_slots_wf [of "rx_slots s ! d" e q t] slots_wf_nth [of "rx_slots s" d]
    by (auto simp: commit_replay_def traffic_wf_def case_prod_unfold intro!: slots_wf_update)
next
  case (Some r)
  obtain ok g' where r: "r = (ok, g')" by fastforce
  have "grace_valid (sync_rx_grace s)" using Some by (auto simp: grace_for_def split: if_splits)
  then have "length (grace_for s d) = 2" using s d by (simp add: grace_for_def traffic_wf_def slots_wf_nth)
  with commit_grace_wf [OF Some [unfolded r] grace_for_wf [OF s d]] s Some r show ?thesis
    by (auto simp: commit_replay_def traffic_wf_def intro!: slots_wf_update)
qed

lemma keeps_wf_encrypt: "keeps traffic_wf (encrypt_payload c t alg d p)"
  unfolding encrypt_payload_def
  by (intro pres keeps_mod) (simp_all add: traffic_wf_def maybe_rotate_epoch_def Let_def)

lemma keeps_wf_decrypt: "d < 2 \<Longrightarrow> keeps traffic_wf (decrypt_payload c t alg d p)"
  unfolding decrypt_payload_def Let_def
  by (intro pres keeps_mod keeps_run traffic_wf_evict traffic_wf_commit)
    (simp_all add: traffic_wf_def)

subsection \<open>Checking and committing agree\<close>

lemma precheck_commit:
  assumes s: "traffic_wf s" and d: "d < 2" and ok: "precheck_replay e q d s"
  shows "fst (commit_replay e q d t s)"
proof (cases "find (slot_is e) (grace_for s d)")
  case (Some x)
  with ok have "can_accept (window x) q" by (simp add: precheck_replay_def)
  moreover obtain ok' g' where "commit_grace e q t (grace_for s d) = Some (ok', g')"
    using Some by (cases "commit_grace e q t (grace_for s d)") (auto simp: commit_grace_None)
  ultimately show ?thesis
    using Some commit_grace_Some [of e q t "grace_for s d" ok' g']
    by (auto simp: commit_replay_def can_accept_accept)
next
  case None
  from s d obtain a b where ab: "rx_slots s ! d = [a, b]"
    using slots_wf_nth by (fastforce simp: traffic_wf_def two_slots)
  from None ok have "precheck_slots (send_epoch s) e q [a, b]"
    by (simp add: precheck_replay_def ab)
  moreover have "can_accept window_default q"
    by (simp add: can_accept_def window_default_def)
  ultimately have "fst (commit_slots e q t [a, b])"
    by (auto simp: precheck_slots_def commit_slots_def Let_def can_accept_accept new_slot_def
        case_prod_unfold split: if_splits)
  with None ab show ?thesis
    by (simp add: commit_replay_def commit_grace_None [THEN iffD2] case_prod_unfold)
qed

lemma accept_then_not_can:
  assumes "length (bitmap w) = 32" and "fst (accept w q)"
  shows "\<not> can_accept (snd (accept w q)) q"
  using assms
  by (auto simp: accept_def can_accept_def Let_def test_bit_set_bit usize_of_u64_def split: if_splits)

lemma commit_then_refused:
  assumes s: "traffic_wf s" and d: "d < 2" and ok: "fst (commit_replay e q d t s)"
  shows "\<not> precheck_replay e q d (snd (commit_replay e q d t s))"
proof (cases "commit_grace e q t (grace_for s d)")
  case (Some r)
  then obtain g' where r: "r = (True, g')" using ok by (cases r) (simp add: commit_replay_def)
  have v: "grace_valid (sync_rx_grace s)" using Some by (auto simp: grace_for_def split: if_splits)
  obtain x where x: "find (slot_is e) (grace_for s d) = Some x" "fst (accept (window x) q)"
    using commit_grace_Some Some r by blast
  have "x \<in> set (grace_for s d)" using x(1) by (auto simp: find_Some_iff)
  then have "length (bitmap (window x)) = 32" using grace_for_wf [OF s d] by (simp add: slot_wf_def)
  moreover have "d < length (grace_slots (sync_rx_grace s))" using s d by (simp add: traffic_wf_def slots_wf_def)
  ultimately show ?thesis
    using Some r v x find_commit_grace [of e q t "grace_for s d" True g' e]
    by (simp add: commit_replay_def precheck_replay_def grace_for_def accept_then_not_can)
next
  case None
  from s d obtain a b where ab: "rx_slots s ! d = [a, b]" and wf: "slot_wf a" "slot_wf b"
    using slots_wf_nth by (fastforce simp: traffic_wf_def two_slots)
  have len: "d < length (rx_slots s)" using s d by (simp add: traffic_wf_def slots_wf_def)
  have "length (bitmap window_default) = 32" by (simp add: window_default_def)
  moreover from None ok ab have "fst (commit_slots e q t [a, b])"
    by (simp add: commit_replay_def case_prod_unfold)
  ultimately have "\<not> precheck_slots se e q (snd (commit_slots e q t [a, b]))" for se
    using wf
    by (auto simp: precheck_slots_def commit_slots_def Let_def new_slot_def slot_wf_def slot_is_def
        case_prod_unfold accept_then_not_can split: if_splits)
  moreover have "commit_replay e q d t s = (fst (commit_slots e q t [a, b]),
      s\<lparr>rx_slots := (rx_slots s)[d := snd (commit_slots e q t [a, b])]\<rparr>)"
    using None ab by (simp add: commit_replay_def case_prod_unfold)
  moreover have "grace_for (s\<lparr>rx_slots := z\<rparr>) d = grace_for s d" for z
    by (simp add: grace_for_def)
  ultimately show ?thesis
    using None len by (simp add: precheck_replay_def commit_grace_None)
qed


subsection \<open>A receive history without eviction\<close>

text \<open>The numbers of a history that belong to an epoch.\<close>

definition hist :: "(u32 \<times> nat) set \<Rightarrow> u32 \<Rightarrow> nat set" where
  "hist H e = {n. (e, n) \<in> H}"

lemma hist_insert: "hist (insert (e, n) H) e' = (if e' = e then insert n (hist H e) else hist H e')"
  by (auto simp: hist_def)

lemma hist_empty [simp]: "hist {} e = {}"
  by (simp add: hist_def)

definition slots_repr :: "rx_slot list \<Rightarrow> (u32 \<Rightarrow> bool) \<Rightarrow> (u32 \<times> nat) set \<Rightarrow> bool" where
  "slots_repr xs own H \<longleftrightarrow>
     (if slot_valid (xs ! 0)
      then (slot_valid (xs ! 1) \<longrightarrow> slot_epoch (xs ! 1) \<le> slot_epoch (xs ! 0)) \<and>
           (\<forall>e. own e \<longrightarrow>
             (hist H e \<noteq> {} \<longrightarrow> e \<le> slot_epoch (xs ! 0)) \<and>
             (e = slot_epoch (xs ! 0) \<longrightarrow> window_repr (window (xs ! 0)) (hist H e)) \<and>
             (e \<noteq> slot_epoch (xs ! 0) \<and> slot_is e (xs ! 1) \<longrightarrow> window_repr (window (xs ! 1)) (hist H e)))
      else \<not> slot_valid (xs ! 1) \<and> (\<forall>e. own e \<longrightarrow> hist H e = {}))"

lemma slots_repr_cong:
  "slots_repr xs own H \<Longrightarrow> (\<And>e. own' e \<Longrightarrow> own e) \<Longrightarrow>
     (\<And>e. own' e \<Longrightarrow> hist H' e = hist H e) \<Longrightarrow> slots_repr xs own' H'"
  by (auto simp: slots_repr_def; blast)

definition dir_repr :: "'a traffic_scheme \<Rightarrow> nat \<Rightarrow> (u32 \<times> nat) set \<Rightarrow> bool" where
  "dir_repr s d H \<longleftrightarrow>
     (\<forall>e x. find (slot_is e) (grace_for s d) = Some x \<longrightarrow> window_repr (window x) (hist H e)) \<and>
     slots_repr (rx_slots s ! d) (\<lambda>e. find (slot_is e) (grace_for s d) = None) H"

definition small_hist :: "(u32 \<times> nat) set \<Rightarrow> bool" where
  "small_hist H \<longleftrightarrow> (\<forall>(e, n) \<in> H. n < 2 ^ 32)"

lemma small_hist_near:
  "small_hist H \<Longrightarrow> unat q < 2 ^ 32 \<Longrightarrow> near_window (hist H e) q"
  by (fastforce simp: small_hist_def hist_def near_window_def)

lemma commit_slots_repr:
  assumes len: "length xs = 2" and r: "slots_repr xs own H" and own: "own e"
    and near: "near_window (hist H e) q"
  shows "(fst (commit_slots e q t xs) \<longrightarrow> unat q \<notin> hist H e) \<and>
    slots_repr (snd (commit_slots e q t xs)) own
      (if fst (commit_slots e q t xs) then insert (e, unat q) H else H)"
proof -
  obtain a b where ab: "xs = [a, b]" using len by (auto simp: two_slots)
  have acc: "window_repr w (hist H e) \<Longrightarrow> (fst (accept w q) \<longrightarrow> unat q \<notin> hist H e) \<and>
      window_repr (snd (accept w q)) (if fst (accept w q) then insert (unat q) (hist H e) else hist H e)" for w
    using accept_repr [OF _ near, of w] by metis
  have new: "fst (accept window_default q) \<and> window_repr (snd (accept window_default q)) {unat q}"
    using accept_repr [OF window_repr_default, of q] accept_default [of q] by (simp add: near_window_def)
  consider (none) "\<not> slot_valid a" | (first) "slot_valid a" "slot_epoch a = e"
    | (second) "slot_valid a" "slot_epoch a \<noteq> e" "slot_is e b"
    | (newer) "slot_valid a" "slot_epoch a < e" "\<not> slot_is e b"
    | (older) "slot_valid a" "e < slot_epoch a" "\<not> slot_is e b"
    by (metis linorder_less_linear)
  then show ?thesis
  proof cases
    case none
    with r own new show ?thesis
      by (auto simp: ab slots_repr_def commit_slots_def Let_def new_slot_def slot_accept_def
          case_prod_unfold hist_insert slot_is_def)
  next
    case first
    with r own acc [of "window a"] show ?thesis
      by (auto simp: ab slots_repr_def commit_slots_def Let_def slot_accept_def case_prod_unfold
          hist_insert slot_is_def)
  next
    case second
    with r own acc [of "window b"] show ?thesis
      by (auto simp: ab slots_repr_def commit_slots_def Let_def slot_accept_def case_prod_unfold
          hist_insert slot_is_def)
  next
    case newer
    have "hist H e = {}" using newer r own by (auto simp: ab slots_repr_def)
    with newer r own new show ?thesis
      by (auto simp: ab slots_repr_def commit_slots_def Let_def new_slot_def case_prod_unfold
          hist_insert slot_is_def)
  next
    case older
    with r own show ?thesis
      by (auto simp: ab slots_repr_def commit_slots_def Let_def)
  qed
qed


lemma commit_replay_repr:
  assumes s: "traffic_wf s" and d: "d < 2" and r: "dir_repr s d H"
    and near: "near_window (hist H e) q"
  shows "(fst (commit_replay e q d t s) \<longrightarrow> unat q \<notin> hist H e) \<and>
    dir_repr (snd (commit_replay e q d t s)) d
      (if fst (commit_replay e q d t s) then insert (e, unat q) H else H)"
proof (cases "commit_grace e q t (grace_for s d)")
  case None
  have len: "d < length (rx_slots s)" "length (rx_slots s ! d) = 2"
    using s d slots_wf_nth by (auto simp: traffic_wf_def slots_wf_def)
  have own: "find (slot_is e) (grace_for s d) = None" using None by (simp add: commit_grace_None)
  let ?cs = "commit_slots e q t (rx_slots s ! d)"
  have eq: "commit_replay e q d t s = (fst ?cs, s\<lparr>rx_slots := (rx_slots s)[d := snd ?cs]\<rparr>)"
    using None by (simp add: commit_replay_def case_prod_unfold)
  have g: "grace_for (s\<lparr>rx_slots := z\<rparr>) d = grace_for s d" for z by (simp add: grace_for_def)
  from r have "slots_repr (rx_slots s ! d) (\<lambda>e. find (slot_is e) (grace_for s d) = None) H"
    by (simp add: dir_repr_def)
  from commit_slots_repr [OF len(2) this own near] r own len show ?thesis
    by (auto simp: eq dir_repr_def g hist_insert split: if_splits)
next
  case (Some p)
  obtain ok g' where p: "p = (ok, g')" by fastforce
  note cg = Some [unfolded p]
  obtain x where x: "find (slot_is e) (grace_for s d) = Some x" and ok: "ok = fst (accept (window x) q)"
    using commit_grace_Some [OF cg] by blast
  have v: "grace_valid (sync_rx_grace s)" using cg by (auto simp: grace_for_def split: if_splits)
  have len: "d < length (grace_slots (sync_rx_grace s))" using s d by (simp add: traffic_wf_def slots_wf_def)
  let ?s = "s\<lparr>sync_rx_grace := (sync_rx_grace s)\<lparr>grace_slots := (grace_slots (sync_rx_grace s))[d := g']\<rparr>\<rparr>"
  have eq: "commit_replay e q d t s = (ok, ?s)" using cg by (simp add: commit_replay_def)
  have g: "grace_for ?s d = g'" using v len by (simp add: grace_for_def)
  from r x have "window_repr (window x) (hist H e)" by (simp add: dir_repr_def)
  note acc = accept_repr [OF this near]
  have f: "find (slot_is e') g' = (if e' = e then Some (snd (slot_accept q t x))
      else find (slot_is e') (grace_for s d))" for e'
    using find_commit_grace [OF cg, of e'] x by simp
  have "slots_repr (rx_slots s ! d) (\<lambda>e. find (slot_is e) g' = None) H'"
    if "H' = H \<or> H' = insert (e, unat q) H" for H'
    by (rule slots_repr_cong [of _ "\<lambda>e. find (slot_is e) (grace_for s d) = None" H])
      (use r that x in \<open>auto simp: dir_repr_def f hist_insert split: if_splits\<close>)
  with acc r show ?thesis
    unfolding eq fst_conv snd_conv dir_repr_def g
    by (auto simp: f ok hist_insert split: if_splits)
qed

text \<open>Packets of one direction, each checked and then committed.\<close>

definition receive :: "nat \<Rightarrow> u32 \<times> u64 \<times> u64 \<Rightarrow> 'a traffic_scheme \<Rightarrow> bool \<times> 'a traffic_scheme" where
  "receive d p s =
     (case p of (e, q, t) \<Rightarrow>
        if precheck_replay e q d s then commit_replay e q d t s else (False, s))"

fun receive_all :: "nat \<Rightarrow> (u32 \<times> u64 \<times> u64) list \<Rightarrow> 'a traffic_scheme \<Rightarrow> (u32 \<times> u64) list" where
  "receive_all d [] s = []"
| "receive_all d (p # ps) s =
     (case receive d p s of (ok, s') \<Rightarrow>
        (if ok then [(fst p, fst (snd p))] else []) @ receive_all d ps s')"

lemma receive_all_from:
  assumes "traffic_wf s" and "d < 2" and "dir_repr s d H" and "small_hist H"
    and "\<forall>(e, q, t) \<in> set ps. unat q < 2 ^ 32"
  shows "distinct (receive_all d ps s) \<and> (\<forall>(e, q) \<in> set (receive_all d ps s). (e, unat q) \<notin> H)"
  using assms
proof (induction ps arbitrary: s H)
  case Nil
  then show ?case by simp
next
  case (Cons p ps)
  obtain e q t where p: "p = (e, q, t)" by (cases p)
  from Cons.prems have q: "unat q < 2 ^ 32" by (simp add: p)
  show ?case
  proof (cases "precheck_replay e q d s")
    case False
    with Cons show ?thesis by (simp add: p receive_def)
  next
    case True
    let ?s = "snd (commit_replay e q d t s)" and ?H = "insert (e, unat q) H"
    have ok: "fst (commit_replay e q d t s)"
      using precheck_commit Cons.prems True by blast
    have r: "unat q \<notin> hist H e" "dir_repr ?s d ?H"
      using commit_replay_repr [OF Cons.prems(1-3) small_hist_near [OF Cons.prems(4) q], of e t] ok
      by auto
    have "small_hist ?H" using Cons.prems(4) q by (simp add: small_hist_def)
    from Cons.IH [OF traffic_wf_commit [OF Cons.prems(1,2)] Cons.prems(2) r(2) this] Cons.prems(5)
    have "distinct (receive_all d ps ?s) \<and> (\<forall>(e, q) \<in> set (receive_all d ps ?s). (e, unat q) \<notin> ?H)"
      by simp
    with ok r(1) True show ?thesis
      by (auto simp: p receive_def case_prod_unfold hist_def)
  qed
qed

subsection \<open>Eviction\<close>

text \<open>Nothing is left to evict at time \<open>t\<close>.\<close>

definition settled :: "u64 \<Rightarrow> 'a traffic_scheme \<Rightarrow> bool" where
  "settled t s \<longleftrightarrow>
     (\<forall>xs \<in> set (rx_slots s). \<forall>x \<in> set xs. evict_slot t x = x) \<and>
     (grace_valid (sync_rx_grace s) \<longrightarrow>
        \<not> expires_at_ms (sync_rx_grace s) \<le> t \<and>
        (\<forall>xs \<in> set (grace_slots (sync_rx_grace s)). \<forall>x \<in> set xs. evict_slot t x = x))"

lemma evict_slot_idem [simp]: "evict_slot t (evict_slot t x) = evict_slot t x"
  by (simp add: evict_slot_def slot_clear_def)

lemma evict_slots_fixed: "(\<forall>xs \<in> set ss. \<forall>x \<in> set xs. evict_slot t x = x) \<Longrightarrow> evict_slots t ss = ss"
  by (simp add: evict_slots_def map_idI)

lemma settled_evict: "settled t (evict_old_rx_slots t s)"
  by (auto simp: settled_def evict_old_rx_slots_def Let_def evict_slots_def grace_default_def)

lemma evict_settled: "settled t s \<Longrightarrow> evict_old_rx_slots t s = s"
  by (auto simp: settled_def evict_old_rx_slots_def Let_def evict_slots_fixed)

lemma evict_slot_now [simp]: "last_rx_ms x = t \<Longrightarrow> evict_slot t x = x"
  by (simp add: evict_slot_def)

lemma commit_slots_settled:
  assumes "length xs = 2" and "\<forall>x \<in> set xs. evict_slot t x = x"
  shows "\<forall>x \<in> set (snd (commit_slots e q t xs)). evict_slot t x = x"
  using assms
  by (auto simp: two_slots commit_slots_def Let_def case_prod_unfold new_slot_def)

lemma commit_grace_settled:
  "commit_grace e q t g = Some (ok, g') \<Longrightarrow> \<forall>x \<in> set g. evict_slot t x = x \<Longrightarrow>
     \<forall>x \<in> set g'. evict_slot t x = x"
  by (induction g arbitrary: g') (auto simp: case_prod_unfold split: if_splits)

lemma settled_commit:
  assumes s: "traffic_wf s" and d: "d < 2" and t: "settled t s"
  shows "settled t (snd (commit_replay e q d t s))"
proof (cases "commit_grace e q t (grace_for s d)")
  case None
  have len: "d < length (rx_slots s)" "length (rx_slots s ! d) = 2"
    using s d slots_wf_nth by (auto simp: traffic_wf_def slots_wf_def)
  with t have "\<forall>x \<in> set (rx_slots s ! d). evict_slot t x = x"
    by (meson nth_mem settled_def)
  from commit_slots_settled [OF len(2) this, of e q] None t show ?thesis
    by (auto simp: commit_replay_def settled_def case_prod_unfold dest!: set_update_subset_insert [THEN subsetD])
next
  case (Some p)
  obtain ok g' where p: "p = (ok, g')" by fastforce
  have v: "grace_valid (sync_rx_grace s)" using Some by (auto simp: grace_for_def split: if_splits)
  have "d < length (grace_slots (sync_rx_grace s))" using s d by (simp add: traffic_wf_def slots_wf_def)
  with t v have "\<forall>x \<in> set (grace_for s d). evict_slot t x = x"
    by (simp add: grace_for_def) (meson nth_mem settled_def)
  from commit_grace_settled [OF Some [unfolded p] this] Some p t show ?thesis
    by (auto simp: commit_replay_def settled_def dest!: set_update_subset_insert [THEN subsetD])
qed

lemma settled_fail_count [simp]: "settled t (s\<lparr>decrypt_fail_count := n\<rparr>) = settled t s"
  by (simp add: settled_def)

lemma traffic_wf_fail_count [simp]: "traffic_wf (s\<lparr>decrypt_fail_count := n\<rparr>) = traffic_wf s"
  by (simp add: traffic_wf_def)

lemma precheck_fail_count [simp]:
  "precheck_replay e q d (s\<lparr>decrypt_fail_count := n\<rparr>) = precheck_replay e q d s"
  by (simp add: precheck_replay_def grace_for_def split: option.splits)

lemma root_key_simps [simp]:
  "root_key (maybe_rotate_epoch t s) = root_key s"
  "root_key (evict_old_rx_slots t s) = root_key s"
  "root_key (snd (commit_replay e q d t s)) = root_key s"
  by (simp_all add: maybe_rotate_epoch_def evict_old_rx_slots_def commit_replay_def Let_def
      case_prod_unfold split: option.splits)

lemma traffic_key_root: "root_key s = root_key s' \<Longrightarrow> traffic_key c s = traffic_key c s'"
  by (simp add: traffic_key_def fun_eq_iff)

lemma traffic_key_simps [simp]:
  "traffic_key c (s\<lparr>decrypt_fail_count := n\<rparr>) = traffic_key c s"
  "traffic_key c (evict_old_rx_slots t s) = traffic_key c s"
  by (rule traffic_key_root, simp)+

subsection \<open>What one encryption and one decryption do\<close>

definition aead_law :: "crypto \<Rightarrow> bool" where
  "aead_law c \<longleftrightarrow> (\<forall>ciph k n p ct tag. aead_encrypt c ciph k n p = Some (ct, tag) \<longrightarrow>
     length tag = AEAD_TAG_SIZE \<and> aead_decrypt c ciph k n ct tag = Some p)"

lemma seal_open:
  assumes "aead_law c" and "seal c alg key n p = Inr (ct, tag)"
  shows "length tag = AEAD_TAG_SIZE \<and> open_sealed c alg key n ct tag = Inr p"
  using assms
  by (cases "cipher_for alg key") (auto simp: seal_def open_sealed_def aead_law_def split: prod.splits)

lemma send_seq_rotate [simp]: "send_seq (maybe_rotate_epoch t s) = send_seq s"
  by (simp add: maybe_rotate_epoch_def Let_def)

lemma encrypt_payload_Inr:
  assumes "encrypt_payload c t alg d p s = (Inr out, s')"
  obtains key ct tag where
    "traffic_key c s (send_epoch s') d = Inr key"
    "seal c alg key (nonce_bytes (send_epoch s') (send_seq s ! d)) p = Inr (ct, tag)"
    "out = ct @ tag @ nonce_bytes (send_epoch s') (send_seq s ! d)"
    "checked_add (send_seq s ! d) 1 = Some (send_seq s ! d + 1)"
    "send_seq s' = (send_seq s)[d := send_seq s ! d + 1]"
proof -
  let ?s1 = "maybe_rotate_epoch t s" and ?q = "send_seq s ! d"
  let ?s2 = "?s1\<lparr>send_seq := (send_seq s)[d := ?q + 1]\<rparr>"
  have k: "traffic_key c ?s2 = traffic_key c s" by (rule traffic_key_root) simp
  from assms have q: "checked_add ?q 1 = Some (?q + 1)"
    by (auto simp: encrypt_payload_def op_defs checked_add_def split: if_splits)
  from assms q k have "case traffic_key c s (send_epoch ?s1) d of Inl _ \<Rightarrow> False | Inr key \<Rightarrow>
      (case seal c alg key (nonce_bytes (send_epoch ?s1) ?q) p of Inl _ \<Rightarrow> False | Inr (ct, tag) \<Rightarrow>
        out = ct @ tag @ nonce_bytes (send_epoch ?s1) ?q \<and> s' = ?s2)"
    by (auto simp: encrypt_payload_def op_defs split: sum.splits prod.splits)
  then show ?thesis using q that by (auto split: sum.splits)
qed

definition nonce_of :: "bytes \<Rightarrow> bytes" where
  "nonce_of out = drop (length out - AEAD_NONCE_SIZE) out"

lemma length_nonce_bytes [simp]: "length (nonce_bytes e q) = 12"
  by (simp add: nonce_bytes_def)

lemma nonce_bytes_fields [simp]:
  "u32_from_be (take 4 (nonce_bytes e q)) = e" "u64_from_be (drop 4 (nonce_bytes e q)) = q"
  by (simp_all add: nonce_bytes_def)

lemma nonce_bytes_inj: "nonce_bytes e q = nonce_bytes e' q' \<longleftrightarrow> e = e' \<and> q = q'"
  by (metis nonce_bytes_fields)

lemma nonce_of_append [simp]: "nonce_of (ct @ tag @ nonce_bytes e q) = nonce_bytes e q"
  by (simp add: nonce_of_def AEAD_NONCE_SIZE_def)

text \<open>A payload laid out as ciphertext, tag and nonce is taken apart again.\<close>

lemma decrypt_payload_layout:
  assumes "length tag = AEAD_TAG_SIZE"
  shows "decrypt_payload c t alg d (ct @ tag @ nonce_bytes e q) s =
    (let s = evict_old_rx_slots t s
     in if \<not> precheck_replay e q d s then (Inr None, s)
        else case traffic_key c s e d of
          Inl err \<Rightarrow> (Inl err, s)
        | Inr key \<Rightarrow>
           (case open_sealed c alg key (nonce_bytes e q) ct tag of
              Inl err \<Rightarrow>
                (let n = sat_add (decrypt_fail_count s) 1
                 in (if DECRYPT_FAIL_THRESHOLD \<le> n then Inl err else Inr None,
                     s\<lparr>decrypt_fail_count := n\<rparr>))
            | Inr p \<Rightarrow>
                (case commit_replay e q d t (s\<lparr>decrypt_fail_count := 0\<rparr>) of
                   (ok, s) \<Rightarrow> (Inr (if ok then Some p else None), s))))"
  using assms
  by (auto simp: decrypt_payload_def Let_def op_defs AEAD_TAIL_def AEAD_TAG_SIZE_def
      split: sum.splits prod.splits)

subsection \<open>Properties\<close>

lemma dir_repr_initial:
  assumes "rx_slots s = slots_default" and "\<not> grace_valid (sync_rx_grace s)" and "d < 2"
  shows "dir_repr s d {}"
proof -
  have "rx_slots s ! d = [slot_default, slot_default]"
    using assms(1,3) by (auto simp: slots_default_def less_2_cases_iff)
  with assms(2) show ?thesis
    by (simp add: dir_repr_def grace_for_def slots_repr_def slot_default_def)
qed

text \<open>C6: Of sequence numbers below \<open>2 ^ 32\<close> each is let through at most once: starting from a fresh receive
  state, and as long as no slot is evicted and no \<open>Sync\<close> resets the state, a packet of a given epoch and
  sequence number passes at most once per direction, whatever packets arrive and in whatever order of
  epochs.  The bound is needed because the window truncates distances to 32 bits.\<close>

theorem receive_at_most_once:
  assumes "traffic_wf s" and "rx_slots s = slots_default" and "\<not> grace_valid (sync_rx_grace s)"
    and "d < 2" and "\<forall>(e, q, t) \<in> set ps. unat q < 2 ^ 32"
  shows "distinct (receive_all d ps s)"
  using receive_all_from [OF assms(1,4) dir_repr_initial [OF assms(2-4)] _ assms(5)]
  by (simp add: small_hist_def)

definition fresh_traffic :: traffic where
  "fresh_traffic =
     \<lparr>root_key = Some (replicate 32 0), send_epoch = 0, send_seq = [0, 0], send_epoch_started_ms = 0,
      send_packets_since_epoch = 0, rx_slots = slots_default, sync_rx_grace = grace_default,
      decrypt_fail_count = 0\<rparr>"

lemma fresh_traffic_wf: "traffic_wf fresh_traffic"
  by (simp add: traffic_wf_def fresh_traffic_def grace_default_def)

theorem receive_at_most_once_witness:
  "distinct (receive_all 0 [(0, 4, 10), (1, 2, 11), (0, 4, 12), (0, 5, 13), (1, 2, 14)] fresh_traffic)"
  by (rule receive_at_most_once [OF fresh_traffic_wf])
    (simp_all add: fresh_traffic_def grace_default_def)

text \<open>C20: A peer state with the same root key, whose replay check passes for the epoch and sequence number
  used, decrypts what \<open>encrypt_payload\<close> produced to the plaintext.  From then on the same payload is
  dropped: at the same time and at any later time at which no receive slot and no grace period has
  expired.  The AEAD crate is assumed to decrypt what it encrypted and to produce 16-byte tags.\<close>

theorem encrypt_then_decrypt_once:
  assumes "aead_law c" and "encrypt_payload c t1 alg d p s = (Inr out, s')"
    and "root_key r = root_key s" and "traffic_wf r" and "d < 2"
    and "precheck_replay (send_epoch s') (send_seq s ! d) d (evict_old_rx_slots t2 r)"
  shows "\<exists>r'. decrypt_payload c t2 alg d out r = (Inr (Some p), r')
    \<and> fst (decrypt_payload c t2 alg d out r') = Inr None
    \<and> (\<forall>t3. evict_old_rx_slots t3 r' = r' \<longrightarrow> fst (decrypt_payload c t3 alg d out r') = Inr None)"
proof -
  let ?e = "send_epoch s'" and ?q = "send_seq s ! d" and ?r = "evict_old_rx_slots t2 r"
  from encrypt_payload_Inr [OF assms(2)] obtain key ct tag where
    key: "traffic_key c s ?e d = Inr key" and seal: "seal c alg key (nonce_bytes ?e ?q) p = Inr (ct, tag)"
    and out: "out = ct @ tag @ nonce_bytes ?e ?q" by blast
  note so = seal_open [OF assms(1) seal]
  note dec = decrypt_payload_layout [OF so [THEN conjunct1]]
  let ?r0 = "?r\<lparr>decrypt_fail_count := 0\<rparr>"
  let ?r1 = "snd (commit_replay ?e ?q d t2 ?r0)"
  have wf: "traffic_wf ?r0" using assms(4) by (simp add: traffic_wf_evict)
  have ok: "fst (commit_replay ?e ?q d t2 ?r0)"
    using precheck_commit [OF wf assms(5)] assms(6) by simp
  have "traffic_key c r = traffic_key c s"
    by (rule traffic_key_root) (simp add: assms(3))
  with key so assms(6) ok have first: "decrypt_payload c t2 alg d out r = (Inr (Some p), ?r1)"
    by (simp add: out dec Let_def case_prod_unfold)
  have "evict_old_rx_slots t2 ?r1 = ?r1"
    by (rule evict_settled, rule settled_commit [OF wf assms(5)]) (simp add: settled_evict)
  moreover have "\<not> precheck_replay ?e ?q d ?r1" by (rule commit_then_refused [OF wf assms(5) ok])
  ultimately have "fst (decrypt_payload c t2 alg d out ?r1) = Inr None"
    "\<forall>t3. evict_old_rx_slots t3 ?r1 = ?r1 \<longrightarrow> fst (decrypt_payload c t3 alg d out ?r1) = Inr None"
    by (simp_all add: out dec Let_def)
  with first show ?thesis by blast
qed

text \<open>A toy instance of the crates, for the witnesses: the "cipher" is the identity and the tag
  is sixteen zero bytes.\<close>

definition toy_crypto :: crypto where
  "toy_crypto =
     \<lparr>hmac_sha256 = (\<lambda>k m. k @ m),
      aead_encrypt = (\<lambda>_ k n p. Some (p, replicate 16 0)),
      aead_decrypt = (\<lambda>_ k n ct tag. if tag = replicate 16 0 then Some ct else None)\<rparr>"

lemma toy_aead_law: "aead_law toy_crypto"
  by (simp add: aead_law_def toy_crypto_def AEAD_TAG_SIZE_def)

theorem encrypt_then_decrypt_once_witness:
  "\<exists>out s' r'. encrypt_payload toy_crypto 5 ''aes-gcm'' 0 [1, 2] fresh_traffic = (Inr out, s') \<and>
     decrypt_payload toy_crypto 9 ''aes-gcm'' 0 out fresh_traffic = (Inr (Some [1, 2]), r') \<and>
     fst (decrypt_payload toy_crypto 30009 ''aes-gcm'' 0 out r') = Inr None"
proof -
  obtain out s' where e: "encrypt_payload toy_crypto 5 ''aes-gcm'' 0 [1, 2] fresh_traffic = (Inr out, s')"
    by (simp add: encrypt_payload_def op_defs fresh_traffic_def maybe_rotate_epoch_def Let_def
        ROTATE_AFTER_PACKETS_def ROTATE_AFTER_MS_def sat_add_def sat_sub_def checked_add_def
        traffic_key_def seal_def cipher_for_def normalized_algorithm_def eq_ignore_ascii_case_def toy_crypto_def)
  have "fst (encrypt_payload toy_crypto 5 ''aes-gcm'' 0 [1, 2] fresh_traffic) =
      Inr ([1, 2] @ replicate 16 0 @ nonce_bytes 0 0)" by code_simp
  then have out: "out = [1, 2] @ replicate 16 0 @ nonce_bytes 0 0" by (simp add: e)
  have "precheck_replay (send_epoch s') (send_seq fresh_traffic ! 0) 0 (evict_old_rx_slots 9 fresh_traffic)"
    by (simp add: precheck_replay_def precheck_slots_def fresh_traffic_def evict_old_rx_slots_def
        evict_slots_def evict_slot_def slots_default_def slot_default_def grace_default_def grace_for_def Let_def)
  from encrypt_then_decrypt_once [OF toy_aead_law e refl fresh_traffic_wf _ this]
  obtain r' where r: "decrypt_payload toy_crypto 9 ''aes-gcm'' 0 out fresh_traffic = (Inr (Some [1, 2]), r')"
    "evict_old_rx_slots 30009 r' = r' \<Longrightarrow> fst (decrypt_payload toy_crypto 30009 ''aes-gcm'' 0 out r') = Inr None"
    by auto
  have "evict_old_rx_slots 30009 (snd (decrypt_payload toy_crypto 9 ''aes-gcm'' 0 out fresh_traffic)) =
      snd (decrypt_payload toy_crypto 9 ''aes-gcm'' 0 out fresh_traffic)"
    unfolding out by code_simp
  with r e show ?thesis by auto
qed

text \<open>C7: One side never uses the same AEAD nonce twice in a direction: along any sequence of
  \<open>encrypt_payload\<close> calls, whatever their times, epochs rotations and failures in between, the 12-byte
  nonces at the end of the payloads it produced are pairwise different.\<close>

fun encrypt_all :: "crypto \<Rightarrow> string \<Rightarrow> nat \<Rightarrow> (u64 \<times> bytes) list \<Rightarrow> 'a traffic_scheme \<Rightarrow> bytes list" where
  "encrypt_all c alg d [] s = []"
| "encrypt_all c alg d ((t, p) # ps) s =
     (case encrypt_payload c t alg d p s of
        (Inl e, s') \<Rightarrow> encrypt_all c alg d ps s'
      | (Inr out, s') \<Rightarrow> out # encrypt_all c alg d ps s')"


lemma encrypt_payload_state:
  "snd (encrypt_payload c t alg d p s) =
    (case checked_add (send_seq s ! d) 1 of
       None \<Rightarrow> maybe_rotate_epoch t s
     | Some q \<Rightarrow> (maybe_rotate_epoch t s)\<lparr>send_seq := (send_seq s)[d := q]\<rparr>)"
  by (cases "checked_add (send_seq s ! d) 1")
    (simp_all add: encrypt_payload_def op_defs split: sum.splits prod.splits)

lemma encrypt_payload_seq:
  assumes "length (send_seq s) = 2" and "d < 2"
  shows "length (send_seq (snd (encrypt_payload c t alg d p s))) = 2 \<and>
    send_seq s ! d \<le> send_seq (snd (encrypt_payload c t alg d p s)) ! d"
  using assms checked_add_Some [of "send_seq s ! d" 1]
  by (auto simp: encrypt_payload_state word_le_nat_alt split: option.splits)

lemma encrypt_all_from:
  assumes "length (send_seq s) = 2" and "d < 2"
  shows "distinct (map nonce_of (encrypt_all c alg d ps s)) \<and>
    (\<forall>out \<in> set (encrypt_all c alg d ps s). \<exists>e q. nonce_of out = nonce_bytes e q \<and> send_seq s ! d \<le> q)"
  using assms
proof (induction ps arbitrary: s)
  case Nil
  then show ?case by simp
next
  case (Cons tp ps)
  obtain t p where tp: "tp = (t, p)" by fastforce
  obtain r s' where r: "encrypt_payload c t alg d p s = (r, s')" by fastforce
  have s': "length (send_seq s') = 2" "send_seq s ! d \<le> send_seq s' ! d"
    using encrypt_payload_seq [OF Cons.prems, of c t alg p] by (simp_all add: r)
  note ih = Cons.IH [OF s'(1) Cons.prems(2)]
  show ?case
  proof (cases r)
    case (Inl e)
    with ih s'(2) show ?thesis by (fastforce simp: tp r)
  next
    case (Inr out)
    from encrypt_payload_Inr [OF r [unfolded Inr]]
    have n: "nonce_of out = nonce_bytes (send_epoch s') (send_seq s ! d)"
      and q: "checked_add (send_seq s ! d) 1 = Some (send_seq s ! d + 1)"
      and q': "send_seq s' = (send_seq s)[d := send_seq s ! d + 1]"
      by (metis nonce_of_append)+
    have "send_seq s ! d < send_seq s' ! d"
      using checked_add_Some [OF q] q' Cons.prems by (simp add: word_less_nat_alt)
    with ih n show ?thesis
      by (fastforce simp: tp r Inr nonce_bytes_inj)
  qed
qed

theorem nonces_never_repeat:
  assumes "length (send_seq s) = 2" and "d < 2"
  shows "distinct (map nonce_of (encrypt_all c alg d ps s))"
  using encrypt_all_from [OF assms] by blast

theorem nonces_never_repeat_witness:
  "distinct (map nonce_of (encrypt_all toy_crypto ''aes-gcm'' 1 [(5, [1]), (600000, [1]), (600001, [])] fresh_traffic))"
  by (rule nonces_never_repeat) (simp_all add: fresh_traffic_def)

text \<open>C21: A payload that fails authentication, under the key of its epoch and with its nonce, leaves the
  receive state as the eviction at the start of every call leaves it: whatever epoch and sequence number
  it carries, it marks nothing as received and takes no slot.  Only the failure counter grows; the call
  reports the error from ten failures in a row on and drops the packet silently before that.\<close>

theorem forged_payload_harmless:
  assumes "length tag = AEAD_TAG_SIZE" and "traffic_key c s e d = Inr key"
    and "open_sealed c alg key (nonce_bytes e q) ct tag = Inl err"
  shows "decrypt_payload c t alg d (ct @ tag @ nonce_bytes e q) s =
    (let s' = evict_old_rx_slots t s; n = sat_add (decrypt_fail_count s) 1
     in if precheck_replay e q d s'
        then (if 10 \<le> n then Inl err else Inr None, s'\<lparr>decrypt_fail_count := n\<rparr>)
        else (Inr None, s'))"
proof -
  have "decrypt_fail_count (evict_old_rx_slots t s) = decrypt_fail_count s"
    by (simp add: evict_old_rx_slots_def Let_def)
  with assms(2,3) show ?thesis
    by (simp add: decrypt_payload_layout [OF assms(1)] Let_def DECRYPT_FAIL_THRESHOLD_def)
qed

theorem forged_payload_harmless_witness:
  "fst (decrypt_payload toy_crypto 9 ''aes-gcm'' 0 ([1, 2] @ replicate 16 7 @ nonce_bytes 0 5)
     fresh_traffic) = Inr None \<and>
   decrypt_fail_count (snd (decrypt_payload toy_crypto 9 ''aes-gcm'' 0
     ([1, 2] @ replicate 16 7 @ nonce_bytes 0 5) fresh_traffic)) = 1"
proof -
  have l: "length (replicate 16 (7 :: u8)) = AEAD_TAG_SIZE" by (simp add: AEAD_TAG_SIZE_def)
  obtain key where k: "traffic_key toy_crypto fresh_traffic 0 0 = Inr key"
    by (simp add: traffic_key_def fresh_traffic_def Let_def)
  obtain err where f: "open_sealed toy_crypto ''aes-gcm'' key (nonce_bytes 0 5) [1, 2] (replicate 16 7) = Inl err"
    by (cases "cipher_for ''aes-gcm'' key") (auto simp: open_sealed_def toy_crypto_def split: prod.splits)
  have p: "precheck_replay 0 5 0 (evict_old_rx_slots 9 fresh_traffic)"
    by (simp add: precheck_replay_def precheck_slots_def fresh_traffic_def evict_old_rx_slots_def
        evict_slots_def evict_slot_def slots_default_def slot_default_def grace_default_def grace_for_def Let_def)
  have "sat_add (decrypt_fail_count fresh_traffic) 1 = 1"
    by (simp add: fresh_traffic_def sat_add_def)
  with forged_payload_harmless [OF l k f, of 9] p show ?thesis
    by (auto simp: Let_def word_le_nat_alt)
qed

text \<open>C22: Replay protection ends with 30 seconds of silence: once every slot of a direction has been
  idle for longer than that (and the grace period of a past \<open>Sync\<close> is over), the check passes for every
  epoch and every sequence number, also for those that were accepted before.\<close>

theorem idle_direction_accepts_anything:
  assumes "slots_wf (rx_slots s)" and "d < 2"
    and "\<forall>x \<in> set (rx_slots s ! d). slot_valid x \<longrightarrow>
           last_rx_ms x \<noteq> 0 \<and> unat (last_rx_ms x) + 30000 < unat t"
    and "grace_valid (sync_rx_grace s) \<longrightarrow> expires_at_ms (sync_rx_grace s) \<le> t"
  shows "precheck_replay e q d (evict_old_rx_slots t s)"
proof -
  obtain a b where ab: "rx_slots s ! d = [a, b]" and len: "d < length (rx_slots s)"
    using slots_wf_nth [OF assms(1,2)] assms(1,2) by (auto simp: two_slots slots_wf_def)
  have "unat RX_EPOCH_IDLE_MS = 30000" by (simp add: RX_EPOCH_IDLE_MS_def)
  with assms(3) ab have "\<not> slot_valid (evict_slot t a)"
    by (auto simp: evict_slot_def slot_clear_def word_less_nat_alt)
  with assms(4) ab len show ?thesis
    by (auto simp: precheck_replay_def precheck_slots_def evict_old_rx_slots_def evict_slots_def
        grace_for_def grace_default_def Let_def)
qed

theorem idle_direction_accepts_anything_witness:
  "\<exists>s. fst (commit_replay 0 5 0 1000 fresh_traffic) \<and> s = snd (commit_replay 0 5 0 1000 fresh_traffic) \<and>
     \<not> precheck_replay 0 5 0 (evict_old_rx_slots 31000 s) \<and>
     precheck_replay 0 5 0 (evict_old_rx_slots 31001 s)"
proof -
  let ?s = "snd (commit_replay 0 5 0 1000 fresh_traffic)"
  have rx: "rx_slots ?s = [[\<lparr>slot_epoch = 0, window = snd (accept window_default 5), last_rx_ms = 1000,
      slot_valid = True\<rparr>, slot_default], [slot_default, slot_default]]"
    and ok: "fst (commit_replay 0 5 0 1000 fresh_traffic)" and g: "sync_rx_grace ?s = grace_default"
    using accept_default [of 5]
    by (simp_all add: commit_replay_def commit_slots_def fresh_traffic_def slots_default_def slot_default_def
        grace_default_def grace_for_def Let_def new_slot_def slot_accept_def case_prod_unfold)
  have "\<not> can_accept (snd (accept window_default 5)) 5"
    by (rule accept_then_not_can [OF _ accept_default]) (simp add: window_default_def)
  with rx g have "\<not> precheck_replay 0 5 0 (evict_old_rx_slots 31000 ?s)"
    by (simp add: precheck_replay_def precheck_slots_def evict_old_rx_slots_def evict_slots_def
        evict_slot_def RX_EPOCH_IDLE_MS_def sat_sub_def grace_default_def grace_for_def Let_def)
  moreover have "precheck_replay 0 5 0 (evict_old_rx_slots 31001 ?s)"
    by (rule idle_direction_accepts_anything)
      (simp_all add: rx g slots_wf_def grace_default_def slot_default_def slot_wf_def window_default_def)
  ultimately show ?thesis using ok by blast
qed

end
