(* ===== verification/Rooms.thy ===== *)
theory Rooms
  imports Prelude
begin

text \<open>
  The registry of authenticated connections, \<open>cloudflare/src/runtime/rooms.ts\<close>: a map from network
  names to maps from peer ids to connections.  A connection is a reference in the code; here it is
  the identity \<open>cid\<close> the server model allocates for it, so \<open>===\<close> on connections is equality of
  identities.  The methods read \<open>networkName\<close> and \<open>peerId\<close> off the connection; here they are
  arguments.

  The locale \<open>registry\<close> states what the server relies on, over the abstract map from
  (network, peer) to connection; its lemmas are about the replacement of a reconnecting peer, where a
  stale connection must not unregister the new one.
\<close>

type_synonym cid = nat
type_synonym room = "(u32, cid) jsmap"
type_synonym rooms = "(string, room) jsmap"

definition rooms_get :: "rooms \<Rightarrow> string \<Rightarrow> u32 \<Rightarrow> cid option" where
  "rooms_get rs networkName peerId = (case m_get rs networkName of
     None \<Rightarrow> None
   | Some room \<Rightarrow> m_get room peerId)"

definition rooms_set :: "string \<Rightarrow> u32 \<Rightarrow> cid \<Rightarrow> rooms \<Rightarrow> cid option \<times> rooms" where
  "rooms_set networkName peerId connection rs =
     (let (room, rs) = (case m_get rs networkName of
                          None \<Rightarrow> ([], m_put networkName [] rs)
                        | Some room \<Rightarrow> (room, rs));
          previous = m_get room peerId;
          room = m_put peerId connection room
      in (previous, m_put networkName room rs))"

definition rooms_delete :: "string \<Rightarrow> u32 \<Rightarrow> cid \<Rightarrow> rooms \<Rightarrow> bool \<times> rooms" where
  "rooms_delete networkName peerId connection rs = (case m_get rs networkName of
     None \<Rightarrow> (False, rs)
   | Some room \<Rightarrow>
       (if m_get room peerId \<noteq> Some connection then (False, rs)
        else let room = m_del peerId room
             in (True, if room = [] then m_del networkName rs else m_put networkName room rs)))"

definition rooms_peers :: "rooms \<Rightarrow> string \<Rightarrow> cid list" where
  "rooms_peers rs networkName = (case m_get rs networkName of
     None \<Rightarrow> []
   | Some room \<Rightarrow> m_values room)"

text \<open>Keys occur once at both levels, and an empty room is never kept.\<close>

definition rooms_wf :: "rooms \<Rightarrow> bool" where
  "rooms_wf rs \<longleftrightarrow> m_ok rs \<and> list_all (\<lambda>(n, room). m_ok room \<and> room \<noteq> []) rs"

lemma rooms_wf_empty [simp]: "rooms_wf []"
  by (simp add: rooms_wf_def)

lemma rooms_wf_room:
  "rooms_wf rs \<Longrightarrow> m_get rs n = Some room \<Longrightarrow> m_ok room \<and> room \<noteq> []"
  by (auto simp: rooms_wf_def list_all_iff dest: map_of_SomeD)

lemma rooms_get_set [simp]:
  "rooms_get (snd (rooms_set n p c rs)) n' p' = (if n' = n \<and> p' = p then Some c else rooms_get rs n' p')"
  by (auto simp: rooms_get_def rooms_set_def m_get_put split: option.splits)

lemma rooms_set_previous [simp]: "fst (rooms_set n p c rs) = rooms_get rs n p"
  by (auto simp: rooms_get_def rooms_set_def split: option.splits)

lemma rooms_wf_set [simp]: "rooms_wf rs \<Longrightarrow> rooms_wf (snd (rooms_set n p c rs))"
proof (cases "m_get rs n")
  case None
  assume "rooms_wf rs"
  with None show ?thesis by (simp add: rooms_set_def rooms_wf_def list_all_m_put)
next
  case (Some room)
  assume wf: "rooms_wf rs"
  with Some have "m_ok room" using rooms_wf_room by blast
  with Some wf show ?thesis by (simp add: rooms_set_def rooms_wf_def list_all_m_put)
qed

lemma rooms_get_delete [simp]:
  "rooms_get (snd (rooms_delete n p c rs)) n' p' =
     (if n' = n \<and> p' = p \<and> rooms_get rs n p = Some c then None else rooms_get rs n' p')"
proof (cases "m_get rs n")
  case None
  then show ?thesis by (simp add: rooms_get_def rooms_delete_def)
next
  case (Some room)
  show ?thesis
    using Some m_del_empty_get [of p room p']
    by (cases "m_get room p = Some c"; cases "n' = n"; cases "p' = p"; cases "m_del p room = []")
       (simp_all add: rooms_get_def rooms_delete_def m_get_put m_get_del)
qed

lemma rooms_delete_found [simp]: "fst (rooms_delete n p c rs) \<longleftrightarrow> rooms_get rs n p = Some c"
  by (auto simp: rooms_get_def rooms_delete_def Let_def split: option.splits)

lemma rooms_wf_delete [simp]:
  assumes "rooms_wf rs"
  shows "rooms_wf (snd (rooms_delete n p c rs))"
proof (cases "m_get rs n")
  case None
  then show ?thesis using assms by (simp add: rooms_delete_def)
next
  case (Some room)
  with assms have "m_ok room" using rooms_wf_room by blast
  with Some assms show ?thesis
    by (auto simp: rooms_delete_def rooms_wf_def Let_def intro!: list_all_m_put list_all_m_del)
qed

lemma rooms_peers_iff:
  assumes "rooms_wf rs"
  shows "c \<in> set (rooms_peers rs n) \<longleftrightarrow> (\<exists>p. rooms_get rs n p = Some c)"
proof (cases "m_get rs n")
  case None
  then show ?thesis by (simp add: rooms_peers_def rooms_get_def)
next
  case (Some room)
  then have "m_ok room" using assms rooms_wf_room by blast
  with Some show ?thesis
    by (force simp: rooms_peers_def rooms_get_def)
qed

subsection \<open>The contract of the registry\<close>

locale registry =
  fixes get :: "'r \<Rightarrow> string \<Rightarrow> u32 \<Rightarrow> 'c option"
    and put :: "string \<Rightarrow> u32 \<Rightarrow> 'c \<Rightarrow> 'r \<Rightarrow> 'c option \<times> 'r"
    and del :: "string \<Rightarrow> u32 \<Rightarrow> 'c \<Rightarrow> 'r \<Rightarrow> bool \<times> 'r"
    and peers :: "'r \<Rightarrow> string \<Rightarrow> 'c list"
    and wf :: "'r \<Rightarrow> bool"
  assumes put_previous: "fst (put n p c r) = get r n p"
    and put_get: "get (snd (put n p c r)) n' p' = (if n' = n \<and> p' = p then Some c else get r n' p')"
    and del_found: "fst (del n p c r) \<longleftrightarrow> get r n p = Some c"
    and del_get: "get (snd (del n p c r)) n' p' =
                    (if n' = n \<and> p' = p \<and> get r n p = Some c then None else get r n' p')"
    and wf_put: "wf r \<Longrightarrow> wf (snd (put n p c r))"
    and wf_del: "wf r \<Longrightarrow> wf (snd (del n p c r))"
    and peers_get: "wf r \<Longrightarrow> c \<in> set (peers r n) \<longleftrightarrow> (\<exists>p. get r n p = Some c)"
begin

text \<open>\<open>owns r key\<close>: every registered connection is registered under its own key only.\<close>

definition owns :: "'r \<Rightarrow> ('c \<Rightarrow> string \<times> u32) \<Rightarrow> bool" where
  "owns r key \<longleftrightarrow> (\<forall>n p c. get r n p = Some c \<longrightarrow> key c = (n, p))"

lemma owns_put: "owns r key \<Longrightarrow> key c = (n, p) \<Longrightarrow> owns (snd (put n p c r)) key"
  by (auto simp: owns_def put_get)

lemma owns_del: "owns r key \<Longrightarrow> owns (snd (del n p c r)) key"
  by (auto simp: owns_def del_get)

lemma stale_delete:
  "c \<noteq> c' \<Longrightarrow> get (snd (del n p c (snd (put n p c' r)))) n' p' = get (snd (put n p c' r)) n' p'"
  by (auto simp: put_get del_get)

lemma put_then_delete:
  "get (snd (del n p c (snd (put n p c r)))) n' p' = (if n' = n \<and> p' = p then None else get r n' p')"
  by (auto simp: put_get del_get)

lemma delete_gone:
  assumes "owns r key" "key c = (n, p)"
  shows "get (snd (del n p c r)) n' p' \<noteq> Some c"
proof
  assume "get (snd (del n p c r)) n' p' = Some c"
  then have "get r n' p' = Some c" "\<not> (n' = n \<and> p' = p)" by (auto simp: del_get split: if_splits)
  with assms show False unfolding owns_def by fastforce
qed

lemma peers_put:
  assumes "wf r" "owns r key" "key c = (n, p)"
  shows "x \<in> set (peers (snd (put n p c r)) n) \<longleftrightarrow>
           x = c \<or> x \<in> set (peers r n) \<and> get r n p \<noteq> Some x"
proof -
  have keyed: "q = p" if "get r n q = Some x" "get r n p = Some x" for q x
    using that assms(2) unfolding owns_def by (metis prod.inject)
  show ?thesis
    using assms by (auto simp: peers_get wf_put put_get dest: keyed split: if_splits)
qed

lemma peers_delete:
  assumes "wf r" "owns r key" "key c = (n, p)"
  shows "set (peers (snd (del n p c r)) n) = set (peers r n) - {c}"
proof (rule set_eqI)
  fix x
  have keyed: "get r n q = Some c \<Longrightarrow> q = p" for q
    using assms(2,3) unfolding owns_def by (metis prod.inject)
  have "x \<in> set (peers (snd (del n p c r)) n) \<longleftrightarrow>
          (\<exists>q. get r n q = Some x \<and> \<not> (q = p \<and> get r n p = Some c))"
    using assms(1) by (auto simp: peers_get wf_del del_get split: if_splits)
  also have "\<dots> \<longleftrightarrow> x \<in> set (peers r n) \<and> x \<noteq> c"
    using assms(1) by (auto simp: peers_get dest: keyed)
  finally show "x \<in> set (peers (snd (del n p c r)) n) \<longleftrightarrow> x \<in> set (peers r n) - {c}"
    by simp
qed

end

interpretation reg: registry rooms_get rooms_set rooms_delete rooms_peers rooms_wf
  by unfold_locales (auto simp: rooms_peers_iff)

text \<open>C26: \<open>RoomRegistry\<close> refines a partial map from (network, peer) to connections: \<open>set\<close> overwrites
  and reports the previous connection, \<open>delete\<close> removes the entry exactly when it holds the very
  connection passed, and neither leaves an empty room or a duplicate key behind.\<close>

theorem registry_refines_map:
  assumes "rooms_wf rs"
  shows "fst (rooms_set n p c rs) = rooms_get rs n p
       \<and> (\<lambda>(n', p'). rooms_get (snd (rooms_set n p c rs)) n' p')
           = (\<lambda>(n', p'). rooms_get rs n' p')((n, p) \<mapsto> c)
       \<and> fst (rooms_delete n p c rs) = (rooms_get rs n p = Some c)
       \<and> (\<lambda>(n', p'). rooms_get (snd (rooms_delete n p c rs)) n' p')
           = (if rooms_get rs n p = Some c then (\<lambda>(n', p'). rooms_get rs n' p')((n, p) := None)
              else (\<lambda>(n', p'). rooms_get rs n' p'))
       \<and> set (rooms_peers rs n) = {x. \<exists>q. rooms_get rs n q = Some x}
       \<and> rooms_wf (snd (rooms_set n p c rs)) \<and> rooms_wf (snd (rooms_delete n p c rs))"
  using assms by (auto simp: fun_eq_iff rooms_peers_iff)

theorem registry_refines_map_witness:
  "fst (rooms_set ''net'' 7 2 [(''net'', [(7, 1)])]) = Some 1"
  using registry_refines_map [of "[(''net'', [(7, 1)])]" "''net''" 7 2]
  by (auto simp: rooms_wf_def rooms_get_def)

text \<open>A reconnecting peer replaces its old connection without a gap: after \<open>set\<close> has registered
  the new connection, deleting the old one reports that nothing was removed and leaves the new one
  registered, while deleting the new one removes the peer.\<close>

theorem stale_connection_cannot_unregister:
  assumes "rooms_get rs n p = Some old" and "new \<noteq> old"
  shows "rooms_delete n p old (snd (rooms_set n p new rs)) = (False, snd (rooms_set n p new rs))
       \<and> rooms_get (snd (rooms_delete n p old (snd (rooms_set n p new rs)))) n p = Some new
       \<and> rooms_get (snd (rooms_delete n p new (snd (rooms_set n p new rs)))) n p = None"
proof -
  have "rooms_delete n p old (snd (rooms_set n p new rs)) = (False, snd (rooms_set n p new rs))"
    using assms(2) by (auto simp: rooms_delete_def rooms_set_def m_get_put Let_def split: option.splits)
  then show ?thesis by (simp add: reg.put_then_delete)
qed

theorem stale_connection_cannot_unregister_witness:
  "rooms_get (snd (rooms_delete ''net'' 7 1 (snd (rooms_set ''net'' 7 2 [(''net'', [(7, 1)])])))) ''net'' 7
     = Some (2 :: nat)"
  using stale_connection_cannot_unregister [of "[(''net'', [(7, 1)])]" "''net''" 7 1 2]
  by (simp add: rooms_get_def [of "[(''net'', [(7, 1)])]"])

end
