(* ===== verification/Js_Number.thy ===== *)
theory Js_Number
  imports Prelude
begin

text \<open>
  JavaScript numbers as far as the relay reads them: the IEEE double nearest to a decimal literal,
  \<open>Number.isInteger\<close>, \<open>Number.isSafeInteger\<close> and the conversion \<open>Number(string)\<close>.

  A finite double is a pair: \<open>Fin m e\<close> stands for \<open>m * 2 ^ e\<close>.  The sign of zero is not kept; no code
  of the relay can tell the two zeros apart.  Rounding is to the nearest double, ties to even, with
  53 bits of precision, the least exponent -1074, and infinity from \<open>2 ^ 1024\<close> on.
\<close>

datatype jsnum = Fin int int | Infinite bool | NaN

function bits :: "int \<Rightarrow> nat" where
  "bits n = (if n \<le> 0 then 0 else Suc (bits (n div 2)))"
  by pat_completeness auto
termination by (relation "measure nat") auto

declare bits.simps [simp del]

text \<open>\<open>n / d\<close> as a multiple of \<open>2 ^ e\<close>: numerator and denominator.\<close>

definition scaled :: "int \<Rightarrow> int \<Rightarrow> int \<Rightarrow> int \<times> int" where
  "scaled n d e = (if 0 \<le> e then (n, d * 2 ^ nat e) else (n * 2 ^ nat (- e), d))"

definition round_half_even :: "int \<times> int \<Rightarrow> int" where
  "round_half_even nd = (case nd of (n, d) \<Rightarrow>
     let q = n div d; r = n mod d
     in if 2 * r > d \<or> (2 * r = d \<and> odd q) then q + 1 else q)"

definition fin_exponent :: "int \<Rightarrow> int \<Rightarrow> int" where
  "fin_exponent n d =
     (let e = int (bits n) - int (bits d) - 53;
          e = (if 2 ^ 53 \<le> (case scaled n d e of (a, b) \<Rightarrow> a div b) then e + 1 else e)
      in max e (- 1074))"

text \<open>The double nearest to \<open>n / d\<close>, or to its negation.\<close>

definition double_of_ratio :: "bool \<Rightarrow> int \<Rightarrow> int \<Rightarrow> jsnum" where
  "double_of_ratio neg n d =
     (if n = 0 then Fin 0 0
      else let e = fin_exponent n d; q = round_half_even (scaled n d e)
           in if 0 \<le> e \<and> 2 ^ 1024 \<le> q * 2 ^ nat e then Infinite neg
              else Fin (if neg then - q else q) e)"

text \<open>The integer a double is, if it is one (\<open>Number.isInteger\<close>).\<close>

definition num_int :: "jsnum \<Rightarrow> int option" where
  "num_int x = (case x of
     Fin m e \<Rightarrow> (if 0 \<le> e then Some (m * 2 ^ nat e)
                 else if m mod 2 ^ nat (- e) = 0 then Some (m div 2 ^ nat (- e)) else None)
   | _ \<Rightarrow> None)"

definition is_safe_integer :: "jsnum \<Rightarrow> bool" where
  "is_safe_integer x = (case num_int x of None \<Rightarrow> False | Some v \<Rightarrow> \<bar>v\<bar> \<le> 2 ^ 53 - 1)"

subsection \<open>Literals\<close>

definition char_code :: "char \<Rightarrow> nat" where
  "char_code c = of_char c"

definition is_digit :: "char \<Rightarrow> bool" where
  "is_digit c \<longleftrightarrow> 48 \<le> char_code c \<and> char_code c \<le> 57"

definition digit_value :: "char \<Rightarrow> int" where
  "digit_value c = int (char_code c - 48)"

definition digits_value :: "string \<Rightarrow> int" where
  "digits_value ds = foldl (\<lambda>n c. 10 * n + digit_value c) 0 ds"

text \<open>An optional exponent part; \<open>None\<close> when the \<open>e\<close> is not followed by digits.\<close>

definition scan_exponent :: "string \<Rightarrow> (int \<times> string) option" where
  "scan_exponent s = (case s of
     [] \<Rightarrow> Some (0, [])
   | c # r \<Rightarrow>
       (if c \<noteq> CHR ''e'' \<and> c \<noteq> CHR ''E'' then Some (0, s)
        else let neg = (r \<noteq> [] \<and> hd r = CHR ''-'');
                 r = (if r \<noteq> [] \<and> (hd r = CHR ''-'' \<or> hd r = CHR ''+'') then tl r else r);
                 ds = takeWhile is_digit r
             in if ds = [] then None
                else Some (if neg then - digits_value ds else digits_value ds, dropWhile is_digit r)))"

text \<open>The double nearest to \<open>ip.fp\<close> times ten to the \<open>x\<close>, the digits given as text.\<close>

definition decimal_double :: "bool \<Rightarrow> string \<Rightarrow> string \<Rightarrow> int \<Rightarrow> jsnum" where
  "decimal_double neg ip fp x =
     (let m = digits_value (ip @ fp); e = x - int (length fp)
      in if 0 \<le> e then double_of_ratio neg (m * 10 ^ nat e) 1
         else double_of_ratio neg m (10 ^ nat (- e)))"

subsection \<open>Number(string)\<close>

text \<open>
  White space and line terminators, by their UTF-8 encodings: the ASCII ones, U+00A0, U+1680,
  U+2000 to U+200A, U+2028, U+2029, U+202F, U+205F, U+3000 and U+FEFF.
\<close>

definition white_space :: "nat list list" where
  "white_space = map (\<lambda>c. [c]) [9, 10, 11, 12, 13, 32] @ [[0xC2, 0xA0], [0xE1, 0x9A, 0x80]] @
     map (\<lambda>c. [0xE2, 0x80, c]) ([0x80 ..< 0x8B] @ [0xA8, 0xA9, 0xAF]) @
     [[0xE2, 0x81, 0x9F], [0xE3, 0x80, 0x80], [0xEF, 0xBB, 0xBF]]"

definition strip_prefix :: "nat list list \<Rightarrow> nat list \<Rightarrow> nat list option" where
  "strip_prefix ps s = map_option (\<lambda>p. drop (length p) s) (find (\<lambda>p. take (length p) s = p) ps)"

fun trim_with :: "nat list list \<Rightarrow> nat \<Rightarrow> nat list \<Rightarrow> nat list" where
  "trim_with ps 0 s = s"
| "trim_with ps (Suc n) s = (case strip_prefix ps s of None \<Rightarrow> s | Some r \<Rightarrow> trim_with ps n r)"

definition js_trim :: "string \<Rightarrow> string" where
  "js_trim s =
     (let b = map char_code s;
          b = trim_with white_space (length b) b;
          b = rev (trim_with (map rev white_space) (length b) (rev b))
      in map char_of b)"

definition hex_value :: "char \<Rightarrow> nat option" where
  "hex_value c =
     (let n = char_code c
      in if is_digit c then Some (n - 48)
         else if 65 \<le> n \<and> n \<le> 70 then Some (n - 55)
         else if 97 \<le> n \<and> n \<le> 102 then Some (n - 87) else None)"

text \<open>The digits of a literal with a radix prefix; \<open>None\<close> if there is none or one is out of range.\<close>

definition radix_value :: "nat \<Rightarrow> string \<Rightarrow> int option" where
  "radix_value b ds =
     (if ds = [] then None
      else foldl (\<lambda>acc c. case (acc, hex_value c) of
                     (Some n, Some v) \<Rightarrow> if v < b then Some (int b * n + int v) else None
                   | _ \<Rightarrow> None) (Some 0) ds)"

definition radix_prefix :: "string \<Rightarrow> nat option" where
  "radix_prefix s =
     (if length s < 2 \<or> s ! 0 \<noteq> CHR ''0'' then None
      else if s ! 1 \<in> {CHR ''x'', CHR ''X''} then Some 16
      else if s ! 1 \<in> {CHR ''o'', CHR ''O''} then Some 8
      else if s ! 1 \<in> {CHR ''b'', CHR ''B''} then Some 2 else None)"

definition decimal_literal :: "string \<Rightarrow> jsnum" where
  "decimal_literal s =
     (let neg = (s \<noteq> [] \<and> hd s = CHR ''-'');
          s = (if s \<noteq> [] \<and> (hd s = CHR ''-'' \<or> hd s = CHR ''+'') then tl s else s);
          ip = takeWhile is_digit s; s1 = dropWhile is_digit s;
          dot = (s1 \<noteq> [] \<and> hd s1 = CHR ''.'');
          fp = (if dot then takeWhile is_digit (tl s1) else []);
          s2 = (if dot then dropWhile is_digit (tl s1) else s1)
      in if s = ''Infinity'' then Infinite neg
         else if ip = [] \<and> fp = [] then NaN
         else (case scan_exponent s2 of
                 Some (x, []) \<Rightarrow> decimal_double neg ip fp x
               | _ \<Rightarrow> NaN))"

definition js_Number :: "string \<Rightarrow> jsnum" where
  "js_Number text =
     (let s = js_trim text
      in if s = [] then Fin 0 0
         else case radix_prefix s of
                Some b \<Rightarrow> (case radix_value b (drop 2 s) of
                             None \<Rightarrow> NaN
                           | Some n \<Rightarrow> double_of_ratio False n 1)
              | None \<Rightarrow> decimal_literal s)"

subsection \<open>Integers below 2^53 are exact\<close>

lemma bits_pos: "0 < n \<Longrightarrow> bits n = Suc (bits (n div 2))"
  by (subst bits.simps) simp

lemma bits_0 [simp]: "bits 0 = 0" and bits_1 [simp]: "bits 1 = 1"
  by (simp_all add: bits.simps)

lemma bits_bounds: "0 < n \<Longrightarrow> 2 ^ (bits n - 1) \<le> n \<and> n < 2 ^ bits n"
proof (induction n rule: bits.induct)
  case (1 n)
  show ?case
  proof (cases "n div 2 = 0")
    case True
    with 1 show ?thesis by (simp add: bits_pos)
  next
    case False
    with 1 have pos: "0 < n div 2" by simp
    with 1 have IH: "2 ^ (bits (n div 2) - 1) \<le> n div 2" "n div 2 < 2 ^ bits (n div 2)" by auto
    have "bits (n div 2) = Suc (bits (n div 2) - 1)"
      using pos by (simp add: bits_pos [of "n div 2"])
    then have "(2::int) ^ bits (n div 2) = 2 * 2 ^ (bits (n div 2) - 1)" by (metis power_Suc)
    with IH 1 show ?thesis by (simp add: bits_pos [of n]) linarith
  qed
qed

lemma bits_le: "n < 2 ^ k \<Longrightarrow> bits n \<le> k"
proof (cases "n \<le> 0")
  case False
  assume "n < 2 ^ k"
  with False bits_bounds [of n] have "(2::int) ^ (bits n - 1) < 2 ^ k" by linarith
  with False show ?thesis by (simp add: bits_pos)
qed (simp add: bits.simps)

lemma fin_exponent_int:
  assumes "0 < n" and "n < 2 ^ 53"
  shows "fin_exponent n 1 = int (bits n) - 53"
proof -
  have le: "bits n \<le> 53" by (rule bits_le) (fact assms(2))
  have pos: "0 < bits n" using assms(1) by (simp add: bits_pos)
  have "(2::int) ^ 53 = 2 ^ (bits n - 1) * 2 ^ (54 - bits n)"
    using le pos by (simp add: power_add [symmetric])
  also have "\<dots> \<le> n * 2 ^ (54 - bits n)"
    using bits_bounds [OF assms(1)] by (intro mult_right_mono) simp_all
  finally have "(2::int) ^ 53 \<le> n * 2 ^ (54 - bits n)" .
  moreover have "nat (54 - int (bits n)) = 54 - bits n" using le by simp
  ultimately show ?thesis
    using le by (simp add: fin_exponent_def scaled_def Let_def)
qed

lemma double_of_int:
  assumes "0 \<le> n" and "n < 2 ^ 53"
  shows "num_int (double_of_ratio False n 1) = Some n"
proof (cases "n = 0")
  case True
  then show ?thesis by (simp add: double_of_ratio_def num_int_def)
next
  case False
  then have e: "fin_exponent n 1 = int (bits n) - 53" using assms fin_exponent_int by simp
  have le: "bits n \<le> 53" by (rule bits_le) (fact assms)
  have ne: "nat (53 - int (bits n)) = 53 - bits n" using le by simp
  have q: "round_half_even (scaled n 1 (int (bits n) - 53)) = n * 2 ^ (53 - bits n)"
    using le ne by (auto simp: scaled_def round_half_even_def)
  have "n < 2 ^ 1024"
    by (rule less_le_trans [OF assms(2)]) (rule power_increasing, simp_all)
  with False e q le ne show ?thesis
    by (auto simp: double_of_ratio_def num_int_def Let_def)
qed

end
