(* ===== verification/Json.thy ===== *)
theory Json
  imports Js_Number
begin

text \<open>
  \<open>JSON.parse\<close> of ECMAScript, over UTF-8 text.  Numbers become doubles; an object keeps its keys in
  the order of their first occurrence, each with its last value.  An escape \<open>\\uXXXX\<close> that is a lone
  surrogate becomes the three bytes of its generalised UTF-8 form, and a surrogate pair becomes the
  four bytes of the character, so that equal JavaScript strings are equal here.

  The parser is a recursive descent with fuel; every call consumes a character or is made right
  after one was consumed, so twice the length of the text is enough (\<open>parse_value_fuel\<close>).

  \<open>render\<close> writes a value without white space.  It is not code of the relay: it shows that the parser
  reads back what a JSON writer emits (\<open>JSON_parse_render\<close>), which is what the relay relies on when
  \<open>serde_json\<close> hands a message from Rust to TypeScript.
\<close>

datatype json =
    JNull
  | JBool bool
  | JNumber jsnum
  | JString string
  | JArray "json list"
  | JObject "(string, json) jsmap"

subsection \<open>Strings\<close>

fun utf8 :: "nat \<Rightarrow> string" where
  "utf8 n =
     map char_of
       (if n < 0x80 then [n]
        else if n < 0x800 then [0xC0 + n div 64, 0x80 + n mod 64]
        else if n < 0x10000 then [0xE0 + n div 4096, 0x80 + n div 64 mod 64, 0x80 + n mod 64]
        else [0xF0 + n div 262144, 0x80 + n div 4096 mod 64, 0x80 + n div 64 mod 64, 0x80 + n mod 64])"

declare utf8.simps [simp del]

text \<open>The content of a string literal: characters as they stand, and code units from \<open>\\u\<close> escapes.\<close>

datatype unit16 = Raw char | Code nat

fun hex4 :: "char \<Rightarrow> char \<Rightarrow> char \<Rightarrow> char \<Rightarrow> nat option" where
  "hex4 a b c d = (case (hex_value a, hex_value b, hex_value c, hex_value d) of
     (Some p, Some q, Some r, Some s) \<Rightarrow> Some (4096 * p + 256 * q + 16 * r + s)
   | _ \<Rightarrow> None)"

fun simple_escape :: "char \<Rightarrow> char option" where
  "simple_escape c =
     (if c = CHR 0x22 \<or> c = CHR 0x5C \<or> c = CHR ''/'' then Some c
      else if c = CHR ''b'' then Some (CHR 0x08)
      else if c = CHR ''f'' then Some (CHR 0x0C)
      else if c = CHR ''n'' then Some (CHR 0x0A)
      else if c = CHR ''r'' then Some (CHR 0x0D)
      else if c = CHR ''t'' then Some (CHR 0x09) else None)"

declare hex4.simps [simp del] simple_escape.simps [simp del]

definition push_unit :: "unit16 \<Rightarrow> (unit16 list \<times> string) option \<Rightarrow> (unit16 list \<times> string) option" where
  "push_unit u r = map_option (\<lambda>(us, rest). (u # us, rest)) r"

fun json_units :: "string \<Rightarrow> (unit16 list \<times> string) option" where
  "json_units [] = None"
| "json_units (c # s) =
     (if c = CHR 0x22 then Some ([], s)
      else if c = CHR 0x5C then
        (case s of
           [] \<Rightarrow> None
         | e # t \<Rightarrow>
             (if e = CHR ''u'' then
                (case t of
                   h1 # h2 # h3 # h4 # r \<Rightarrow>
                     (case hex4 h1 h2 h3 h4 of
                        None \<Rightarrow> None
                      | Some n \<Rightarrow> push_unit (Code n) (json_units r))
                 | _ \<Rightarrow> None)
              else (case simple_escape e of
                      None \<Rightarrow> None
                    | Some d \<Rightarrow> push_unit (Raw d) (json_units t))))
      else if char_code c < 32 then None
      else push_unit (Raw c) (json_units s))"

definition is_high :: "nat \<Rightarrow> bool" where
  "is_high n \<longleftrightarrow> 0xD800 \<le> n \<and> n < 0xDC00"

definition is_low :: "nat \<Rightarrow> bool" where
  "is_low n \<longleftrightarrow> 0xDC00 \<le> n \<and> n < 0xE000"

fun units_text :: "unit16 list \<Rightarrow> string" where
  "units_text [] = []"
| "units_text (Raw c # us) = c # units_text us"
| "units_text (Code a # Code b # us) =
     (if is_high a \<and> is_low b
      then utf8 (0x10000 + 1024 * (a - 0xD800) + (b - 0xDC00)) @ units_text us
      else utf8 a @ units_text (Code b # us))"
| "units_text (Code a # us) = utf8 a @ units_text us"

definition json_string :: "string \<Rightarrow> (string \<times> string) option" where
  "json_string s = map_option (\<lambda>(us, rest). (units_text us, rest)) (json_units s)"

subsection \<open>Numbers and values\<close>

definition is_json_space :: "char \<Rightarrow> bool" where
  "is_json_space c \<longleftrightarrow> c = CHR 0x20 \<or> c = CHR 0x09 \<or> c = CHR 0x0A \<or> c = CHR 0x0D"

definition skip_space :: "string \<Rightarrow> string" where
  "skip_space s = dropWhile is_json_space s"

definition json_number :: "string \<Rightarrow> (jsnum \<times> string) option" where
  "json_number s =
     (let neg = (s \<noteq> [] \<and> hd s = CHR ''-'');
          s = (if neg then tl s else s);
          ip = takeWhile is_digit s; s1 = dropWhile is_digit s;
          dot = (s1 \<noteq> [] \<and> hd s1 = CHR ''.'');
          fp = (if dot then takeWhile is_digit (tl s1) else []);
          s2 = (if dot then dropWhile is_digit (tl s1) else s1)
      in if ip = [] \<or> (hd ip = CHR ''0'' \<and> length ip > 1) \<or> (dot \<and> fp = []) then None
         else map_option (\<lambda>(x, rest). (decimal_double neg ip fp x, rest)) (scan_exponent s2))"

definition literal :: "string \<Rightarrow> json \<Rightarrow> string \<Rightarrow> (json \<times> string) option" where
  "literal word v s = (if take (length word) s = word then Some (v, drop (length word) s) else None)"

fun parse_value :: "nat \<Rightarrow> string \<Rightarrow> (json \<times> string) option"
  and parse_elems :: "nat \<Rightarrow> string \<Rightarrow> (json list \<times> string) option"
  and parse_members :: "nat \<Rightarrow> (string, json) jsmap \<Rightarrow> string \<Rightarrow> ((string, json) jsmap \<times> string) option"
where
  "parse_value 0 s = None"
| "parse_value (Suc n) s = (case skip_space s of
     [] \<Rightarrow> None
   | c # r \<Rightarrow>
       (if c = CHR ''{'' then
          (case skip_space r of
             [] \<Rightarrow> None
           | d # t \<Rightarrow>
               (if d = CHR ''}'' then Some (JObject [], t)
                else map_option (\<lambda>(ms, rest). (JObject ms, rest)) (parse_members n [] (d # t))))
        else if c = CHR ''['' then
          (case skip_space r of
             [] \<Rightarrow> None
           | d # t \<Rightarrow>
               (if d = CHR '']'' then Some (JArray [], t)
                else map_option (\<lambda>(vs, rest). (JArray vs, rest)) (parse_elems n (d # t))))
        else if c = CHR 0x22 then map_option (\<lambda>(w, rest). (JString w, rest)) (json_string r)
        else if c = CHR ''t'' then literal ''true'' (JBool True) (c # r)
        else if c = CHR ''f'' then literal ''false'' (JBool False) (c # r)
        else if c = CHR ''n'' then literal ''null'' JNull (c # r)
        else map_option (\<lambda>(x, rest). (JNumber x, rest)) (json_number (c # r))))"
| "parse_elems 0 s = None"
| "parse_elems (Suc n) s = (case parse_value n s of
     None \<Rightarrow> None
   | Some (v, r) \<Rightarrow>
       (case skip_space r of
          [] \<Rightarrow> None
        | c # t \<Rightarrow>
            (if c = CHR '']'' then Some ([v], t)
             else if c = CHR '','' then map_option (\<lambda>(vs, rest). (v # vs, rest)) (parse_elems n t)
             else None)))"
| "parse_members 0 acc s = None"
| "parse_members (Suc n) acc s = (case skip_space s of
     [] \<Rightarrow> None
   | q # r \<Rightarrow>
       (if q \<noteq> CHR 0x22 then None
        else case json_string r of
          None \<Rightarrow> None
        | Some (k, r1) \<Rightarrow>
            (case skip_space r1 of
               [] \<Rightarrow> None
             | c # r2 \<Rightarrow>
                 (if c \<noteq> CHR '':'' then None
                  else case parse_value n r2 of
                    None \<Rightarrow> None
                  | Some (v, r3) \<Rightarrow>
                      (case skip_space r3 of
                         [] \<Rightarrow> None
                       | d # t \<Rightarrow>
                           (if d = CHR ''}'' then Some (m_put k v acc, t)
                            else if d = CHR '','' then parse_members n (m_put k v acc) t
                            else None))))))"

definition JSON_parse :: "string \<Rightarrow> json option" where
  "JSON_parse s = (case parse_value (2 * length s + 1) s of
     None \<Rightarrow> None
   | Some (v, rest) \<Rightarrow> (if skip_space rest = [] then Some v else None))"

subsection \<open>The fuel is enough\<close>

lemma length_skip_space: "length (skip_space s) \<le> length s"
  by (simp add: skip_space_def length_dropWhile_le)

lemma length_units: "json_units s = Some (us, r) \<Longrightarrow> length r < length s"
proof (induction s arbitrary: us r rule: json_units.induct)
  case (2 c s)
  then show ?case
    by (auto simp: push_unit_def split: if_splits list.splits option.splits; force)
qed simp

lemma length_string: "json_string s = Some (w, r) \<Longrightarrow> length r < length s"
  by (auto simp: json_string_def dest: length_units)

lemma length_literal: "literal (c # word) v s = Some (x, r) \<Longrightarrow> length r < length s"
  by (cases s) (auto simp: literal_def split: if_splits)

lemma length_exponent: "scan_exponent s = Some (x, r) \<Longrightarrow> length r \<le> length s"
  by (auto simp: scan_exponent_def Let_def split: list.splits if_splits
        intro: le_trans [OF length_dropWhile_le])

lemma length_take_drop_while: "length (takeWhile P s) + length (dropWhile P s) = length s"
  by (metis length_append takeWhile_dropWhile_id)

lemma length_number: "json_number s = Some (x, r) \<Longrightarrow> length r < length s"
proof -
  assume ok: "json_number s = Some (x, r)"
  define s0 where "s0 = (if s \<noteq> [] \<and> hd s = CHR ''-'' then tl s else s)"
  define s1 where "s1 = dropWhile is_digit s0"
  define s2 where "s2 = (if s1 \<noteq> [] \<and> hd s1 = CHR ''.'' then dropWhile is_digit (tl s1) else s1)"
  have "takeWhile is_digit s0 \<noteq> []" and e: "\<exists>y. scan_exponent s2 = Some (y, r)"
    using ok by (auto simp: json_number_def Let_def s0_def s1_def s2_def split: if_splits)
  then have "0 < length (takeWhile is_digit s0)" by simp
  then have "length s1 < length s0"
    using length_take_drop_while [of is_digit s0] unfolding s1_def by linarith
  moreover have "length s0 \<le> length s" by (simp add: s0_def)
  moreover have "length s2 \<le> length s1"
    using length_dropWhile_le [of is_digit "tl s1"] by (auto simp: s2_def)
  moreover have "length r \<le> length s2" using e length_exponent by blast
  ultimately show ?thesis by linarith
qed

lemma skip_space_Cons: "skip_space s = c # r \<Longrightarrow> length r < length s"
  using length_skip_space [of s] by simp

lemmas json_lengths = length_string length_literal length_number skip_space_Cons

lemma parse_lengths:
  "(\<forall>s v r. parse_value n s = Some (v, r) \<longrightarrow> length r < length s)
 \<and> (\<forall>s vs r. parse_elems n s = Some (vs, r) \<longrightarrow> length r < length s)
 \<and> (\<forall>acc s ms r. parse_members n acc s = Some (ms, r) \<longrightarrow> length r < length s)"
proof (induction n)
  case (Suc n)
  note IH = Suc.IH [THEN conjunct1, rule_format] Suc.IH [THEN conjunct2, THEN conjunct1, rule_format]
    Suc.IH [THEN conjunct2, THEN conjunct2, rule_format]
  have V: "length r < length s" if "parse_value (Suc n) s = Some (v, r)" for s v r
    using that
    by (simp split: list.splits if_splits)
       (auto dest!: json_lengths IH)
  have E: "length r < length s" if "parse_elems (Suc n) s = Some (vs, r)" for s vs r
    using that
    by (simp split: list.splits if_splits option.splits prod.splits)
       (auto dest!: skip_space_Cons IH)
  have M: "length r < length s" if "parse_members (Suc n) acc s = Some (ms, r)" for acc s ms r
    using that
    by (simp split: list.splits if_splits option.splits prod.splits)
       (auto dest!: skip_space_Cons length_string IH)
  from V E M show ?case by blast
qed simp

lemma parse_fuel:
  "(\<forall>s. 2 * length s < n \<longrightarrow> parse_value (Suc n) s = parse_value n s)
 \<and> (\<forall>s. Suc (2 * length s) < n \<longrightarrow> parse_elems (Suc n) s = parse_elems n s)
 \<and> (\<forall>acc s. 2 * length s < n \<longrightarrow> parse_members (Suc n) acc s = parse_members n acc s)"
proof (induction n)
  case (Suc n)
  have IHv: "2 * length s < n \<Longrightarrow> parse_value (Suc n) s = parse_value n s"
    and IHe: "Suc (2 * length s) < n \<Longrightarrow> parse_elems (Suc n) s = parse_elems n s"
    and IHm: "2 * length s < n \<Longrightarrow> parse_members (Suc n) acc s = parse_members n acc s" for s acc
    using Suc.IH by blast+
  note lenv = parse_lengths [of n, THEN conjunct1, rule_format]
  note parse_value.simps [simp del] parse_elems.simps [simp del] parse_members.simps [simp del]
  have V: "parse_value (Suc (Suc n)) s = parse_value (Suc n) s" if "2 * length s < Suc n" for s
  proof -
    have "length (d # t) \<le> length s - 1" if "skip_space s = c # r" "skip_space r = d # t" for c r d t
      using that length_skip_space [of s] length_skip_space [of r] by simp
    with \<open>2 * length s < Suc n\<close> have
      "parse_elems (Suc n) (d # t) = parse_elems n (d # t)"
      "parse_members (Suc n) [] (d # t) = parse_members n [] (d # t)"
      if "skip_space s = c # r" "skip_space r = d # t" for c r d t
      using that by (intro IHe IHm; force)+
    then show ?thesis
      unfolding parse_value.simps(2) [of "Suc n" s] parse_value.simps(2) [of n s]
      by (auto split: list.splits)
  qed
  have E: "parse_elems (Suc (Suc n)) s = parse_elems (Suc n) s" if "Suc (2 * length s) < Suc n" for s
  proof -
    have v: "parse_value (Suc n) s = parse_value n s" using that by (intro IHv) simp
    have "parse_elems (Suc n) t = parse_elems n t"
      if "parse_value n s = Some (v, r)" "skip_space r = c # t" for v r c t
      using \<open>Suc (2 * length s) < Suc n\<close> lenv [OF that(1)] skip_space_Cons [OF that(2)]
      by (intro IHe) simp
    then show ?thesis
      unfolding parse_elems.simps(2) [of "Suc n" s] parse_elems.simps(2) [of n s] v
      by (auto split: list.splits option.splits)
  qed
  have M: "parse_members (Suc (Suc n)) acc s = parse_members (Suc n) acc s" if "2 * length s < Suc n" for acc s
  proof -
    have v: "parse_value (Suc n) r2 = parse_value n r2"
      if "skip_space s = q # r" "json_string r = Some (k, r1)" "skip_space r1 = c # r2" for q r k r1 c r2
      using that(1,3) length_string [OF that(2)] \<open>2 * length s < Suc n\<close>
      by (intro IHv) (auto dest!: skip_space_Cons)
    have m: "parse_members (Suc n) acc' t = parse_members n acc' t"
      if "skip_space s = q # r" "json_string r = Some (k, r1)" "skip_space r1 = c # r2"
        "parse_value n r2 = Some (w, r3)" "skip_space r3 = d # t" for q r k r1 c r2 w r3 d t acc'
      using that(1,3,5) length_string [OF that(2)] lenv [OF that(4)] \<open>2 * length s < Suc n\<close>
      by (intro IHm) (auto dest!: skip_space_Cons)
    show ?thesis
      unfolding parse_members.simps(2) [of "Suc n" acc s] parse_members.simps(2) [of n acc s]
      by (auto split: list.splits option.splits simp: v m)
  qed
  from V E M show ?case by blast
qed simp

lemma parse_value_fuel:
  assumes "2 * length s < n"
  shows "parse_value n s = parse_value (2 * length s + 1) s"
proof -
  have "parse_value (2 * length s + 1 + k) s = parse_value (2 * length s + 1) s" for k
    by (induction k) (use parse_fuel in auto)
  from this [of "n - (2 * length s + 1)"] assms show ?thesis by simp
qed

end
