(* ===== verification/Json_Write.thy ===== *)
theory Json_Write
  imports Json
begin

text \<open>
  A JSON writer and the proof that \<open>JSON.parse\<close> reads back what it writes.  The Rust side writes its
  messages with \<open>serde_json\<close>, a crate; the model takes the writer as a parameter and relies only on
  the law of the locale \<open>json_writer\<close>, which \<open>render\<close> satisfies.
\<close>

subsection \<open>The writer\<close>

definition hex_digit :: "nat \<Rightarrow> char" where
  "hex_digit n = char_of (if n < 10 then 48 + n else 87 + n)"

definition escape_char :: "char \<Rightarrow> string" where
  "escape_char c =
     (if c = CHR 0x22 \<or> c = CHR 0x5C then [CHR 0x5C, c]
      else if char_code c < 32
      then [CHR 0x5C, CHR ''u'', CHR ''0'', CHR ''0'', hex_digit (char_code c div 16),
            hex_digit (char_code c mod 16)]
      else [c])"

definition quote :: "string \<Rightarrow> string" where
  "quote s = CHR 0x22 # concat (map escape_char s) @ [CHR 0x22]"

function decimal :: "int \<Rightarrow> string" where
  "decimal n = (if n < 10 then [char_of (48 + nat n)] else decimal (n div 10) @ [char_of (48 + nat (n mod 10))])"
  by pat_completeness auto
termination by (relation "measure nat") auto

declare decimal.simps [simp del]

definition render_number :: "jsnum \<Rightarrow> string" where
  "render_number x = (case num_int x of None \<Rightarrow> ''null'' | Some i \<Rightarrow> decimal i)"

function (sequential) render :: "json \<Rightarrow> string"
  and render_elems :: "json list \<Rightarrow> string"
  and render_members :: "(string, json) jsmap \<Rightarrow> string"
where
  "render JNull = ''null''"
| "render (JBool b) = (if b then ''true'' else ''false'')"
| "render (JNumber x) = render_number x"
| "render (JString s) = quote s"
| "render (JArray vs) = CHR ''['' # render_elems vs"
| "render (JObject ms) = CHR ''{'' # render_members ms"
| "render_elems [] = '']''"
| "render_elems [v] = render v @ '']''"
| "render_elems (v # vs) = render v @ CHR '','' # render_elems vs"
| "render_members [] = ''}''"
| "render_members [(k, v)] = quote k @ CHR '':'' # render v @ ''}''"
| "render_members ((k, v) # ms) = quote k @ CHR '':'' # render v @ CHR '','' # render_members ms"
  by pat_completeness auto
termination
  by (relation "measure (\<lambda>x. case x of Inl v \<Rightarrow> size v | Inr (Inl vs) \<Rightarrow> size_list size vs
        | Inr (Inr ms) \<Rightarrow> size_list (size_prod (\<lambda>_. 0) size) ms)") auto

text \<open>Whole numbers below 2^53, and no key twice: what a writer can be asked to write.\<close>

fun writable :: "json \<Rightarrow> bool"
  and writable_elems :: "json list \<Rightarrow> bool"
  and writable_members :: "(string, json) jsmap \<Rightarrow> bool"
where
  "writable (JNumber x) \<longleftrightarrow> (case num_int x of None \<Rightarrow> False
     | Some i \<Rightarrow> 0 \<le> i \<and> i < 2 ^ 53 \<and> x = double_of_ratio False i 1)"
| "writable (JArray vs) = writable_elems vs"
| "writable (JObject ms) = (m_ok ms \<and> writable_members ms)"
| "writable _ = True"
| "writable_elems [] = True"
| "writable_elems (v # vs) = (writable v \<and> writable_elems vs)"
| "writable_members [] = True"
| "writable_members ((k, v) # ms) = (writable v \<and> writable_members ms)"

subsection \<open>Strings\<close>

lemma hex_value_digit: "n < 16 \<Longrightarrow> hex_value (hex_digit n) = Some n"
  by (auto simp: hex_value_def hex_digit_def char_code_def is_digit_def Let_def)

definition char_unit :: "char \<Rightarrow> unit16" where
  "char_unit c = (if char_code c < 32 then Code (char_code c) else Raw c)"

lemma char_code_lt: "char_code c < 256"
  unfolding char_code_def by (rule nat_of_char_less_256)

lemma units_escape:
  "json_units (escape_char c @ s) = push_unit (char_unit c) (json_units s)"
proof -
  consider "c = CHR 0x22" | "c = CHR 0x5C" | "char_code c < 32" "c \<noteq> CHR 0x22" "c \<noteq> CHR 0x5C"
    | "\<not> char_code c < 32" "c \<noteq> CHR 0x22" "c \<noteq> CHR 0x5C" by blast
  then show ?thesis
  proof cases
    case 3
    then have "hex4 (CHR ''0'') (CHR ''0'') (hex_digit (char_code c div 16)) (hex_digit (char_code c mod 16))
        = Some (char_code c)"
      using char_code_lt [of c]
      by (simp add: hex4.simps hex_value_digit) (simp add: hex_value_def char_code_def is_digit_def)
    with 3 show ?thesis by (simp add: escape_char_def char_unit_def)
  qed (simp_all add: escape_char_def char_unit_def simple_escape.simps char_code_def)
qed

lemma units_quoted:
  "json_units (concat (map escape_char s) @ CHR 0x22 # rest) = Some (map char_unit s, rest)"
  by (induction s) (simp_all add: units_escape push_unit_def)

lemma units_text_plain: "units_text (map char_unit s) = s"
proof (induction s)
  case (Cons c s)
  have "char_of (char_code c) = c" by (simp add: char_code_def)
  then have low: "utf8 (char_code c) = [c]" if "char_code c < 32" using that by (simp add: utf8.simps)
  show ?case
  proof (cases s)
    case Nil
    then show ?thesis using low by (simp add: char_unit_def)
  next
    case (Cons d t)
    then show ?thesis
      using Cons.IH low by (auto simp: char_unit_def is_high_def)
  qed
qed simp

lemma json_string_quote:
  "json_string (concat (map escape_char s) @ CHR 0x22 # rest) = Some (s, rest)"
  by (simp add: json_string_def units_quoted units_text_plain)

subsection \<open>Numbers\<close>

lemma is_digit_of [simp]: "n < 10 \<Longrightarrow> is_digit (char_of (48 + (n :: nat)))"
  by (simp add: is_digit_def char_code_def)

lemma digit_value_of [simp]: "n < 10 \<Longrightarrow> digit_value (char_of (48 + (n :: nat))) = int n"
  by (simp add: digit_value_def char_code_def)

lemma digits_value_snoc: "digits_value (ds @ [c]) = 10 * digits_value ds + digit_value c"
  by (simp add: digits_value_def)

lemma decimal_digits:
  "0 \<le> n \<Longrightarrow> decimal n \<noteq> [] \<and> (\<forall>c \<in> set (decimal n). is_digit c) \<and> digits_value (decimal n) = n
     \<and> (0 < n \<longrightarrow> hd (decimal n) \<noteq> CHR ''0'')"
proof (induction n rule: decimal.induct)
  case (1 n)
  show ?case
  proof (cases "n < 10")
    case True
    with 1 have lt: "nat n < 10" by simp
    have ne: "char_of (48 + nat n) \<noteq> CHR ''0''" if "0 < n"
    proof
      assume "char_of (48 + nat n) = CHR ''0''"
      then have "char_code (char_of (48 + nat n)) = 48" by (simp add: char_code_def)
      with lt that show False by (simp add: char_code_def)
    qed
    from True lt ne 1 show ?thesis
      by (subst (1 2 3 4) decimal.simps) (simp add: digits_value_def)
  next
    case False
    with 1 have IH: "decimal (n div 10) \<noteq> []" "\<forall>c \<in> set (decimal (n div 10)). is_digit c"
      "digits_value (decimal (n div 10)) = n div 10" "hd (decimal (n div 10)) \<noteq> CHR ''0''" by auto
    have eq: "decimal n = decimal (n div 10) @ [char_of (48 + nat (n mod 10))]"
      using False by (subst decimal.simps) simp
    have lt: "nat (n mod 10) < 10" by simp
    with IH False show ?thesis by (simp add: eq digits_value_snoc)
  qed
qed

definition stops_number :: "string \<Rightarrow> bool" where
  "stops_number s \<longleftrightarrow> s = [] \<or> hd s \<in> {CHR '','', CHR '']'', CHR ''}''}"

lemma scan_decimal:
  assumes "0 \<le> n" and "stops_number rest"
  shows "takeWhile is_digit (decimal n @ rest) = decimal n \<and> dropWhile is_digit (decimal n @ rest) = rest"
proof -
  have "takeWhile is_digit rest = [] \<and> dropWhile is_digit rest = rest"
    using assms(2) by (cases rest) (auto simp: stops_number_def is_digit_def char_code_def)
  then show ?thesis using decimal_digits [OF assms(1)] by simp
qed

lemma hd_digit: "0 \<le> n \<Longrightarrow> is_digit (hd (decimal n @ rest))"
  using decimal_digits [of n] by (simp add: hd_append)

lemma json_number_decimal:
  assumes n: "0 \<le> n" and rest: "stops_number rest"
  shows "json_number (decimal n @ rest) = Some (double_of_ratio False n 1, rest)"
proof -
  have neg: "hd (decimal n @ rest) \<noteq> CHR ''-''"
    using hd_digit [OF n, of rest] by (auto simp: is_digit_def char_code_def)
  have z: "\<not> (hd (decimal n) = CHR ''0'' \<and> length (decimal n) > 1)"
  proof (cases "n = 0")
    case True
    then show ?thesis by (simp add: decimal.simps [of 0])
  next
    case False
    then show ?thesis using decimal_digits [OF n] n by auto
  qed
  have "scan_exponent rest = Some (0, rest)" and "\<not> (rest \<noteq> [] \<and> hd rest = CHR ''.'')"
    using rest by (auto simp: scan_exponent_def stops_number_def split: list.splits)
  moreover have "decimal_double False (decimal n) [] 0 = double_of_ratio False n 1"
    using decimal_digits [OF n] by (simp add: decimal_double_def)
  ultimately show ?thesis
    using neg z decimal_digits [OF n] scan_decimal [OF n rest]
    by (auto simp: json_number_def Let_def)
qed

subsection \<open>Values\<close>

fun need :: "json \<Rightarrow> nat"
  and need_elems :: "json list \<Rightarrow> nat"
  and need_members :: "(string, json) jsmap \<Rightarrow> nat"
where
  "need (JArray vs) = Suc (need_elems vs)"
| "need (JObject ms) = Suc (need_members ms)"
| "need _ = 1"
| "need_elems [] = 0"
| "need_elems (v # vs) = Suc (need v + need_elems vs)"
| "need_members [] = 0"
| "need_members ((k, v) # ms) = Suc (need v + need_members ms)"

lemma need_pos: "0 < need v"
  by (cases v) auto

lemma render_JNumber:
  "writable (JNumber x) \<Longrightarrow> \<exists>i. 0 \<le> i \<and> x = double_of_ratio False i 1 \<and> render (JNumber x) = decimal i"
  by (auto simp: render_number_def split: option.splits)

lemma render_first:
  "writable v \<Longrightarrow> \<exists>c r. render v = c # r \<and> \<not> is_json_space c \<and> c \<noteq> CHR '']''"
proof (cases v)
  case (JNumber x)
  assume "writable v"
  with JNumber obtain i where i: "0 \<le> i" "render v = decimal i" using render_JNumber by blast
  then obtain c r where "decimal i = c # r" using decimal_digits by (metis list.exhaust)
  moreover from this have "is_digit c" using decimal_digits [OF i(1)] by simp
  ultimately show ?thesis
    using i(2) by (auto simp: is_digit_def is_json_space_def char_code_def)
qed (auto simp: is_json_space_def quote_def)

lemma skip_space_render [simp]: "writable v \<Longrightarrow> skip_space (render v @ rest) = render v @ rest"
  using render_first [of v] by (auto simp: skip_space_def)

lemma skip_space_first [simp]:
  "\<not> is_json_space c \<Longrightarrow> skip_space (c # s) = c # s"
  by (simp add: skip_space_def)

lemma not_json_space [simp]:
  "\<not> is_json_space (CHR '','')" "\<not> is_json_space (CHR '']'')" "\<not> is_json_space (CHR ''}'')"
  "\<not> is_json_space (CHR ''['')" "\<not> is_json_space (CHR ''{'')" "\<not> is_json_space (CHR '':'')"
  "\<not> is_json_space (CHR 0x22)"
  by (simp_all add: is_json_space_def)

lemma stops_number_simps [simp]:
  "stops_number []" "stops_number (CHR '','' # s)" "stops_number (CHR '']'' # s)"
  "stops_number (CHR ''}'' # s)"
  by (simp_all add: stops_number_def)

lemma parse_number_value:
  assumes "writable (JNumber x)" and "stops_number rest"
  shows "parse_value (Suc n) (render (JNumber x) @ rest) = Some (JNumber x, rest)"
proof -
  obtain i where i: "0 \<le> i" "x = double_of_ratio False i 1" "render (JNumber x) = decimal i"
    using render_JNumber [OF assms(1)] by blast
  obtain c r where c: "decimal i = c # r" using decimal_digits [OF i(1)] by (metis list.exhaust)
  have d: "is_digit c" using c decimal_digits [OF i(1)] by simp
  have "json_number (decimal i @ rest) = Some (x, rest)"
    unfolding i(2) by (rule json_number_decimal) (fact i(1) assms(2))+
  moreover have "\<not> is_json_space c" using d by (auto simp: is_digit_def is_json_space_def char_code_def)
  moreover have "c \<notin> {CHR ''{'', CHR ''['', CHR 0x22, CHR ''t'', CHR ''f'', CHR ''n''}"
    using d by (auto simp: is_digit_def char_code_def)
  ultimately show ?thesis using i(3) c by simp
qed

lemma parse_render_aux:
  "(writable v \<longrightarrow> (\<forall>n rest. need v \<le> n \<longrightarrow> stops_number rest \<longrightarrow>
      parse_value n (render v @ rest) = Some (v, rest)))"
  "(writable_elems vs \<longrightarrow> vs \<noteq> [] \<longrightarrow> (\<forall>n rest. need_elems vs \<le> n \<longrightarrow>
      parse_elems n (render_elems vs @ rest) = Some (vs, rest)))"
  "(writable_members ms \<longrightarrow> ms \<noteq> [] \<longrightarrow> (\<forall>n acc rest. need_members ms \<le> n \<longrightarrow> m_ok (acc @ ms) \<longrightarrow>
      parse_members n acc (render_members ms @ rest) = Some (acc @ ms, rest)))"
proof (induction v and vs and ms rule: render_render_elems_render_members.induct)
  case 1
  show ?case
  proof (intro impI allI)
    fix n rest assume "need JNull \<le> n"
    then obtain m where "n = Suc m" by (cases n) auto
    then show "parse_value n (render JNull @ rest) = Some (JNull, rest)"
      by (simp add: literal_def is_json_space_def)
  qed
next
  case (2 b)
  show ?case
  proof (intro impI allI)
    fix n rest assume "need (JBool b) \<le> n"
    then obtain m where "n = Suc m" by (cases n) auto
    then show "parse_value n (render (JBool b) @ rest) = Some (JBool b, rest)"
      by (simp add: literal_def is_json_space_def)
  qed
next
  case (3 x)
  show ?case
  proof (intro impI allI)
    fix n rest assume "writable (JNumber x)" "need (JNumber x) \<le> n" "stops_number rest"
    then show "parse_value n (render (JNumber x) @ rest) = Some (JNumber x, rest)"
      using parse_number_value by (cases n) auto
  qed
next
  case (4 s)
  show ?case
  proof (intro impI allI)
    fix n rest assume "need (JString s) \<le> n"
    then obtain m where "n = Suc m" by (cases n) auto
    then show "parse_value n (render (JString s) @ rest) = Some (JString s, rest)"
      by (simp add: quote_def json_string_quote)
  qed
next
  case (5 vs)
  show ?case
  proof (intro impI allI)
    fix n rest assume a: "writable (JArray vs)" "need (JArray vs) \<le> n"
    then obtain m where m: "n = Suc m" by (cases n) auto
    show "parse_value n (render (JArray vs) @ rest) = Some (JArray vs, rest)"
    proof (cases vs)
      case Nil
      then show ?thesis by (simp add: m)
    next
      case (Cons v us)
      then obtain c r where c: "render v = c # r" "\<not> is_json_space c" "c \<noteq> CHR '']''"
        using a(1) render_first [of v] by auto
      then obtain r' where hd: "render_elems vs @ rest = c # r'" using Cons by (cases us) auto
      have "parse_elems m (render_elems vs @ rest) = Some (vs, rest)"
        using 5 a m Cons by simp
      then show ?thesis using hd m c by simp
    qed
  qed
next
  case (6 ms)
  show ?case
  proof (intro impI allI)
    fix n rest assume a: "writable (JObject ms)" "need (JObject ms) \<le> n"
    then obtain m where m: "n = Suc m" by (cases n) auto
    show "parse_value n (render (JObject ms) @ rest) = Some (JObject ms, rest)"
    proof (cases ms)
      case Nil
      then show ?thesis by (simp add: m)
    next
      case (Cons p us)
      then obtain r' where hd: "render_members ms @ rest = CHR 0x22 # r'"
        by (cases p; cases us) (auto simp: quote_def)
      have "parse_members m [] (render_members ms @ rest) = Some ([] @ ms, rest)"
        using 6 a m Cons by simp
      then show ?thesis using hd m by simp
    qed
  qed
next
  case (8 v)
  show ?case
  proof (intro impI allI)
    fix n rest assume a: "writable_elems [v]" "need_elems [v] \<le> n"
    then obtain m where m: "n = Suc m" by (cases n) auto
    with 8 a show "parse_elems n (render_elems [v] @ rest) = Some ([v], rest)" by simp
  qed
next
  case (9 v w vs)
  show ?case
  proof (intro impI allI)
    fix n rest assume a: "writable_elems (v # w # vs)" "need_elems (v # w # vs) \<le> n"
    then obtain m where m: "n = Suc m" by (cases n) auto
    with 9 a show "parse_elems n (render_elems (v # w # vs) @ rest) = Some (v # w # vs, rest)" by simp
  qed
next
  case (11 k v)
  show ?case
  proof (intro impI allI)
    fix n acc rest
    assume a: "writable_members [(k, v)]" "need_members [(k, v)] \<le> n" "m_ok (acc @ [(k, v)])"
    then obtain m where m: "n = Suc m" by (cases n) auto
    with 11 a show "parse_members n acc (render_members [(k, v)] @ rest) = Some (acc @ [(k, v)], rest)"
      by (simp add: quote_def json_string_quote m_put_append)
  qed
next
  case (12 k v p ms)
  show ?case
  proof (intro impI allI)
    fix n acc rest
    assume a: "writable_members ((k, v) # p # ms)" "need_members ((k, v) # p # ms) \<le> n"
      "m_ok (acc @ (k, v) # p # ms)"
    then obtain m where m: "n = Suc m" by (cases n) auto
    have "parse_members m (acc @ [(k, v)]) (render_members (p # ms) @ rest)
        = Some ((acc @ [(k, v)]) @ p # ms, rest)"
      using a m by (intro 12(2) [rule_format]) auto
    with 12(1) a m show "parse_members n acc (render_members ((k, v) # p # ms) @ rest)
        = Some (acc @ (k, v) # p # ms, rest)"
      by (simp add: quote_def json_string_quote m_put_append)
  qed
qed simp_all

lemma need_length:
  "writable v \<longrightarrow> Suc (need v) \<le> 2 * length (render v)"
  "writable_elems vs \<longrightarrow> need_elems vs < 2 * length (render_elems vs)"
  "writable_members ms \<longrightarrow> need_members ms < 2 * length (render_members ms)"
proof (induction v and vs and ms rule: render_render_elems_render_members.induct)
  case (3 x)
  show ?case using render_first [of "JNumber x"] by auto
qed (auto simp: quote_def)

lemma JSON_parse_render: "writable v \<Longrightarrow> JSON_parse (render v) = Some v"
proof -
  assume w: "writable v"
  have "need v \<le> 2 * length (render v) + 1" using need_length(1) [of v] w by simp
  with w parse_render_aux(1) [of v] have
    "parse_value (2 * length (render v) + 1) (render v @ []) = Some (v, [])"
    by (metis stops_number_simps(1))
  then show ?thesis by (simp add: JSON_parse_def skip_space_def)
qed

subsection \<open>The contract of a JSON writer\<close>

locale json_writer =
  fixes to_text :: "json \<Rightarrow> error + string"
  assumes write_parse: "writable v \<Longrightarrow> to_text v = Inr s \<Longrightarrow> JSON_parse s = Some v"
begin

lemma write_inj: "writable v \<Longrightarrow> writable w \<Longrightarrow> to_text v = Inr s \<Longrightarrow> to_text w = Inr s \<Longrightarrow> v = w"
  using write_parse by (metis option.inject)

end

definition write_json :: "json \<Rightarrow> error + string" where
  "write_json v = Inr (render v)"

interpretation jw: json_writer write_json
  by unfold_locales (auto simp: write_json_def JSON_parse_render)

end
