(* ===== verification/Base64.thy ===== *)
theory Base64
  imports Js_Number
begin

text \<open>
  \<open>atob\<close>, the forgiving base64 decoder of the web platform: ASCII white space is dropped, padding is
  optional but must be right if the length says so, and the unused bits of the last group are
  ignored.  The result is a binary string; here it is the list of its bytes, which is what both
  callers turn it into (\<open>character.charCodeAt(0)\<close>).

  The Rust side encodes with the \<open>base64\<close> crate; the locale \<open>base64_encoder\<close> has the one law the relay
  relies on, that \<open>atob\<close> undoes it.
\<close>

definition is_ascii_space :: "char \<Rightarrow> bool" where
  "is_ascii_space c \<longleftrightarrow> char_code c \<in> {9, 10, 12, 13, 32}"

definition b64_value :: "char \<Rightarrow> nat option" where
  "b64_value c =
     (let n = char_code c
      in if 65 \<le> n \<and> n \<le> 90 then Some (n - 65)
         else if 97 \<le> n \<and> n \<le> 122 then Some (n - 71)
         else if 48 \<le> n \<and> n \<le> 57 then Some (n + 4)
         else if n = 43 then Some 62 else if n = 47 then Some 63 else None)"

fun b64_bytes :: "nat list \<Rightarrow> bytes" where
  "b64_bytes (a # b # c # d # r) =
     of_nat (4 * a + b div 16) # of_nat (b mod 16 * 16 + c div 4) # of_nat (c mod 4 * 64 + d) # b64_bytes r"
| "b64_bytes [a, b, c] = [of_nat (4 * a + b div 16), of_nat (b mod 16 * 16 + c div 4)]"
| "b64_bytes [a, b] = [of_nat (4 * a + b div 16)]"
| "b64_bytes _ = []"

definition strip_padding :: "string \<Rightarrow> string" where
  "strip_padding s =
     (if length s mod 4 \<noteq> 0 \<or> s = [] \<or> last s \<noteq> CHR ''='' then s
      else let t = butlast s in if t \<noteq> [] \<and> last t = CHR ''='' then butlast t else t)"

definition atob :: "string \<Rightarrow> bytes option" where
  "atob text =
     (let s = strip_padding (filter (\<lambda>c. \<not> is_ascii_space c) text)
      in if length s mod 4 = 1 then None
         else map_option b64_bytes (those (map b64_value s)))"

subsection \<open>The encoder\<close>

definition b64_char :: "nat \<Rightarrow> char" where
  "b64_char n = char_of (if n < 26 then n + 65 else if n < 52 then n + 71 else if n < 62 then n - 4
                         else if n = 62 then 43 else 47)"

fun b64_encode :: "bytes \<Rightarrow> string" where
  "b64_encode (a # b # c # r) =
     b64_char (unat a div 4) # b64_char (unat a mod 4 * 16 + unat b div 16) #
     b64_char (unat b mod 16 * 4 + unat c div 64) # b64_char (unat c mod 64) # b64_encode r"
| "b64_encode [a, b] =
     [b64_char (unat a div 4), b64_char (unat a mod 4 * 16 + unat b div 16),
      b64_char (unat b mod 16 * 4), CHR ''='']"
| "b64_encode [a] = [b64_char (unat a div 4), b64_char (unat a mod 4 * 16), CHR ''='', CHR ''='']"
| "b64_encode [] = []"

lemma unat_u8: "unat (b :: u8) < 256"
  using unsigned_less [of b] by simp

lemma b64_char_code: "n < 64 \<Longrightarrow> char_code (b64_char n) =
    (if n < 26 then n + 65 else if n < 52 then n + 71 else if n < 62 then n - 4 else if n = 62 then 43 else 47)"
  by (auto simp: b64_char_def char_code_def)

lemma b64_value_char [simp]: "n < 64 \<Longrightarrow> b64_value (b64_char n) = Some n"
  by (auto simp: b64_value_def b64_char_code Let_def split: if_splits)

lemma b64_char_plain: "n < 64 \<Longrightarrow> \<not> is_ascii_space (b64_char n) \<and> b64_char n \<noteq> CHR ''=''"
proof -
  assume n: "n < 64"
  have "char_code (b64_char n) \<ge> 43 \<and> char_code (b64_char n) \<noteq> 61"
    using n by (auto simp: b64_char_code)
  then show ?thesis by (auto simp: is_ascii_space_def char_code_def)
qed

text \<open>The sextets of a byte list, and that decoding them gives the bytes back.\<close>

fun sextets :: "bytes \<Rightarrow> nat list" where
  "sextets (a # b # c # r) =
     unat a div 4 # (unat a mod 4 * 16 + unat b div 16) # (unat b mod 16 * 4 + unat c div 64) #
     unat c mod 64 # sextets r"
| "sextets [a, b] = [unat a div 4, unat a mod 4 * 16 + unat b div 16, unat b mod 16 * 4]"
| "sextets [a] = [unat a div 4, unat a mod 4 * 16]"
| "sextets [] = []"

lemma byte_of_nat: "n = unat (b :: u8) \<Longrightarrow> of_nat n = b"
  by simp

lemma split_byte:
  fixes q r :: nat
  shows "r < 16 \<Longrightarrow> (q * 16 + r) div 16 = q" "r < 16 \<Longrightarrow> (q * 16 + r) mod 16 = r"
    "r < 4 \<Longrightarrow> (q * 4 + r) div 4 = q" "r < 4 \<Longrightarrow> (q * 4 + r) mod 4 = r"
  by (simp_all add: div_nat_eqI)

lemma high_bits: "unat (b :: u8) div 16 < 16" "unat (b :: u8) div 64 < 4" "unat (b :: u8) div 4 < 64"
  using unat_u8 [of b] by auto

lemma sextets_bytes: "b64_bytes (sextets bs) = bs"
  by (induction bs rule: sextets.induct)
     (simp_all add: split_byte high_bits mult_div_mod_eq div_mult_mod_eq del: of_nat_add of_nat_mult)

lemma sextet_bounds:
  fixes x y :: nat
  shows "y < 16 \<Longrightarrow> x mod 4 * 16 + y < 64" "y < 4 \<Longrightarrow> x mod 16 * 4 + y < 64" "x mod 4 * 16 < 64"
    "x mod 16 * 4 < 64"
proof -
  have "x mod 4 < 4" "x mod 16 < 16" by simp_all
  then show "y < 16 \<Longrightarrow> x mod 4 * 16 + y < 64" "y < 4 \<Longrightarrow> x mod 16 * 4 + y < 64" "x mod 4 * 16 < 64"
    "x mod 16 * 4 < 64" by linarith+
qed

lemma sextets_small: "\<forall>n \<in> set (sextets bs). n < 64"
  by (induction bs rule: sextets.induct) (auto simp: sextet_bounds high_bits)

definition padding :: "bytes \<Rightarrow> string" where
  "padding bs = replicate ((3 - length bs mod 3) mod 3) (CHR ''='')"

lemma encode_sextets: "b64_encode bs = map b64_char (sextets bs) @ padding bs"
  by (induction bs rule: b64_encode.induct) (auto simp: padding_def numeral_2_eq_2 mod_Suc)

lemma length_sextets: "length (sextets bs) + length (padding bs) = 4 * ((length bs + 2) div 3)"
proof (induction bs rule: sextets.induct)
  case (1 a b c r)
  have "(length r + 5) div 3 = Suc ((length r + 2) div 3)" by simp
  moreover have "padding (a # b # c # r) = padding r" by (simp add: padding_def mod_Suc)
  ultimately show ?case using 1 by (simp add: add.commute)
qed (auto simp: padding_def)

lemma sextets_tail: "length (sextets bs) mod 4 \<noteq> 1"
proof -
  have "length (padding bs) \<in> {0, 1, 2}" by (auto simp: padding_def)
  moreover have "l mod 4 \<noteq> 1" if "l + p = 4 * k" "p \<in> {0, 1, 2}" for l p k :: nat
    using that by (auto; presburger)
  ultimately show ?thesis using length_sextets [of bs] by blast
qed

lemma those_map_Some: "(\<forall>x \<in> set xs. f x = Some (g x)) \<Longrightarrow> those (map f xs) = Some (map g xs)"
  by (induction xs) auto

lemma strip_encoded: "strip_padding (map b64_char (sextets bs) @ padding bs) = map b64_char (sextets bs)"
proof -
  let ?s = "map b64_char (sextets bs)"
  have last: "?s = [] \<or> last ?s \<noteq> CHR ''=''"
    using sextets_small [of bs] b64_char_plain by (cases "sextets bs" rule: rev_cases) auto
  have len: "length (?s @ padding bs) mod 4 = 0"
    using length_sextets [of bs] by simp
  have "length bs mod 3 \<in> {0, 1, 2}" by auto
  then consider "padding bs = []" | "padding bs = ''=''" | "padding bs = ''==''"
    by (auto simp: padding_def numeral_2_eq_2)
  then show ?thesis
    using last len by cases (auto simp: strip_padding_def Let_def butlast_append)
qed

lemma atob_encode: "atob (b64_encode bs) = Some bs"
proof -
  have "filter (\<lambda>c. \<not> is_ascii_space c) (b64_encode bs) = b64_encode bs"
    using sextets_small [of bs] b64_char_plain
    by (auto simp: encode_sextets filter_id_conv padding_def is_ascii_space_def char_code_def)
  moreover have "those (map b64_value (map b64_char (sextets bs))) = Some (sextets bs)"
    using sextets_small [of bs] those_map_Some [of "sextets bs" "b64_value \<circ> b64_char" id] by simp
  ultimately show ?thesis
    using sextets_tail [of bs]
    by (simp add: atob_def Let_def encode_sextets strip_encoded sextets_bytes)
qed

subsection \<open>The contract of an encoder\<close>

locale base64_encoder =
  fixes enc :: "bytes \<Rightarrow> string"
  assumes atob_enc: "atob (enc bs) = Some bs"
begin

lemma enc_inj: "enc a = enc b \<Longrightarrow> a = b"
  by (metis atob_enc option.inject)

lemma enc_nonempty: "bs \<noteq> [] \<Longrightarrow> enc bs \<noteq> []"
  using atob_enc [of bs] by (auto simp: atob_def strip_padding_def)

end

interpretation b64: base64_encoder b64_encode
  by unfold_locales (rule atob_encode)

end
