(* ===== verification/Config.thy ===== *)
theory Config
  imports Json_Write Base64
begin

text \<open>
  \<open>cloudflare/src/core/config.ts\<close>: the server configuration read from the Worker's environment.  A
  binding that is not set is \<open>None\<close>.  A room's configuration has the one field \<open>network_secret\<close>, so
  the map of rooms goes from the network name to its secret.
\<close>

record easytier_env =
  EASYTIER_NETWORKS :: "string option"
  LOCAL_PRIVATE_KEY :: "string option"
  LOCAL_PUBLIC_KEY :: "string option"
  EASYTIER_HOSTNAME :: "string option"
  MAX_FRAME_BYTES :: "string option"

record server_config =
  cfg_rooms :: "(string, string) jsmap"
  cfg_hostname :: string
  localPrivateKey :: string
  localPublicKey :: string
  localPublicKeyBytes :: bytes
  maxFrameBytes :: nat

definition decodeBase64Key :: "string \<Rightarrow> string \<Rightarrow> error + bytes" where
  "decodeBase64Key value name = (case atob value of
     None \<Rightarrow> Inl (Err (name @ '' must be valid base64''))
   | Some decoded \<Rightarrow>
       (if length decoded \<noteq> 32 then Inl (Err (name @ '' must decode to exactly 32 bytes''))
        else Inr decoded))"

definition read_room :: "(string, string) jsmap \<Rightarrow> json \<Rightarrow> error + (string, string) jsmap" where
  "read_room rooms candidate = (case candidate of
     JObject ms \<Rightarrow>
       (case m_get ms ''network_name'' of
          Some (JString networkName) \<Rightarrow>
            (if length networkName = 0 \<or> 255 < length networkName
             then Inl (Err ''each room requires a non-empty network_name of at most 255 bytes'')
             else case m_get ms ''network_secret'' of
               Some (JString networkSecret) \<Rightarrow>
                 (if networkSecret = [] then Inl (Err ''room requires a non-empty network_secret'')
                  else if m_get rooms networkName \<noteq> None then Inl (Err ''duplicate network_name'')
                  else Inr (m_put networkName networkSecret rooms))
             | _ \<Rightarrow> Inl (Err ''room requires a non-empty network_secret''))
        | _ \<Rightarrow> Inl (Err ''each room requires a non-empty network_name of at most 255 bytes''))
   | _ \<Rightarrow> Inl (Err ''each EASYTIER_NETWORKS entry must be an object''))"

fun read_rooms :: "(string, string) jsmap \<Rightarrow> json list \<Rightarrow> error + (string, string) jsmap" where
  "read_rooms rooms [] = Inr rooms"
| "read_rooms rooms (candidate # rest) = rbind (read_room rooms candidate) (\<lambda>rooms. read_rooms rooms rest)"

definition read_max_frame :: "string option \<Rightarrow> error + nat" where
  "read_max_frame v =
     (let x = (case v of None \<Rightarrow> double_of_ratio False 1048576 1 | Some s \<Rightarrow> js_Number s);
          bad = Inl (Err ''MAX_FRAME_BYTES must be an integer between 1024 and 16777216'')
      in if \<not> is_safe_integer x then bad
         else case num_int x of
                None \<Rightarrow> bad
              | Some n \<Rightarrow> (if n < 1024 \<or> 16777216 < n then bad else Inr (nat n)))"

definition read_keys :: "easytier_env \<Rightarrow> error + (string \<times> string \<times> bytes)" where
  "read_keys env =
     (let priv = (case LOCAL_PRIVATE_KEY env of None \<Rightarrow> [] | Some k \<Rightarrow> k);
          pub = (case LOCAL_PUBLIC_KEY env of None \<Rightarrow> [] | Some k \<Rightarrow> k)
      in if priv = [] \<or> pub = []
         then Inl (Err ''secure_mode requires LOCAL_PRIVATE_KEY and LOCAL_PUBLIC_KEY'')
         else
           rbind (decodeBase64Key priv ''LOCAL_PRIVATE_KEY'') (\<lambda>privateBytes.
           rbind (decodeBase64Key pub ''LOCAL_PUBLIC_KEY'') (\<lambda>publicBytes.
           if list_all (\<lambda>b. b = 0) privateBytes \<or> list_all (\<lambda>b. b = 0) publicBytes
           then Inl (Err ''secure_mode keys must not be all-zero values'')
           else Inr (priv, pub, publicBytes))))"

definition read_networks :: "string option \<Rightarrow> error + (string, string) jsmap" where
  "read_networks v = (case Option.bind v JSON_parse of
     None \<Rightarrow> Inl (Err ''EASYTIER_NETWORKS must be a JSON array'')
   | Some (JArray vs) \<Rightarrow>
       (if vs = [] then Inl (Err ''EASYTIER_NETWORKS must configure at least one network'')
        else read_rooms [] vs)
   | Some _ \<Rightarrow> Inl (Err ''EASYTIER_NETWORKS must configure at least one network''))"

definition read_hostname :: "string option \<Rightarrow> error + string" where
  "read_hostname v =
     (let hostname = (case v of None \<Rightarrow> ''edge'' | Some h \<Rightarrow> h)
      in if hostname = [] \<or> 255 < length hostname
         then Inl (Err ''EASYTIER_HOSTNAME must be a non-empty string of at most 255 bytes'')
         else Inr hostname)"

definition readServerConfig :: "easytier_env \<Rightarrow> error + server_config" where
  "readServerConfig env =
     rbind (read_keys env) (\<lambda>(priv, pub, publicBytes).
     rbind (read_networks (EASYTIER_NETWORKS env)) (\<lambda>rooms.
     rbind (read_max_frame (MAX_FRAME_BYTES env)) (\<lambda>max_frame.
     rbind (read_hostname (EASYTIER_HOSTNAME env)) (\<lambda>hostname.
     Inr \<lparr>cfg_rooms = rooms, cfg_hostname = hostname, localPrivateKey = priv,
          localPublicKey = pub, localPublicKeyBytes = publicBytes, maxFrameBytes = max_frame\<rparr>))))"

subsection \<open>Accepted configurations\<close>

definition room_ok :: "string \<times> string \<Rightarrow> bool" where
  "room_ok r \<longleftrightarrow> fst r \<noteq> [] \<and> length (fst r) \<le> 255 \<and> snd r \<noteq> []"

definition config_ok :: "server_config \<Rightarrow> bool" where
  "config_ok c \<longleftrightarrow>
     cfg_rooms c \<noteq> [] \<and> m_ok (cfg_rooms c) \<and> list_all room_ok (cfg_rooms c)
   \<and> cfg_hostname c \<noteq> [] \<and> length (cfg_hostname c) \<le> 255
   \<and> length (localPublicKeyBytes c) = 32 \<and> \<not> list_all (\<lambda>b. b = 0) (localPublicKeyBytes c)
   \<and> 1024 \<le> maxFrameBytes c \<and> maxFrameBytes c \<le> 16777216"

lemma read_room_Inr:
  "read_room rooms v = Inr rooms' \<Longrightarrow>
     \<exists>n s. rooms' = rooms @ [(n, s)] \<and> room_ok (n, s) \<and> n \<notin> set (m_keys rooms)"
  by (auto simp: read_room_def room_ok_def m_put_append map_of_eq_None_iff
      split: json.splits option.splits if_splits)

lemma read_rooms_Inr:
  "read_rooms rooms vs = Inr rooms' \<Longrightarrow> m_ok rooms \<Longrightarrow> list_all room_ok rooms \<Longrightarrow>
     m_ok rooms' \<and> list_all room_ok rooms' \<and> length rooms' = length rooms + length vs"
proof (induction vs arbitrary: rooms)
  case (Cons v vs)
  from Cons.prems(1) obtain mid where mid: "read_room rooms v = Inr mid" "read_rooms mid vs = Inr rooms'"
    by (auto simp: rbind_Inr_iff)
  from read_room_Inr [OF mid(1)] Cons.prems have "m_ok mid \<and> list_all room_ok mid \<and> length mid = Suc (length rooms)"
    by auto
  with Cons.IH [OF mid(2)] show ?case by simp
qed simp

lemma read_max_frame_Inr: "read_max_frame v = Inr n \<Longrightarrow> 1024 \<le> n \<and> n \<le> 16777216"
  by (auto simp: read_max_frame_def Let_def split: option.splits if_splits)

lemma decodeBase64Key_Inr: "decodeBase64Key t name = Inr k \<longleftrightarrow> atob t = Some k \<and> length k = 32"
  by (auto simp: decodeBase64Key_def split: option.splits)

lemma read_keys_Inr:
  "read_keys env = Inr (priv, pub, k) \<Longrightarrow>
     LOCAL_PRIVATE_KEY env = Some priv \<and> LOCAL_PUBLIC_KEY env = Some pub
   \<and> decodeBase64Key pub ''LOCAL_PUBLIC_KEY'' = Inr k \<and> \<not> list_all (\<lambda>b. b = 0) k"
  by (auto simp: read_keys_def rbind_Inr_iff Let_def split: option.splits if_splits)

lemma read_networks_Inr:
  "read_networks v = Inr rooms \<Longrightarrow>
     \<exists>src vs. v = Some src \<and> JSON_parse src = Some (JArray vs) \<and> vs \<noteq> [] \<and> read_rooms [] vs = Inr rooms"
  by (auto simp: read_networks_def bind_eq_Some_conv split: option.splits json.splits if_splits)

lemma read_hostname_Inr: "read_hostname v = Inr h \<Longrightarrow> h \<noteq> [] \<and> length h \<le> 255"
  by (auto simp: read_hostname_def Let_def split: if_splits)

lemma readServerConfig_Inr:
  "readServerConfig env = Inr c \<longleftrightarrow>
     read_keys env = Inr (localPrivateKey c, localPublicKey c, localPublicKeyBytes c)
   \<and> read_networks (EASYTIER_NETWORKS env) = Inr (cfg_rooms c)
   \<and> read_max_frame (MAX_FRAME_BYTES env) = Inr (maxFrameBytes c)
   \<and> read_hostname (EASYTIER_HOSTNAME env) = Inr (cfg_hostname c)"
  by (cases c) (auto simp: readServerConfig_def rbind_Inr_iff)

text \<open>C27: A configuration the server starts with is sound: at least one room, no room name twice, every
  room name 1 to 255 bytes long with a non-empty secret, a 32-byte public key that is not all zero, a
  host name of 1 to 255 bytes, and a frame limit between 1 KiB and 16 MiB.\<close>

theorem accepted_config_is_sound:
  assumes "readServerConfig env = Inr c"
  shows "config_ok c"
proof -
  from assms have c: "read_keys env = Inr (localPrivateKey c, localPublicKey c, localPublicKeyBytes c)"
    "read_networks (EASYTIER_NETWORKS env) = Inr (cfg_rooms c)"
    "read_max_frame (MAX_FRAME_BYTES env) = Inr (maxFrameBytes c)"
    "read_hostname (EASYTIER_HOSTNAME env) = Inr (cfg_hostname c)"
    by (simp_all add: readServerConfig_Inr)
  from read_networks_Inr [OF c(2)] obtain vs where vs: "vs \<noteq> []" "read_rooms [] vs = Inr (cfg_rooms c)"
    by blast
  have "m_ok (cfg_rooms c) \<and> list_all room_ok (cfg_rooms c) \<and> length (cfg_rooms c) = length vs"
    using read_rooms_Inr [OF vs(2)] by simp
  moreover from this vs(1) have "cfg_rooms c \<noteq> []" by auto
  ultimately show ?thesis
    using read_keys_Inr [OF c(1)] read_max_frame_Inr [OF c(3)] read_hostname_Inr [OF c(4)]
    by (simp add: config_ok_def decodeBase64Key_Inr)
qed

definition room_json :: "string \<times> string \<Rightarrow> json" where
  "room_json r = JObject [(''network_name'', JString (fst r)), (''network_secret'', JString (snd r))]"

definition sample_env :: "(string \<times> string) list \<Rightarrow> easytier_env" where
  "sample_env rooms =
     \<lparr>EASYTIER_NETWORKS = Some (render (JArray (map room_json rooms))),
      LOCAL_PRIVATE_KEY = Some (b64_encode (replicate 32 1)),
      LOCAL_PUBLIC_KEY = Some (b64_encode (replicate 32 2)),
      EASYTIER_HOSTNAME = None, MAX_FRAME_BYTES = None\<rparr>"

lemma b64_encode_empty_iff [simp]: "b64_encode bs = [] \<longleftrightarrow> bs = []"
  by (cases bs rule: b64_encode.cases) auto

lemma read_rooms_json:
  "m_ok (acc @ rooms) \<Longrightarrow> list_all room_ok rooms \<Longrightarrow> read_rooms acc (map room_json rooms) = Inr (acc @ rooms)"
proof (induction rooms arbitrary: acc)
  case (Cons r rooms)
  have "m_get acc (fst r) = None" using Cons.prems by (auto simp: map_of_eq_None_iff)
  moreover from this have "m_put (fst r) (snd r) acc = acc @ [r]" by (simp add: m_put_append map_of_eq_None_iff)
  ultimately have "read_room acc (room_json r) = Inr (acc @ [r])"
    using Cons.prems by (auto simp: read_room_def room_json_def room_ok_def)
  with Cons show ?case by simp
qed simp

lemma writable_rooms: "writable (JArray (map room_json rooms))"
  by (induction rooms) (simp_all add: room_json_def)

lemma read_max_frame_default: "read_max_frame None = Inr 1048576"
  using double_of_int [of 1048576] by (simp add: read_max_frame_def is_safe_integer_def)

text \<open>C28: Every list of rooms that meets the documented limits can be configured, and the server then
  knows exactly these rooms, in order, with the default host name and frame limit: names and secrets
  survive the JSON text whatever characters they contain.\<close>

theorem configured_rooms_round_trip:
  assumes "rooms \<noteq> []" and "m_ok rooms" and "list_all room_ok rooms"
    and "EASYTIER_NETWORKS env = Some (render (JArray (map room_json rooms)))"
    and "LOCAL_PRIVATE_KEY env = Some priv" and "atob priv = Some pk" and "length pk = 32"
    and "LOCAL_PUBLIC_KEY env = Some pub" and "atob pub = Some qk" and "length qk = 32"
    and "\<not> list_all (\<lambda>b. b = 0) pk" and "\<not> list_all (\<lambda>b. b = 0) qk"
    and "EASYTIER_HOSTNAME env = None" and "MAX_FRAME_BYTES env = None"
  shows "readServerConfig env =
           Inr \<lparr>cfg_rooms = rooms, cfg_hostname = ''edge'', localPrivateKey = priv,
                localPublicKey = pub, localPublicKeyBytes = qk, maxFrameBytes = 1048576\<rparr>"
proof -
  have "priv \<noteq> []" "pub \<noteq> []"
    using assms by (auto simp: atob_def strip_padding_def)
  moreover have "JSON_parse (render (JArray (map room_json rooms))) = Some (JArray (map room_json rooms))"
    by (rule JSON_parse_render) (rule writable_rooms)
  ultimately show ?thesis
    using assms read_rooms_json [of "[]" rooms]
    by (simp add: readServerConfig_def read_keys_def read_networks_def read_hostname_def decodeBase64Key_def
        read_max_frame_default)
qed

definition sample_rooms :: "(string, string) jsmap" where
  "sample_rooms = [(''home'', ''s3cret''), (''lab'', [CHR 0x22])]"

lemma sample_rooms_facts [simp]: "sample_rooms \<noteq> []" "m_ok sample_rooms" "list_all room_ok sample_rooms"
  by (simp_all add: sample_rooms_def room_ok_def)

lemma sample_env_simps [simp]:
  "EASYTIER_NETWORKS (sample_env r) = Some (render (JArray (map room_json r)))"
  "LOCAL_PRIVATE_KEY (sample_env r) = Some (b64_encode (replicate 32 1))"
  "LOCAL_PUBLIC_KEY (sample_env r) = Some (b64_encode (replicate 32 2))"
  "EASYTIER_HOSTNAME (sample_env r) = None" "MAX_FRAME_BYTES (sample_env r) = None"
  by (simp_all add: sample_env_def)

lemma nonzero_key [simp]: "\<not> list_all (\<lambda>b. b = 0) (replicate 32 (1 :: u8))"
  "\<not> list_all (\<lambda>b. b = 0) (replicate 32 (2 :: u8))"
  by (simp_all add: list_all_iff)

definition sample_config :: server_config where
  "sample_config =
     \<lparr>cfg_rooms = sample_rooms, cfg_hostname = ''edge'', localPrivateKey = b64_encode (replicate 32 1),
      localPublicKey = b64_encode (replicate 32 2), localPublicKeyBytes = replicate 32 2,
      maxFrameBytes = 1048576\<rparr>"

lemma sample_env_config: "readServerConfig (sample_env sample_rooms) = Inr sample_config"
proof -
  have "JSON_parse (render (JArray (map room_json sample_rooms))) = Some (JArray (map room_json sample_rooms))"
    by (rule JSON_parse_render) (rule writable_rooms)
  then show ?thesis
    using read_rooms_json [of "[]" sample_rooms]
    by (simp add: readServerConfig_def read_keys_def read_networks_def read_hostname_def decodeBase64Key_def
        read_max_frame_default atob_encode sample_config_def del: render.simps)
qed

theorem configured_rooms_round_trip_witness:
  "readServerConfig (sample_env sample_rooms) = Inr sample_config
     \<and> m_get (cfg_rooms sample_config) ''home'' = Some ''s3cret''"
proof -
  have "readServerConfig (sample_env sample_rooms) = Inr sample_config"
    unfolding sample_config_def
    by (rule configured_rooms_round_trip [where pk = "replicate 32 1"]) (simp_all add: atob_encode)
  then show ?thesis by (simp add: sample_config_def sample_rooms_def)
qed

theorem accepted_config_is_sound_witness: "config_ok sample_config"
  by (rule accepted_config_is_sound) (rule sample_env_config)

end
