(* ===== verification/Messages.thy ===== *)
theory Messages
  imports Json_Write Base64
begin

text \<open>
  \<open>cloudflare/src/runtime/messages.ts\<close>: how the server reads the JSON that the Rust side returns from
  the two handshake steps.  A property that is absent is \<open>None\<close> (\<open>undefined\<close>).
\<close>

record handshake_info =
  hi_peerId :: u32
  hi_networkName :: string

record authentication_info =
  ai_peerId :: u32
  ai_networkName :: string
  ai_remotePublicKey :: bytes

definition parseObject :: "string \<Rightarrow> string \<Rightarrow> error + (string, json) jsmap" where
  "parseObject text operation = (case JSON_parse text of
     None \<Rightarrow> Inl (Err (operation @ '' is not valid JSON''))
   | Some (JObject ms) \<Rightarrow> Inr ms
   | Some _ \<Rightarrow> Inl (Err (operation @ '' must be a JSON object'')))"

definition readPeerId :: "json option \<Rightarrow> string \<Rightarrow> error + u32" where
  "readPeerId value field =
     (let bad = Inl (Err (field @ '' must be a non-zero u32 peer id''))
      in case value of
           Some (JNumber x) \<Rightarrow>
             (case num_int x of
                None \<Rightarrow> bad
              | Some v \<Rightarrow> (if v \<le> 0 \<or> 0xffffffff < v then bad else Inr (of_int v)))
         | _ \<Rightarrow> bad)"

definition readString :: "json option \<Rightarrow> string \<Rightarrow> error + string" where
  "readString value field = (case value of
     Some (JString s) \<Rightarrow> (if s = [] then Inl (Err (field @ '' must be a non-empty string'')) else Inr s)
   | _ \<Rightarrow> Inl (Err (field @ '' must be a non-empty string'')))"

definition decodePublicKey :: "string \<Rightarrow> error + bytes" where
  "decodePublicKey base64 = (case atob base64 of
     None \<Rightarrow> Inl (Err ''remote_public_key_base64 is not valid base64'')
   | Some key \<Rightarrow>
       (if length key \<noteq> 32 then Inl (Err ''remote_public_key_base64 must decode to 32 bytes'')
        else Inr key))"

definition parseHandshakeInfo :: "string \<Rightarrow> error + handshake_info" where
  "parseHandshakeInfo text =
     rbind (parseObject text ''NoiseHandshakeMsg1 result'') (\<lambda>value.
     rbind (readString (m_get value ''client_encryption_algorithm'') ''client_encryption_algorithm'') (\<lambda>_.
     rbind (readPeerId (m_get value ''peer_id'') ''peer_id'') (\<lambda>peerId.
     rbind (readString (m_get value ''network_name'') ''network_name'') (\<lambda>networkName.
     Inr \<lparr>hi_peerId = peerId, hi_networkName = networkName\<rparr>))))"

definition parseAuthenticationInfo :: "string \<Rightarrow> error + authentication_info" where
  "parseAuthenticationInfo text =
     rbind (parseObject text ''NoiseHandshakeMsg3 result'') (\<lambda>value.
     if m_get value ''auth_level'' \<noteq> Some (JString ''NetworkSecretConfirmed'')
     then Inl (Err ''secure handshake did not confirm the network secret'')
     else
     rbind (readPeerId (m_get value ''peer_id'') ''peer_id'') (\<lambda>peerId.
     rbind (readString (m_get value ''network_name'') ''network_name'') (\<lambda>networkName.
     rbind (readString (m_get value ''remote_public_key_base64'') ''remote_public_key_base64'') (\<lambda>base64.
     rbind (decodePublicKey base64) (\<lambda>key.
     Inr \<lparr>ai_peerId = peerId, ai_networkName = networkName, ai_remotePublicKey = key\<rparr>)))))"

subsection \<open>What is accepted\<close>

lemma readString_Inr: "readString v field = Inr s \<longleftrightarrow> v = Some (JString s) \<and> s \<noteq> []"
  by (auto simp: readString_def split: option.splits json.splits if_splits)

lemma readPeerId_Inr:
  "readPeerId v field = Inr p \<longleftrightarrow>
     (\<exists>x i. v = Some (JNumber x) \<and> num_int x = Some i \<and> 0 < i \<and> i \<le> 0xffffffff \<and> p = of_int i)"
  by (auto simp: readPeerId_def Let_def split: option.splits json.splits if_splits)

lemma readPeerId_Inr_nonzero: "readPeerId v field = Inr p \<Longrightarrow> p \<noteq> 0"
proof
  assume "readPeerId v field = Inr p" and "p = 0"
  then obtain i where i: "0 < i" "i \<le> 0xffffffff" "(of_int i :: u32) = 0"
    by (auto simp: readPeerId_Inr)
  have "uint (of_int i :: u32) = i mod 2 ^ 32" by (simp add: unsigned_of_int take_bit_eq_mod)
  with i have "i mod 2 ^ 32 = 0" by simp
  with i show False by (auto simp: mod_pos_pos_trivial)
qed

text \<open>The number that a \<open>u32\<close> becomes in a JSON text.\<close>

definition json_u32 :: "u32 \<Rightarrow> json" where
  "json_u32 p = JNumber (double_of_ratio False (uint p) 1)"

lemma uint_small: "uint (p :: u32) < 2 ^ 53"
  using uint_lt2p [of p] by simp

lemma writable_json_u32 [simp]: "writable (json_u32 p)"
  using uint_small [of p] by (simp add: json_u32_def double_of_int)

lemma readPeerId_json_u32: "p \<noteq> 0 \<Longrightarrow> readPeerId (Some (json_u32 p)) field = Inr p"
proof -
  assume "p \<noteq> 0"
  then have "0 < uint p" by (metis uint_0_iff uint_nonnegative order_le_less)
  moreover have "uint p \<le> 0xffffffff" using uint_lt2p [of p] by simp
  ultimately show ?thesis
    using uint_small [of p] by (simp add: readPeerId_def json_u32_def double_of_int Let_def)
qed

lemma decodePublicKey_Inr: "decodePublicKey t = Inr k \<longleftrightarrow> atob t = Some k \<and> length k = 32"
  by (auto simp: decodePublicKey_def split: option.splits)

lemma parseObject_Inr: "parseObject t op = Inr ms \<longleftrightarrow> JSON_parse t = Some (JObject ms)"
  by (auto simp: parseObject_def split: option.splits json.splits)

text \<open>C29: The server accepts a handshake result exactly when it is a JSON object that says
  \<open>NetworkSecretConfirmed\<close>, names a non-zero 32-bit peer and a non-empty network, and carries a
  base64 key of exactly 32 bytes.\<close>

theorem authentication_info_accepted_iff:
  "parseAuthenticationInfo t = Inr a \<longleftrightarrow>
     (\<exists>ms x i key64. JSON_parse t = Some (JObject ms)
        \<and> m_get ms ''auth_level'' = Some (JString ''NetworkSecretConfirmed'')
        \<and> m_get ms ''peer_id'' = Some (JNumber x) \<and> num_int x = Some i \<and> 0 < i \<and> i \<le> 0xffffffff
        \<and> ai_peerId a = of_int i
        \<and> m_get ms ''network_name'' = Some (JString (ai_networkName a)) \<and> ai_networkName a \<noteq> []
        \<and> m_get ms ''remote_public_key_base64'' = Some (JString key64) \<and> key64 \<noteq> []
        \<and> atob key64 = Some (ai_remotePublicKey a) \<and> length (ai_remotePublicKey a) = 32)"
  by (cases a) (auto simp: parseAuthenticationInfo_def rbind_Inr_iff parseObject_Inr readString_Inr
      readPeerId_Inr decodePublicKey_Inr)

end
