(* ===== verification/Secure_Session.thy ===== *)
theory Secure_Session
  imports Packet Traffic Messages
begin

text \<open>
  The handshake and the session store of \<open>cloudflare/wasm/src/secure.rs\<close>.

  A \<open>SecurePeer\<close> belongs to one connection; its record extends \<open>traffic\<close>.  \<open>SESSION_STORE\<close> is shared by
  all connections of the isolate and outlives them, so that a reconnecting peer can resume.  A
  method runs on the context \<open>sec\<close>: the peer, the store, and the number of calls made to the random
  generator.  A method that fails keeps what it had changed.

  Crates are fields of the parameter \<open>lib\<close>: the Noise implementation (\<open>snow\<close>, an opaque state
  \<open>'hs\<close>; the pattern, the prologue and the 4096-byte buffers are fixed in the code), X25519, base64,
  the generated protobuf codecs of the three handshake messages, \<open>serde_json\<close>, and \<open>getrandom\<close>, where
  \<open>entropy lib k n\<close> is the result of the \<open>k\<close>-th request, for \<open>n\<close> bytes.
\<close>

subsection \<open>Messages and libraries\<close>

datatype session_action = Join | Sync | Create

record noise_msg1 =
  m1_version :: u32
  a_network_name :: string
  m1_session_generation :: "u32 option"
  m1_conn_id :: "uuid option"
  client_encryption_algorithm :: string

record noise_msg2 =
  b_network_name :: string
  role_hint :: u32
  action :: session_action
  b_session_generation :: u32
  root_key_32 :: "bytes option"
  m2_initial_epoch :: u32
  m2_b_conn_id :: "uuid option"
  m2_a_conn_id_echo :: "uuid option"
  m2_secret_proof_32 :: "bytes option"
  server_encryption_algorithm :: string

record noise_msg3 =
  a_conn_id_echo :: "uuid option"
  b_conn_id_echo :: "uuid option"
  secret_proof_32 :: "bytes option"

record 'hs lib =
  lib_crypto :: crypto
  noise_responder :: "bytes \<Rightarrow> error + 'hs"
  noise_read :: "'hs \<Rightarrow> bytes \<Rightarrow> (error + bytes) \<times> 'hs"
  noise_write :: "'hs \<Rightarrow> bytes \<Rightarrow> (error + bytes) \<times> 'hs"
  noise_hash :: "'hs \<Rightarrow> bytes"
  noise_remote_static :: "'hs \<Rightarrow> bytes option"
  x25519_public :: "bytes \<Rightarrow> bytes"
  base64_decode :: "string \<Rightarrow> bytes option"
  base64_encode :: "bytes \<Rightarrow> string"
  decode_msg1 :: "bytes \<Rightarrow> error + noise_msg1"
  encode_msg2 :: "noise_msg2 \<Rightarrow> bytes"
  decode_msg3 :: "bytes \<Rightarrow> error + noise_msg3"
  to_json :: "json \<Rightarrow> error + string"
  entropy :: "nat \<Rightarrow> nat \<Rightarrow> error + bytes"

definition EASYTIER_PROTOCOL_VERSION :: u32 where "EASYTIER_PROTOCOL_VERSION = 1"
definition SERVER_ENCRYPTION_ALGORITHM :: string where "SERVER_ENCRYPTION_ALGORITHM = ''aes-gcm''"
definition PACKET_NOISE_MSG1 :: u8 where "PACKET_NOISE_MSG1 = 13"
definition PACKET_NOISE_MSG2 :: u8 where "PACKET_NOISE_MSG2 = 14"
definition SYNC_RX_GRACE_AFTER_MS :: u64 where "SYNC_RX_GRACE_AFTER_MS = 5000"
definition SESSION_IDLE_MS :: u64 where "SESSION_IDLE_MS = 60000"
definition MAX_STORED_SESSIONS :: nat where "MAX_STORED_SESSIONS = 2048"

subsection \<open>State\<close>

record session_key =
  sk_network_name :: string
  sk_peer_id :: u32
  sk_server_peer_id :: u32
  sk_server_public_key :: bytes

record stored_session =
  st_root_key :: bytes
  st_generation :: u32
  st_next_epoch :: u32
  st_send_seq :: "u64 list"
  st_send_epoch_started_ms :: u64
  st_send_packets_since_epoch :: u64
  st_rx_slots :: "rx_slot list list"
  st_sync_rx_grace :: sync_grace
  st_decrypt_fail_count :: u32
  st_client_algorithm :: string
  st_remote_public_key :: "bytes option"
  st_last_touch_ms :: u64
  st_attachments :: u32

type_synonym store = "(session_key, stored_session) jsmap"

record session_selection =
  sel_action :: session_action
  sel_generation :: u32
  root_key_for_peer :: "bytes option"
  session_root_key :: bytes
  sel_initial_epoch :: u32

record 'hs secure_peer = traffic +
  local_private :: bytes
  local_public :: bytes
  server_peer_id :: u32
  peer_id :: "u32 option"
  network_name :: "string option"
  client_algorithm :: "string option"
  a_session_generation :: "u32 option"
  a_conn_id :: "uuid option"
  b_conn_id :: "uuid option"
  handshake :: "'hs option"
  proof_challenge :: "bytes option"
  network_secret :: "bytes option"
  session_key_of :: "session_key option"
  session_attached :: bool
  authenticated :: bool

record 'hs sec =
  sc_peer :: "'hs secure_peer"
  sc_store :: store
  sc_draws :: nat

definition on_peer :: "('hs secure_peer, 'a) op \<Rightarrow> ('hs sec, 'a) op" where
  "on_peer m = (\<lambda>s. case m (sc_peer s) of (r, p) \<Rightarrow> (r, s\<lparr>sc_peer := p\<rparr>))"

definition peer_get :: "('hs secure_peer \<Rightarrow> 'a) \<Rightarrow> ('hs sec, 'a) op" where
  "peer_get f = mget (\<lambda>s. f (sc_peer s))"

definition peer_mod :: "('hs secure_peer \<Rightarrow> 'hs secure_peer) \<Rightarrow> ('hs sec, unit) op" where
  "peer_mod f = mmod (\<lambda>s. s\<lparr>sc_peer := f (sc_peer s)\<rparr>)"

text \<open>A field that must be set: \<open>self.field.ok_or_else(|| error)\<close>.\<close>

definition peer_need :: "('hs secure_peer \<Rightarrow> 'a option) \<Rightarrow> string \<Rightarrow> ('hs sec, 'a) op" where
  "peer_need f message = mtry (\<lambda>s. ok_or (Err message) (f (sc_peer s)))"

definition fill_random :: "'hs lib \<Rightarrow> nat \<Rightarrow> ('hs sec, bytes) op" where
  "fill_random lib n = (\<lambda>s. (entropy lib (sc_draws s) n, s\<lparr>sc_draws := Suc (sc_draws s)\<rparr>))"

definition random_uuid :: "'hs lib \<Rightarrow> ('hs sec, uuid) op" where
  "random_uuid lib =
     mbind (fill_random lib 16) (\<lambda>bs.
     mret \<lparr>part1 = u32_from_be (take 4 bs), part2 = u32_from_be (take 4 (drop 4 bs)),
           part3 = u32_from_be (take 4 (drop 8 bs)), part4 = u32_from_be (take 4 (drop 12 bs))\<rparr>)"

subsection \<open>Construction\<close>

definition decode_key :: "'hs lib \<Rightarrow> string \<Rightarrow> error + bytes" where
  "decode_key lib value = (case base64_decode lib value of
     None \<Rightarrow> Inl (Err ''local key is not valid base64'')
   | Some decoded \<Rightarrow>
       (if length decoded \<noteq> 32 then Inl (Err ''local key must decode to 32 bytes'') else Inr decoded))"

definition new_peer :: "'hs lib \<Rightarrow> u64 \<Rightarrow> string \<Rightarrow> string \<Rightarrow> u32 \<Rightarrow> error + 'hs secure_peer" where
  "new_peer lib now_ms priv64 pub64 server_id =
     (if server_id = 0 then Inl (Err ''server peer id must not be zero'')
      else
        rbind (decode_key lib priv64) (\<lambda>private_key.
        rbind (decode_key lib pub64) (\<lambda>configured_public.
        if x25519_public lib private_key \<noteq> configured_public
        then Inl (Err ''local_public_key does not match local_private_key'')
        else Inr
          \<lparr>root_key = None, send_epoch = 0, send_seq = [0, 0], send_epoch_started_ms = now_ms,
           send_packets_since_epoch = 0, rx_slots = slots_default, sync_rx_grace = grace_default,
           decrypt_fail_count = 0,
           local_private = private_key, local_public = configured_public, server_peer_id = server_id,
           peer_id = None, network_name = None, client_algorithm = None, a_session_generation = None,
           a_conn_id = None, b_conn_id = None, handshake = None, proof_challenge = None,
           network_secret = None, session_key_of = None, session_attached = False,
           authenticated = False\<rparr>)))"

definition split_packet :: "bytes \<Rightarrow> error + (packet_header \<times> bytes)" where
  "split_packet b = rbind (parse_packet b) (\<lambda>h. Inr (h, drop HEADER_SIZE b))"

definition join_header_payload :: "packet_header \<Rightarrow> bytes \<Rightarrow> bytes" where
  "join_header_payload h payload = to_bytes h @ payload"

definition wrap_packet :: "u32 \<Rightarrow> u32 \<Rightarrow> u8 \<Rightarrow> u8 \<Rightarrow> bytes \<Rightarrow> bytes" where
  "wrap_packet from to ptype fl payload =
     join_header_payload
       \<lparr>from_peer_id = from, to_peer_id = to, packet_type = ptype, flags = fl, forward_counter = 1,
        reserved = 0, len = of_nat (length payload)\<rparr> payload"

subsection \<open>Message 1\<close>

definition msg1_info :: "u32 \<Rightarrow> string \<Rightarrow> string \<Rightarrow> json" where
  "msg1_info p name alg =
     JObject [(''peer_id'', json_u32 p), (''network_name'', JString name),
              (''client_encryption_algorithm'', JString alg)]"

definition read_msg1 :: "'hs lib \<Rightarrow> bytes \<Rightarrow> ('hs sec, string) op" where
  "read_msg1 lib packet =
     mbind (peer_get (\<lambda>p. handshake p \<noteq> None \<or> authenticated p)) (\<lambda>started.
     if started then mraise (Err ''handshake already started'')
     else
       mbind (mlift (split_packet packet)) (\<lambda>(header, payload).
       if packet_type header \<noteq> PACKET_NOISE_MSG1 \<or> encrypted header
       then mraise (Err ''secure mode requires an unencrypted NoiseHandshakeMsg1'')
       else
         mbind (peer_get server_peer_id) (\<lambda>server_id.
         if from_peer_id header = 0 \<or> from_peer_id header = server_id
         then mraise (Err ''invalid or conflicting client peer id'')
         else
           mbind (peer_get local_private) (\<lambda>key.
           mbind (mlift (noise_responder lib key)) (\<lambda>hs.
           case noise_read lib hs payload of (decoded, hs) \<Rightarrow>
           mbind (mlift decoded) (\<lambda>decoded.
           mbind (mlift (decode_msg1 lib decoded)) (\<lambda>message.
           if m1_version message \<noteq> EASYTIER_PROTOCOL_VERSION
           then mraise (Err ''unsupported EasyTier secure handshake version'')
           else if a_network_name message = [] \<or> 255 < length (a_network_name message)
           then mraise (Err ''invalid network_name'')
           else
             mbind (mlift (validate_algorithm (client_encryption_algorithm message))) (\<lambda>_.
             mbind (peer_mod (\<lambda>p. p\<lparr>peer_id := Some (from_peer_id header),
                                    network_name := Some (a_network_name message),
                                    client_algorithm := Some (client_encryption_algorithm message),
                                    a_session_generation := m1_session_generation message,
                                    a_conn_id := m1_conn_id message,
                                    handshake := Some hs\<rparr>)) (\<lambda>_.
             mlift (to_json lib (msg1_info (from_peer_id header) (a_network_name message)
                                   (client_encryption_algorithm message))))))))))))"

subsection \<open>The session store\<close>

definition session_live :: "u64 \<Rightarrow> stored_session \<Rightarrow> bool" where
  "session_live now_ms x \<longleftrightarrow>
     0 < st_attachments x \<or> sat_sub now_ms (st_last_touch_ms x) < SESSION_IDLE_MS"

text \<open>The epoch a \<open>Sync\<close> starts from: the largest of the sending epoch and the valid receive slots.\<close>

definition sync_epoch :: "stored_session \<Rightarrow> u32" where
  "sync_epoch x =
     fold (\<lambda>slot e. if slot_valid slot then max e (slot_epoch slot) else e)
       (concat (st_rx_slots x)) (st_next_epoch x)"

definition sync_session :: "u64 \<Rightarrow> stored_session \<Rightarrow> stored_session" where
  "sync_session now_ms x =
     x\<lparr>st_next_epoch := sync_epoch x + 1,
       st_send_seq := [0, 0],
       st_send_epoch_started_ms := now_ms,
       st_send_packets_since_epoch := 0,
       st_sync_rx_grace := \<lparr>grace_slots = st_rx_slots x,
                            expires_at_ms = sat_add now_ms SYNC_RX_GRACE_AFTER_MS,
                            grace_valid = True\<rparr>,
       st_rx_slots := slots_default,
       st_decrypt_fail_count := 0,
       st_last_touch_ms := now_ms\<rparr>"

definition new_session :: "u64 \<Rightarrow> bytes \<Rightarrow> string \<Rightarrow> stored_session" where
  "new_session now_ms key alg =
     \<lparr>st_root_key = key, st_generation = 1, st_next_epoch = 0, st_send_seq = [0, 0],
      st_send_epoch_started_ms = now_ms, st_send_packets_since_epoch = 0,
      st_rx_slots = slots_default, st_sync_rx_grace = grace_default, st_decrypt_fail_count = 0,
      st_client_algorithm = alg, st_remote_public_key = None, st_last_touch_ms = now_ms,
      st_attachments = 0\<rparr>"

definition store_put :: "session_key \<Rightarrow> stored_session \<Rightarrow> ('hs sec, unit) op" where
  "store_put k x = mmod (\<lambda>s. s\<lparr>sc_store := m_put k x (sc_store s)\<rparr>)"

definition upsert_session ::
  "'hs lib \<Rightarrow> u64 \<Rightarrow> session_key \<Rightarrow> u32 option \<Rightarrow> string \<Rightarrow> ('hs sec, session_selection) op" where
  "upsert_session lib now_ms key generation alg =
     mbind (mmod (\<lambda>s. s\<lparr>sc_store := m_retain (\<lambda>_. session_live now_ms) (sc_store s)\<rparr>)) (\<lambda>_.
     mbind (mget (\<lambda>s. (m_get (sc_store s) key, length (sc_store s)))) (\<lambda>(existing, session_count).
     case existing of
       Some session \<Rightarrow>
         (if st_client_algorithm session \<noteq> alg
          then mraise (Err ''reconnecting peer changed its secure-session encryption algorithm'')
          else if generation = Some (st_generation session)
          then mbind (store_put key (session\<lparr>st_last_touch_ms := now_ms\<rparr>)) (\<lambda>_.
               mret \<lparr>sel_action = Join, sel_generation = st_generation session,
                     root_key_for_peer = None, session_root_key = st_root_key session,
                     sel_initial_epoch = 0\<rparr>)
          else let session = sync_session now_ms session
               in mbind (store_put key session) (\<lambda>_.
                  mret \<lparr>sel_action = Sync, sel_generation = st_generation session,
                        root_key_for_peer = Some (st_root_key session),
                        session_root_key = st_root_key session,
                        sel_initial_epoch = st_next_epoch session\<rparr>))
     | None \<Rightarrow>
         (if MAX_STORED_SESSIONS \<le> session_count
          then mraise (Err ''secure peer session capacity exceeded'')
          else
            mbind (fill_random lib 32) (\<lambda>key_bytes.
            mbind (store_put key (new_session now_ms key_bytes alg)) (\<lambda>_.
            mret \<lparr>sel_action = Create, sel_generation = 1, root_key_for_peer = Some key_bytes,
                  session_root_key = key_bytes, sel_initial_epoch = 0\<rparr>)))))"

text \<open>The stored session of the peer: read, or updated in place; both fail if it is gone.\<close>

definition stored_of :: "string \<Rightarrow> ('hs sec, session_key \<times> stored_session) op" where
  "stored_of message =
     mbind (peer_need session_key_of ''secure session key is missing'') (\<lambda>key.
     mbind (mtry (\<lambda>s. ok_or (Err message) (m_get (sc_store s) key))) (\<lambda>session.
     mret (key, session)))"

definition attach_session :: "u64 \<Rightarrow> ('hs sec, unit) op" where
  "attach_session now_ms =
     mbind (stored_of ''secure session disappeared while attaching connection'') (\<lambda>(key, session).
     mbind (mlift (ok_or (Err ''secure session attachment count exhausted'')
                     (checked_add (st_attachments session) 1))) (\<lambda>n.
     mbind (store_put key (session\<lparr>st_attachments := n, st_last_touch_ms := now_ms\<rparr>)) (\<lambda>_.
     peer_mod (\<lambda>p. p\<lparr>session_attached := True\<rparr>))))"

definition load_from :: "stored_session \<Rightarrow> 'hs secure_peer \<Rightarrow> 'hs secure_peer" where
  "load_from x p =
     p\<lparr>root_key := Some (st_root_key x), send_epoch := st_next_epoch x, send_seq := st_send_seq x,
       send_epoch_started_ms := st_send_epoch_started_ms x,
       send_packets_since_epoch := st_send_packets_since_epoch x,
       rx_slots := st_rx_slots x, sync_rx_grace := st_sync_rx_grace x,
       decrypt_fail_count := st_decrypt_fail_count x\<rparr>"

definition load_session_state :: "('hs sec, unit) op" where
  "load_session_state =
     mbind (stored_of ''secure session disappeared while loading state'') (\<lambda>(key, session).
     peer_mod (load_from session))"

definition save_to :: "u64 \<Rightarrow> 'hs secure_peer \<Rightarrow> stored_session \<Rightarrow> stored_session" where
  "save_to now_ms p x =
     x\<lparr>st_next_epoch := send_epoch p, st_send_seq := send_seq p,
       st_send_epoch_started_ms := send_epoch_started_ms p,
       st_send_packets_since_epoch := send_packets_since_epoch p,
       st_rx_slots := rx_slots p, st_sync_rx_grace := sync_rx_grace p,
       st_decrypt_fail_count := decrypt_fail_count p, st_last_touch_ms := now_ms\<rparr>"

definition persist_session_state :: "u64 \<Rightarrow> ('hs sec, unit) op" where
  "persist_session_state now_ms =
     mbind (stored_of ''secure session disappeared while saving state'') (\<lambda>(key, session).
     mbind (peer_get (\<lambda>p. save_to now_ms p session)) (store_put key))"

definition confirm_session_public_key :: "u64 \<Rightarrow> session_key \<Rightarrow> bytes \<Rightarrow> ('hs sec, unit) op" where
  "confirm_session_public_key now_ms key remote =
     mbind (mtry (\<lambda>s. ok_or (Err ''secure session disappeared during authentication'')
                       (m_get (sc_store s) key))) (\<lambda>session.
     if st_remote_public_key session \<noteq> None \<and> st_remote_public_key session \<noteq> Some remote
     then mraise (Err ''reconnecting peer changed its Noise static public key'')
     else store_put key (session\<lparr>st_remote_public_key := Some remote, st_last_touch_ms := now_ms\<rparr>))"

definition drop_peer :: "u64 \<Rightarrow> 'hs secure_peer \<Rightarrow> store \<Rightarrow> store" where
  "drop_peer now_ms p store =
     (case (session_attached p, session_key_of p) of
        (True, Some key) \<Rightarrow>
          (case m_get store key of
             Some session \<Rightarrow>
               m_put key (session\<lparr>st_attachments := sat_sub (st_attachments session) 1,
                                  st_last_touch_ms := now_ms\<rparr>) store
           | None \<Rightarrow> store)
      | _ \<Rightarrow> store)"

subsection \<open>Messages 2 and 3\<close>

definition proof_label :: bytes where
  "proof_label = ascii ''easytier secret proof''"

definition secret_proof :: "'hs lib \<Rightarrow> bytes \<Rightarrow> bytes \<Rightarrow> bytes" where
  "secret_proof lib secret challenge = hmac_sha256 (lib_crypto lib) secret (proof_label @ challenge)"

definition noise_msg2_of ::
  "'hs secure_peer \<Rightarrow> string \<Rightarrow> session_selection \<Rightarrow> uuid \<Rightarrow> bytes \<Rightarrow> noise_msg2" where
  "noise_msg2_of p name session conn_id proof_bytes =
     \<lparr>b_network_name = name, role_hint = 1, action = sel_action session,
      b_session_generation = sel_generation session, root_key_32 = root_key_for_peer session,
      m2_initial_epoch = sel_initial_epoch session, m2_b_conn_id = Some conn_id,
      m2_a_conn_id_echo = a_conn_id p, m2_secret_proof_32 = Some proof_bytes,
      server_encryption_algorithm = SERVER_ENCRYPTION_ALGORITHM\<rparr>"

definition write_handshake :: "'hs lib \<Rightarrow> bytes \<Rightarrow> ('hs sec, bytes) op" where
  "write_handshake lib message =
     mbind (peer_need handshake ''message 1 not received'') (\<lambda>hs.
     case noise_write lib hs message of (r, hs) \<Rightarrow>
     mbind (peer_mod (\<lambda>p. p\<lparr>handshake := Some hs\<rparr>)) (\<lambda>_. mlift r))"

definition session_key_for :: "'hs secure_peer \<Rightarrow> string \<Rightarrow> u32 \<Rightarrow> session_key" where
  "session_key_for p name pid =
     \<lparr>sk_network_name = name, sk_peer_id = pid, sk_server_peer_id = server_peer_id p,
      sk_server_public_key = local_public p\<rparr>"

definition build_msg2 :: "'hs lib \<Rightarrow> u64 \<Rightarrow> string \<Rightarrow> ('hs sec, bytes) op" where
  "build_msg2 lib now_ms secret =
     (if secret = [] then mraise (Err ''network_secret must not be empty'')
      else
        mbind (peer_get session_key_of) (\<lambda>built.
        if built \<noteq> None then mraise (Err ''message 2 was already built'')
        else
          mbind (peer_need peer_id ''message 1 not received'') (\<lambda>pid.
          mbind (peer_need network_name ''message 1 has no network'') (\<lambda>name.
          mbind (peer_need handshake ''message 1 not received'') (\<lambda>hs.
          mbind (peer_get (\<lambda>p. session_key_for p name pid)) (\<lambda>key.
          let proof_bytes = secret_proof lib (ascii secret) (noise_hash lib hs)
          in
          mbind (peer_need client_algorithm ''message 1 has no encryption algorithm'') (\<lambda>alg.
          mbind (peer_get a_session_generation) (\<lambda>generation.
          mbind (upsert_session lib now_ms key generation alg) (\<lambda>session.
          mbind (random_uuid lib) (\<lambda>conn_id.
          mbind (peer_get (\<lambda>p. encode_msg2 lib (noise_msg2_of p name session conn_id proof_bytes))) (\<lambda>message.
          mbind (write_handshake lib message) (\<lambda>noise_message.
          mbind (peer_mod (\<lambda>p. p\<lparr>proof_challenge := map_option (noise_hash lib) (handshake p),
                                 network_secret := Some (ascii secret),
                                 root_key := Some (session_root_key session),
                                 session_key_of := Some key\<rparr>)) (\<lambda>_.
          mbind (attach_session now_ms) (\<lambda>_.
          mbind load_session_state (\<lambda>_.
          mbind (peer_mod (\<lambda>p. p\<lparr>b_conn_id := Some conn_id\<rparr>)) (\<lambda>_.
          mret (wrap_packet (sk_server_peer_id key) pid PACKET_NOISE_MSG2 0 noise_message)))))))))))))))))"

definition auth_info :: "'hs lib \<Rightarrow> u32 \<Rightarrow> string \<Rightarrow> bytes \<Rightarrow> json" where
  "auth_info lib p name remote =
     JObject [(''peer_id'', json_u32 p), (''network_name'', JString name),
              (''remote_public_key_base64'', JString (base64_encode lib remote)),
              (''auth_level'', JString ''NetworkSecretConfirmed'')]"

definition verify_msg3 :: "'hs lib \<Rightarrow> 'hs secure_peer \<Rightarrow> noise_msg3 \<Rightarrow> error + unit" where
  "verify_msg3 lib p message =
     (if a_conn_id_echo message \<noteq> a_conn_id p \<or> b_conn_id_echo message \<noteq> b_conn_id p
      then Inl (Err ''Noise connection id echo mismatch'')
      else
        rbind (ok_or (Err ''client did not provide a network-secret proof'') (secret_proof_32 message)) (\<lambda>proof_bytes.
        rbind (ok_or (Err ''network secret is not selected'') (network_secret p)) (\<lambda>secret.
        rbind (ok_or (Err ''proof challenge is missing'') (proof_challenge p)) (\<lambda>challenge.
        if proof_bytes \<noteq> secret_proof lib secret challenge
        then Inl (Err ''network-secret proof verification failed'')
        else Inr ()))))"

definition remote_static_key :: "'hs lib \<Rightarrow> 'hs \<Rightarrow> error + bytes" where
  "remote_static_key lib hs =
     ok_or (Err ''client Noise static public key is missing'')
       (case noise_remote_static lib hs of
          Some k \<Rightarrow> if length k = 32 then Some k else None | None \<Rightarrow> None)"

text \<open>Everything up to \<open>self.authenticated = true\<close>, then the rest.\<close>

definition msg3_checked :: "'hs lib \<Rightarrow> u64 \<Rightarrow> bytes \<Rightarrow> ('hs sec, u32 \<times> bytes) op" where
  "msg3_checked lib now_ms packet =
     mbind (mlift (split_packet packet)) (\<lambda>(header, payload).
     mbind (peer_need peer_id ''message 1 not received'') (\<lambda>pid.
     mbind (peer_get server_peer_id) (\<lambda>server_id.
     if packet_type header \<noteq> 15 \<or> from_peer_id header \<noteq> pid \<or> to_peer_id header \<noteq> server_id
        \<or> encrypted header
     then mraise (Err ''invalid NoiseHandshakeMsg3 envelope'')
     else
       mbind (peer_get handshake) (\<lambda>taken.
       mbind (peer_mod (\<lambda>p. p\<lparr>handshake := None\<rparr>)) (\<lambda>_.
       mbind (mlift (ok_or (Err ''message 2 not sent'') taken)) (\<lambda>hs.
       case noise_read lib hs payload of (decoded, hs) \<Rightarrow>
       mbind (mlift decoded) (\<lambda>decoded.
       mbind (mlift (decode_msg3 lib decoded)) (\<lambda>message.
       mbind (mtry (\<lambda>s. verify_msg3 lib (sc_peer s) message)) (\<lambda>_.
       mbind (mlift (remote_static_key lib hs)) (\<lambda>remote.
       mbind (peer_need session_key_of ''secure session key is missing'') (\<lambda>key.
       mbind (confirm_session_public_key now_ms key remote) (\<lambda>_.
       mret (pid, remote)))))))))))))"

definition finish_msg3 :: "'hs lib \<Rightarrow> u64 \<Rightarrow> bytes \<Rightarrow> ('hs sec, string) op" where
  "finish_msg3 lib now_ms packet =
     mbind (msg3_checked lib now_ms packet) (\<lambda>(pid, remote).
     mbind (peer_mod (\<lambda>p. p\<lparr>authenticated := True\<rparr>)) (\<lambda>_.
     mtry (\<lambda>s. to_json lib (auth_info lib pid
             (case network_name (sc_peer s) of None \<Rightarrow> [] | Some n \<Rightarrow> n) remote))))"

subsection \<open>Direct packets\<close>

definition ensure_authenticated :: "('hs sec, unit) op" where
  "ensure_authenticated = mtry (\<lambda>s.
     if authenticated (sc_peer s) \<and> root_key (sc_peer s) \<noteq> None then Inr ()
     else Inl (Err ''secure session is not authenticated''))"

definition decrypt_packet :: "'hs lib \<Rightarrow> u64 \<Rightarrow> bytes \<Rightarrow> ('hs sec, bytes) op" where
  "decrypt_packet lib now_ms packet =
     mbind ensure_authenticated (\<lambda>_.
     mbind load_session_state (\<lambda>_.
     mbind (mlift (split_packet packet)) (\<lambda>(header, payload).
     mbind (peer_need peer_id ''unwrap of None'') (\<lambda>pid.
     mbind (peer_get server_peer_id) (\<lambda>server_id.
     if from_peer_id header \<noteq> pid \<or> to_peer_id header \<noteq> server_id
     then mraise (Err ''packet is not addressed over this direct session'')
     else if \<not> encrypted header then mret packet
     else
       mbind (peer_get (\<lambda>p. case client_algorithm p of None \<Rightarrow> ''aes-gcm'' | Some a \<Rightarrow> a)) (\<lambda>alg.
       let direction = direction_index (from_peer_id header) (to_peer_id header)
       in
       mbind (mattempt (on_peer (decrypt_payload (lib_crypto lib) now_ms alg direction payload))) (\<lambda>result.
       mbind (persist_session_state now_ms) (\<lambda>_.
       mbind (mlift result) (\<lambda>plain.
       case plain of
         None \<Rightarrow> mret []
       | Some plaintext \<Rightarrow>
           mret (join_header_payload
                   (header\<lparr>flags := flags header AND NOT ENCRYPTED_FLAG\<rparr>) plaintext))))))))))"

definition encrypt_packet :: "'hs lib \<Rightarrow> u64 \<Rightarrow> bytes \<Rightarrow> ('hs sec, bytes) op" where
  "encrypt_packet lib now_ms packet =
     mbind ensure_authenticated (\<lambda>_.
     mbind load_session_state (\<lambda>_.
     mbind (mlift (split_packet packet)) (\<lambda>(header, payload).
     mbind (peer_need peer_id ''unwrap of None'') (\<lambda>pid.
     mbind (peer_get server_peer_id) (\<lambda>server_id.
     if from_peer_id header \<noteq> server_id \<or> to_peer_id header \<noteq> pid
     then mraise (Err ''packet is not addressed over this direct session'')
     else if encrypted header then mraise (Err ''packet is already encrypted'')
     else
       let direction = direction_index (from_peer_id header) (to_peer_id header)
       in
       mbind (mattempt (on_peer (encrypt_payload (lib_crypto lib) now_ms SERVER_ENCRYPTION_ALGORITHM
                                   direction payload))) (\<lambda>result.
       mbind (persist_session_state now_ms) (\<lambda>_.
       mbind (mlift result) (\<lambda>sealed.
       mret (join_header_payload (header\<lparr>flags := flags header OR ENCRYPTED_FLAG\<rparr>) sealed)))))))))"

subsection \<open>Well-formed sessions\<close>

definition stored_wf :: "stored_session \<Rightarrow> bool" where
  "stored_wf x \<longleftrightarrow> length (st_send_seq x) = 2 \<and> slots_wf (st_rx_slots x)
     \<and> slots_wf (grace_slots (st_sync_rx_grace x))"

definition store_wf :: "store \<Rightarrow> bool" where
  "store_wf st \<longleftrightarrow> m_ok st \<and> length st \<le> MAX_STORED_SESSIONS \<and> list_all (\<lambda>(k, x). stored_wf x) st"

definition sec_wf :: "'hs sec \<Rightarrow> bool" where
  "sec_wf s \<longleftrightarrow> store_wf (sc_store s) \<and> traffic_wf (sc_peer s)"

lemma store_wf_put:
  assumes "store_wf st" and "stored_wf x" and "m_get st k \<noteq> None \<or> length st < MAX_STORED_SESSIONS"
  shows "store_wf (m_put k x st)"
  using assms by (auto simp: store_wf_def length_m_put intro!: list_all_m_put)

lemma store_wf_retain: "store_wf st \<Longrightarrow> store_wf (m_retain P st)"
  using length_m_retain [of P st] by (auto simp: store_wf_def list_all_m_retain)

lemma store_wf_get: "store_wf st \<Longrightarrow> m_get st k = Some x \<Longrightarrow> stored_wf x"
  by (auto simp: store_wf_def intro: list_all_m_get)

lemma stored_wf_simps [simp]:
  "stored_wf x \<Longrightarrow> stored_wf (sync_session t x)"
  "stored_wf (new_session t k a)"
  "stored_wf (x\<lparr>st_last_touch_ms := t\<rparr>) = stored_wf x"
  "stored_wf (x\<lparr>st_attachments := n\<rparr>) = stored_wf x"
  "stored_wf (x\<lparr>st_remote_public_key := r\<rparr>) = stored_wf x"
  "stored_wf (save_to t p x) = traffic_wf p"
  by (auto simp: stored_wf_def sync_session_def new_session_def save_to_def traffic_wf_def grace_default_def)

lemma traffic_wf_load: "stored_wf x \<Longrightarrow> traffic_wf (load_from x p)"
  by (simp add: stored_wf_def load_from_def traffic_wf_def)

lemma keeps_peer_get [pres]: "keeps I (peer_get f)"
  and keeps_peer_need [pres]: "keeps I (peer_need g m)"
  by (simp_all add: peer_get_def peer_need_def pres)

lemma keeps_peer_mod:
  "(\<And>p. traffic_wf p \<Longrightarrow> traffic_wf (f p)) \<Longrightarrow> keeps sec_wf (peer_mod f)"
  by (simp add: peer_mod_def keeps_def sec_wf_def op_defs)

lemma keeps_on_peer: "keeps traffic_wf m \<Longrightarrow> keeps sec_wf (on_peer m)"
  by (auto simp: on_peer_def keeps_def sec_wf_def case_prod_unfold)

lemma keeps_fill_random [pres]: "keeps sec_wf (fill_random lib n)"
  by (simp add: fill_random_def keeps_def sec_wf_def)

lemma keeps_random_uuid [pres]: "keeps sec_wf (random_uuid lib)"
  by (simp add: random_uuid_def pres)

lemma keeps_upsert [pres]: "keeps sec_wf (upsert_session lib t k g a)"
proof (rule keepsI)
  fix s :: "'a sec" assume wf: "sec_wf s"
  define st where "st = m_retain (\<lambda>_. session_live t) (sc_store s)"
  have st: "store_wf st" using wf by (simp add: st_def sec_wf_def store_wf_retain)
  show "sec_wf (snd (upsert_session lib t k g a s))"
  proof (cases "m_get st k")
    case None
    then show ?thesis
      using wf st store_wf_put [OF st]
      by (auto simp: upsert_session_def op_defs st_def [symmetric] sec_wf_def fill_random_def store_put_def
          split: sum.splits)
  next
    case (Some x)
    then have "stored_wf x" using st by (rule store_wf_get [rotated])
    with Some show ?thesis
      using wf st store_wf_put [OF st]
      by (auto simp: upsert_session_def op_defs st_def [symmetric] sec_wf_def store_put_def Let_def)
  qed
qed

lemma traffic_wf_fields [simp]:
  "traffic_wf (p\<lparr>session_attached := b\<rparr>) = traffic_wf p"
  "traffic_wf (p\<lparr>handshake := h\<rparr>) = traffic_wf p"
  "traffic_wf (p\<lparr>authenticated := b\<rparr>) = traffic_wf p"
  "traffic_wf (p\<lparr>b_conn_id := i\<rparr>) = traffic_wf p"
  "traffic_wf (p\<lparr>peer_id := x0\<rparr>) = traffic_wf p"
  "traffic_wf (p\<lparr>network_name := x1\<rparr>) = traffic_wf p"
  "traffic_wf (p\<lparr>client_algorithm := x2\<rparr>) = traffic_wf p"
  "traffic_wf (p\<lparr>a_session_generation := x3\<rparr>) = traffic_wf p"
  "traffic_wf (p\<lparr>a_conn_id := x4\<rparr>) = traffic_wf p"
  "traffic_wf (p\<lparr>proof_challenge := x5\<rparr>) = traffic_wf p"
  "traffic_wf (p\<lparr>network_secret := x6\<rparr>) = traffic_wf p"
  "traffic_wf (p\<lparr>root_key := x7\<rparr>) = traffic_wf p"
  "traffic_wf (p\<lparr>session_key_of := x8\<rparr>) = traffic_wf p"
  by (simp_all add: traffic_wf_def)

lemma keeps_stored_of [pres]: "keeps I (stored_of m)"
  by (auto simp: stored_of_def pres)

lemma keeps_attach [pres]: "keeps sec_wf (attach_session t)"
  and keeps_load [pres]: "keeps sec_wf load_session_state"
  and keeps_persist [pres]: "keeps sec_wf (persist_session_state t)"
  and keeps_confirm [pres]: "keeps sec_wf (confirm_session_public_key t k r)"
  by (auto simp: attach_session_def load_session_state_def persist_session_state_def stored_of_def
      confirm_session_public_key_def
      peer_need_def peer_get_def peer_mod_def store_put_def op_defs keeps_def ok_or_def sec_wf_def
      split: option.splits sum.splits intro!: store_wf_put traffic_wf_load dest: store_wf_get)

lemma keeps_write_handshake [pres]: "keeps sec_wf (write_handshake lib m)"
  by (auto simp: write_handshake_def intro!: pres keeps_peer_mod)

lemma keeps_read_msg1 [pres]: "keeps sec_wf (read_msg1 lib b)"
  unfolding read_msg1_def by (intro pres keeps_peer_mod; simp)

lemma keeps_build_msg2 [pres]: "keeps sec_wf (build_msg2 lib t secret)"
  unfolding build_msg2_def Let_def by (intro pres keeps_peer_mod; simp)

lemma keeps_finish_msg3 [pres]: "keeps sec_wf (finish_msg3 lib t b)"
  unfolding finish_msg3_def msg3_checked_def by (intro pres keeps_peer_mod; simp)

lemma direction_index_less [simp]: "direction_index a b < 2"
  by (simp add: direction_index_def)

lemma keeps_decrypt_packet [pres]: "keeps sec_wf (decrypt_packet lib t b)"
  unfolding decrypt_packet_def ensure_authenticated_def Let_def
  by (intro pres keeps_on_peer keeps_wf_decrypt direction_index_less)

lemma keeps_encrypt_packet [pres]: "keeps sec_wf (encrypt_packet lib t b)"
  unfolding encrypt_packet_def ensure_authenticated_def Let_def
  by (intro pres keeps_on_peer keeps_wf_encrypt)
subsection \<open>Frames\<close>

text \<open>The traffic operations change no field of the extension.\<close>

lemma more_rotate [simp]: "traffic.more (maybe_rotate_epoch t s) = traffic.more s"
  by (simp add: maybe_rotate_epoch_def Let_def)

lemma more_evict [simp]: "traffic.more (evict_old_rx_slots t s) = traffic.more s"
  by (simp add: evict_old_rx_slots_def Let_def)

lemma more_commit [simp]: "traffic.more (snd (commit_replay e q d t s)) = traffic.more s"
  by (simp add: commit_replay_def split: option.splits prod.splits)

lemma more_encrypt [simp]: "traffic.more (snd (encrypt_payload c t alg d pl s)) = traffic.more s"
  by (rule keepsD [where I = "\<lambda>x. traffic.more x = traffic.more s"])
     (auto simp: encrypt_payload_def intro!: pres keeps_mod)

lemma more_decrypt [simp]: "traffic.more (snd (decrypt_payload c t alg d pl s)) = traffic.more s"
  by (rule keepsD [where I = "\<lambda>x. traffic.more x = traffic.more s"])
     (auto simp: decrypt_payload_def Let_def intro!: pres keeps_mod keeps_run)

text \<open>\<open>keeps_ext F m\<close>: \<open>m\<close> leaves a field \<open>F\<close> of the extension unchanged.\<close>

definition ext_field :: "('hs secure_peer \<Rightarrow> 'b) \<Rightarrow> bool" where
  "ext_field F \<longleftrightarrow> (\<forall>p q. traffic.more p = traffic.more q \<longrightarrow> F p = F q)"

definition same :: "('hs secure_peer \<Rightarrow> 'b) \<Rightarrow> 'b \<Rightarrow> 'hs sec \<Rightarrow> bool" where
  "same F v s \<longleftrightarrow> F (sc_peer s) = v"

lemma more_fields:
  fixes p q :: "'hs secure_peer"
  assumes "traffic.more p = traffic.more q"
  shows "authenticated p = authenticated q"
    and "session_key_of p = session_key_of q"
    and "peer_id p = peer_id q"
    and "server_peer_id p = server_peer_id q"
    and "session_attached p = session_attached q"
    and "network_name p = network_name q"
  using assms by (cases p; cases q; simp)+

lemma ext_fields [simp]:
  "ext_field authenticated" "ext_field session_key_of" "ext_field peer_id" "ext_field server_peer_id" "ext_field session_attached" "ext_field network_name"
  unfolding ext_field_def by (intro allI impI; erule more_fields)+

lemma same_on_peer:
  assumes "ext_field F" and "\<And>p. traffic.more (snd (m p)) = traffic.more p"
  shows "keeps (same F v) (on_peer m)"
proof -
  have "F (snd (m p)) = F p" for p using assms unfolding ext_field_def by blast
  then show ?thesis by (simp add: keeps_def same_def on_peer_def case_prod_unfold)
qed

lemma same_mod: "(\<And>p. F (f p) = F p) \<Longrightarrow> keeps (same F v) (peer_mod f)"
  by (simp add: keeps_def same_def peer_mod_def op_defs)

lemma same_store_put [pres]: "keeps (same F v) (store_put k x)"
  by (simp add: keeps_def same_def store_put_def op_defs)

lemma same_mod_store [pres]: "keeps (same F v) (mmod (\<lambda>s. s\<lparr>sc_store := f s\<rparr>))"
  by (simp add: keeps_def same_def op_defs)

lemma same_fill_random [pres]: "keeps (same F v) (fill_random lib n)"
  by (simp add: keeps_def same_def fill_random_def)

lemma same_upsert [pres]: "keeps (same F v) (upsert_session lib t k g a)"
  unfolding upsert_session_def Let_def by (intro pres)

lemma more_load [simp]: "traffic.more (load_from x p) = traffic.more p"
  by (simp add: load_from_def)

lemma ext_field_load: "ext_field F \<Longrightarrow> F (load_from x p) = F p"
  unfolding ext_field_def by (metis more_load)

lemma same_load: "ext_field F \<Longrightarrow> keeps (same F v) load_session_state"
  unfolding load_session_state_def by (intro pres same_mod ext_field_load; assumption)

lemma same_persist [pres]: "keeps (same F v) (persist_session_state t)"
  unfolding persist_session_state_def by (intro pres)

lemma same_decrypt: "ext_field F \<Longrightarrow> keeps (same F v) (decrypt_packet lib t b)"
  unfolding decrypt_packet_def ensure_authenticated_def Let_def
  by (intro pres same_on_peer same_load more_decrypt; assumption)

lemma same_encrypt: "ext_field F \<Longrightarrow> keeps (same F v) (encrypt_packet lib t b)"
  unfolding encrypt_packet_def ensure_authenticated_def Let_def
  by (intro pres same_on_peer same_load more_encrypt; assumption)

lemma same_auth_read_msg1: "keeps (same authenticated v) (read_msg1 lib b)"
  unfolding read_msg1_def by (intro pres same_mod; simp)

lemma same_auth_build_msg2: "keeps (same authenticated v) (build_msg2 lib t secret)"
  unfolding build_msg2_def Let_def random_uuid_def write_handshake_def attach_session_def
  by (intro pres same_mod same_load ext_fields; simp)

subsection \<open>Authentication\<close>

lemma peer_Inr [simp]:
  "peer_get f s = (Inr b, s') \<longleftrightarrow> b = f (sc_peer s) \<and> s' = s"
  "peer_need g m s = (Inr c, s') \<longleftrightarrow> g (sc_peer s) = Some c \<and> s' = s"
  "peer_mod h s = (Inr u, s') \<longleftrightarrow> s' = s\<lparr>sc_peer := h (sc_peer s)\<rparr>"
  by (auto simp: peer_get_def peer_need_def peer_mod_def)

text \<open>\<open>accepted_proof\<close>: the client's message 3 was checked against the fields of the connection.
  \<open>proved_secret\<close>: its proof is the HMAC, under the secret of the network named in message 1, of the hash
  of the handshake that the message continues.\<close>

definition accepted_proof :: "'hs lib \<Rightarrow> 'hs sec \<Rightarrow> bytes \<Rightarrow> bytes \<Rightarrow> bool" where
  "accepted_proof lib s packet remote \<longleftrightarrow>
     (\<exists>header payload hs decoded hs' m secret challenge.
        split_packet packet = Inr (header, payload) \<and> packet_type header = 15
      \<and> peer_id (sc_peer s) = Some (from_peer_id header) \<and> handshake (sc_peer s) = Some hs
      \<and> noise_read lib hs payload = (Inr decoded, hs') \<and> decode_msg3 lib decoded = Inr m
      \<and> a_conn_id_echo m = a_conn_id (sc_peer s) \<and> b_conn_id_echo m = b_conn_id (sc_peer s)
      \<and> network_secret (sc_peer s) = Some secret \<and> proof_challenge (sc_peer s) = Some challenge
      \<and> secret_proof_32 m = Some (secret_proof lib secret challenge)
      \<and> noise_remote_static lib hs' = Some remote \<and> length remote = 32)"

definition proved_secret ::
  "'hs lib \<Rightarrow> (string \<Rightarrow> string) \<Rightarrow> 'hs sec \<Rightarrow> bytes \<Rightarrow> bytes \<Rightarrow> bool" where
  "proved_secret lib secret_of s packet remote \<longleftrightarrow>
     (\<exists>header payload hs decoded hs' m name.
        split_packet packet = Inr (header, payload) \<and> packet_type header = 15
      \<and> peer_id (sc_peer s) = Some (from_peer_id header) \<and> network_name (sc_peer s) = Some name
      \<and> handshake (sc_peer s) = Some hs
      \<and> noise_read lib hs payload = (Inr decoded, hs') \<and> decode_msg3 lib decoded = Inr m
      \<and> a_conn_id_echo m = a_conn_id (sc_peer s) \<and> b_conn_id_echo m = b_conn_id (sc_peer s)
      \<and> secret_proof_32 m = Some (secret_proof lib (ascii (secret_of name)) (noise_hash lib hs))
      \<and> noise_remote_static lib hs' = Some remote \<and> length remote = 32)"

definition key_pinned :: "'hs sec \<Rightarrow> bytes \<Rightarrow> bool" where
  "key_pinned s remote \<longleftrightarrow>
     (\<exists>key x. session_key_of (sc_peer s) = Some key \<and> m_get (sc_store s) key = Some x
        \<and> st_remote_public_key x = Some remote)"

lemma verify_msg3_Inr:
  "verify_msg3 lib p m = Inr u \<longleftrightarrow>
     a_conn_id_echo m = a_conn_id p \<and> b_conn_id_echo m = b_conn_id p
   \<and> (\<exists>secret challenge. network_secret p = Some secret \<and> proof_challenge p = Some challenge
        \<and> secret_proof_32 m = Some (secret_proof lib secret challenge))"
  by (auto simp: verify_msg3_def rbind_Inr_iff)

lemma confirm_Inr:
  "confirm_session_public_key t k r s = (Inr u, s') \<longleftrightarrow>
     (\<exists>x. m_get (sc_store s) k = Some x \<and> (st_remote_public_key x = None \<or> st_remote_public_key x = Some r)
        \<and> s' = s\<lparr>sc_store := m_put k (x\<lparr>st_remote_public_key := Some r, st_last_touch_ms := t\<rparr>) (sc_store s)\<rparr>)"
  by (auto simp: confirm_session_public_key_def mbind_Inr store_put_def split: if_splits)

lemma same_msg3_checked: "keeps (same authenticated v) (msg3_checked lib t b)"
  unfolding msg3_checked_def confirm_session_public_key_def by (intro pres same_mod; simp)

lemma remote_static_key_Inr:
  "remote_static_key lib hs = Inr k \<longleftrightarrow> noise_remote_static lib hs = Some k \<and> length k = 32"
  by (auto simp: remote_static_key_def split: option.splits)

lemma msg3_checked_Inr:
  assumes "msg3_checked lib t packet s = (Inr (pid, remote), s')"
  shows "accepted_proof lib s packet remote \<and> key_pinned s' remote \<and> peer_id (sc_peer s) = Some pid
    \<and> s' = s\<lparr>sc_peer := (sc_peer s)\<lparr>handshake := None\<rparr>, sc_store := sc_store s'\<rparr>"
  using assms
  by (auto simp: msg3_checked_def mbind_Inr confirm_Inr verify_msg3_Inr accepted_proof_def key_pinned_def
      remote_static_key_Inr m_get_put case_prod_Inr split: if_split_asm)

lemma finish_msg3_authenticates:
  assumes "finish_msg3 lib t packet s = (r, s')" and "authenticated (sc_peer s')"
    and "\<not> authenticated (sc_peer s)"
  shows "\<exists>remote. accepted_proof lib s packet remote \<and> key_pinned s' remote"
proof (cases "msg3_checked lib t packet s")
  case (Pair r1 s1)
  show ?thesis
  proof (cases r1)
    case (Inl e)
    with Pair assms(1) have "s' = s1" by (simp add: finish_msg3_def mbind_def)
    moreover have "same authenticated False s1"
      using keepsD [OF same_msg3_checked [of False lib t packet], of s] Pair assms(3) by (simp add: same_def)
    ultimately show ?thesis using assms(2) by (simp add: same_def)
  next
    case (Inr x)
    obtain pid remote where x: "x = (pid, remote)" by (cases x)
    from Inr Pair assms(1) x have "s' = s1\<lparr>sc_peer := (sc_peer s1)\<lparr>authenticated := True\<rparr>\<rparr>"
      by (auto simp: finish_msg3_def op_defs peer_mod_def)
    then have "key_pinned s1 remote \<Longrightarrow> key_pinned s' remote" by (simp add: key_pinned_def)
    with msg3_checked_Inr [of lib t packet s pid remote s1] Pair Inr x show ?thesis by auto
  qed
qed

subsection \<open>Runs of one connection\<close>

text \<open>The calls that the server makes on one \<open>SecurePeer\<close>, in any order, and what other connections do to
  the shared store and to the random generator between them.  A handshake method that fails ends the
  run: the server closes the connection and frees the peer.  \<open>secret_of\<close> is the secret that the
  configuration has for a network; message 2 is only built with the secret of the network named in
  message 1.\<close>

inductive peer_run :: "'hs lib \<Rightarrow> (string \<Rightarrow> string) \<Rightarrow> 'hs sec \<Rightarrow> bool"
  for lib :: "'hs lib" and secret_of :: "string \<Rightarrow> string" where
  start: "new_peer lib t priv64 pub64 server_id = Inr p \<Longrightarrow>
    peer_run lib secret_of \<lparr>sc_peer = p, sc_store = st, sc_draws = n\<rparr>"
| others: "peer_run lib secret_of s \<Longrightarrow> peer_run lib secret_of (s\<lparr>sc_store := st, sc_draws := n\<rparr>)"
| msg1: "peer_run lib secret_of s \<Longrightarrow> read_msg1 lib b s = (Inr out, s') \<Longrightarrow> peer_run lib secret_of s'"
| msg2: "peer_run lib secret_of s \<Longrightarrow> network_name (sc_peer s) = Some name \<Longrightarrow>
    build_msg2 lib t (secret_of name) s = (Inr frame, s') \<Longrightarrow> peer_run lib secret_of s'"
| msg3: "peer_run lib secret_of s \<Longrightarrow> finish_msg3 lib t b s = (Inr out, s') \<Longrightarrow> peer_run lib secret_of s'"
| sealed: "peer_run lib secret_of s \<Longrightarrow> peer_run lib secret_of (snd (encrypt_packet lib t b s))"
| opened: "peer_run lib secret_of s \<Longrightarrow> peer_run lib secret_of (snd (decrypt_packet lib t b s))"

text \<open>The invariant of these runs: until the connection is authenticated, a challenge is the hash of the
  handshake that is going on, and the secret is the one of its network.\<close>

definition challenge_ok :: "'hs lib \<Rightarrow> (string \<Rightarrow> string) \<Rightarrow> 'hs secure_peer \<Rightarrow> bool" where
  "challenge_ok lib secret_of p \<longleftrightarrow>
     (session_key_of p = None \<longrightarrow> proof_challenge p = None)
   \<and> (proof_challenge p \<noteq> None \<longrightarrow> authenticated p \<or>
        (\<exists>hs name. handshake p = Some hs \<and> proof_challenge p = Some (noise_hash lib hs)
           \<and> network_name p = Some name \<and> network_secret p = Some (ascii (secret_of name))))"

lemma read_msg1_Inr:
  assumes "read_msg1 lib b s = (Inr out, s')"
  shows "handshake (sc_peer s) = None \<and> \<not> authenticated (sc_peer s)
    \<and> proof_challenge (sc_peer s') = proof_challenge (sc_peer s)
    \<and> session_key_of (sc_peer s') = session_key_of (sc_peer s)"
  using assms
  unfolding read_msg1_def
  by (simp only: op_inv peer_Inr op_Inr) (elim exE conjE disjE; simp)

lemma write_handshake_Inr:
  "write_handshake lib m s = (Inr out, s') \<longleftrightarrow>
     (\<exists>hs hs'. handshake (sc_peer s) = Some hs \<and> noise_write lib hs m = (Inr out, hs')
        \<and> s' = s\<lparr>sc_peer := (sc_peer s)\<lparr>handshake := Some hs'\<rparr>\<rparr>)"
  by (auto simp: write_handshake_def op_inv case_prod_Inr)

lemma load_session_state_Inr:
  "load_session_state s = (Inr u, s') \<longleftrightarrow>
     (\<exists>k x. session_key_of (sc_peer s) = Some k \<and> m_get (sc_store s) k = Some x
        \<and> s' = s\<lparr>sc_peer := load_from x (sc_peer s)\<rparr>)"
  by (auto simp: load_session_state_def stored_of_def op_inv)

lemma attach_session_Inr:
  "attach_session t s = (Inr u, s') \<Longrightarrow> sc_peer s' = (sc_peer s)\<lparr>session_attached := True\<rparr>"
  by (auto simp: attach_session_def stored_of_def store_put_def op_inv)

lemma upsert_peer:
  assumes "upsert_session lib t k g a s = (r, s')"
  shows "sc_peer s' = sc_peer s"
  using keepsD [OF same_upsert [where F = "\<lambda>p. p" and lib = lib and t = t and k = k and g = g and a = a],
      of "sc_peer s" s] assms
  by (simp add: same_def)

lemma random_uuid_peer: "random_uuid lib s = (r, s') \<Longrightarrow> sc_peer s' = sc_peer s"
  by (auto simp: random_uuid_def fill_random_def mbind_def mret_def split: sum.splits)

lemma load_from_handshake [simp]:
  "handshake (load_from x p) = handshake p" "proof_challenge (load_from x p) = proof_challenge p"
  "network_secret (load_from x p) = network_secret p" "network_name (load_from x p) = network_name p"
  "session_key_of (load_from x p) = session_key_of p"
  by (simp_all add: load_from_def)

lemma build_msg2_Inr:
  assumes "build_msg2 lib t secret s = (Inr frame, s')"
  shows "\<exists>hs. handshake (sc_peer s') = Some hs \<and> proof_challenge (sc_peer s') = Some (noise_hash lib hs)
    \<and> network_name (sc_peer s') = network_name (sc_peer s) \<and> network_secret (sc_peer s') = Some (ascii secret)
    \<and> session_key_of (sc_peer s') \<noteq> None"
  using assms
  by (auto simp: build_msg2_def op_inv Let_def write_handshake_Inr load_session_state_Inr
      dest!: upsert_peer random_uuid_peer attach_session_Inr split: if_split_asm)

lemma finish_msg3_Inr:
  assumes "finish_msg3 lib t b s = (Inr out, s')"
  shows "authenticated (sc_peer s') \<and> session_key_of (sc_peer s') = session_key_of (sc_peer s)
    \<and> proof_challenge (sc_peer s') = proof_challenge (sc_peer s)"
proof -
  from assms obtain pid remote s1 where c: "msg3_checked lib t b s = (Inr (pid, remote), s1)"
    and s': "s' = s1\<lparr>sc_peer := (sc_peer s1)\<lparr>authenticated := True\<rparr>\<rparr>"
    by (auto simp: finish_msg3_def op_inv)
  from msg3_checked_Inr [OF c] obtain st where "s1 = s\<lparr>sc_peer := (sc_peer s)\<lparr>handshake := None\<rparr>, sc_store := st\<rparr>"
    by blast
  with s' show ?thesis by simp
qed

lemma ext_field_challenge: "ext_field (challenge_ok lib secret_of)"
proof -
  have "challenge_ok lib secret_of p = challenge_ok lib secret_of q"
    if "traffic.more p = traffic.more q" for p q
    using that by (cases p; cases q) (simp add: challenge_ok_def)
  then show ?thesis unfolding ext_field_def by blast
qed

lemma peer_run_challenge: "peer_run lib secret_of s \<Longrightarrow> challenge_ok lib secret_of (sc_peer s)"
proof (induction rule: peer_run.induct)
  case (start t priv64 pub64 server_id p st n)
  then show ?case by (auto simp: new_peer_def rbind_Inr_iff challenge_ok_def split: if_split_asm)
next
  case (msg1 s b out s')
  then show ?case using read_msg1_Inr [OF msg1(2)] by (auto simp: challenge_ok_def)
next
  case (msg2 s name t frame s')
  then show ?case using build_msg2_Inr [OF msg2(3)] by (auto simp: challenge_ok_def)
next
  case (msg3 s t b out s')
  then show ?case using finish_msg3_Inr [OF msg3(2)] by (auto simp: challenge_ok_def)
next
  case (sealed s t b)
  then show ?case using keepsD [OF same_encrypt [OF ext_field_challenge], of lib secret_of True s lib t b]
    by (simp add: same_def)
next
  case (opened s t b)
  then show ?case using keepsD [OF same_decrypt [OF ext_field_challenge], of lib secret_of True s lib t b]
    by (simp add: same_def)
qed simp

lemma accepted_in_run:
  assumes "peer_run lib secret_of s" and "\<not> authenticated (sc_peer s)" and "accepted_proof lib s b remote"
  shows "proved_secret lib secret_of s b remote"
  using peer_run_challenge [OF assms(1)] assms(2,3)
  by (fastforce simp: challenge_ok_def accepted_proof_def proved_secret_def)

subsection \<open>A toy instance of the crates, for the witnesses\<close>

definition toy_lib :: "nat lib" where
  "toy_lib =
     \<lparr>lib_crypto = toy_crypto,
      noise_responder = (\<lambda>_. Inr 0),
      noise_read = (\<lambda>hs b. (Inr b, Suc hs)),
      noise_write = (\<lambda>hs b. (Inr b, Suc hs)),
      noise_hash = (\<lambda>hs. [of_nat hs]),
      noise_remote_static = (\<lambda>_. Some (replicate 32 7)),
      x25519_public = map (\<lambda>b. b + 1),
      base64_decode = atob,
      base64_encode = b64_encode,
      decode_msg1 = (\<lambda>b. Inr \<lparr>m1_version = 1, a_network_name = ''home'',
                              m1_session_generation = (if b = [] then None else Some (ucast (hd b))),
                              m1_conn_id = None, client_encryption_algorithm = ''aes-gcm''\<rparr>),
      encode_msg2 = (\<lambda>m. case root_key_32 m of None \<Rightarrow> [] | Some k \<Rightarrow> k),
      decode_msg3 = (\<lambda>b. Inr \<lparr>a_conn_id_echo = None,
                              b_conn_id_echo = Some \<lparr>part1 = 0, part2 = 0, part3 = 0, part4 = 0\<rparr>,
                              secret_proof_32 = Some b\<rparr>),
      to_json = write_json,
      entropy = (\<lambda>k n. Inr (replicate n 0))\<rparr>"

text \<open>A connection after message 1, with the session of peer 7 of network \<open>home\<close> in the store; the same
  connection after message 2 and after message 3.\<close>

definition toy_key :: session_key where
  "toy_key = \<lparr>sk_network_name = ''home'', sk_peer_id = 7, sk_server_peer_id = 10000001,
              sk_server_public_key = replicate 32 2\<rparr>"

definition toy_session :: stored_session where
  "toy_session = (new_session 1000 (replicate 32 9) ''aes-gcm'')\<lparr>st_attachments := 1\<rparr>"

definition toy_pending :: "nat secure_peer" where
  "toy_pending =
     \<lparr>root_key = None, send_epoch = 0, send_seq = [0, 0], send_epoch_started_ms = 1000,
      send_packets_since_epoch = 0, rx_slots = slots_default, sync_rx_grace = grace_default,
      decrypt_fail_count = 0, local_private = replicate 32 1, local_public = replicate 32 2,
      server_peer_id = 10000001, peer_id = Some 7, network_name = Some ''home'',
      client_algorithm = Some ''aes-gcm'', a_session_generation = None, a_conn_id = None, b_conn_id = None,
      handshake = Some 1, proof_challenge = None, network_secret = None, session_key_of = None,
      session_attached = False, authenticated = False\<rparr>"

definition toy_after2 :: "nat sec" where
  "toy_after2 =
     \<lparr>sc_peer = toy_pending\<lparr>handshake := Some 2, proof_challenge := Some [2],
                  network_secret := Some (ascii ''s3cret''), root_key := Some (replicate 32 9),
                  session_key_of := Some toy_key, session_attached := True,
                  b_conn_id := Some \<lparr>part1 = 0, part2 = 0, part3 = 0, part4 = 0\<rparr>\<rparr>,
      sc_store = [(toy_key, toy_session)], sc_draws = 1\<rparr>"

definition toy_ready :: "nat sec" where
  "toy_ready =
     toy_after2\<lparr>sc_peer := (sc_peer toy_after2)\<lparr>handshake := None, authenticated := True\<rparr>,
                sc_store := [(toy_key, toy_session\<lparr>st_remote_public_key := Some (replicate 32 7)\<rparr>)]\<rparr>"

definition toy_msg3 :: bytes where
  "toy_msg3 = wrap_packet 7 10000001 15 0
     (secret_proof toy_lib (ascii ''s3cret'') [2])"
subsection \<open>Properties\<close>

text \<open>C5: In every run of the server's calls on a connection, only \<open>finish_msg3\<close> can make it authenticated,
  and only when the client has echoed both connection ids and sent the HMAC, under the secret configured
  for the network it named in message 1, of the hash of this handshake as it stood after message 2; the
  client's static key is then pinned to the stored session.\<close>

theorem authentication_needs_the_network_secret:
  assumes "peer_run lib secret_of s" and "\<not> authenticated (sc_peer s)"
  shows "\<not> authenticated (sc_peer (snd (read_msg1 lib b s)))
       \<and> \<not> authenticated (sc_peer (snd (build_msg2 lib t secret s)))
       \<and> \<not> authenticated (sc_peer (snd (decrypt_packet lib t b s)))
       \<and> \<not> authenticated (sc_peer (snd (encrypt_packet lib t b s)))
       \<and> (authenticated (sc_peer (snd (finish_msg3 lib t b s))) \<longrightarrow>
            (\<exists>remote. proved_secret lib secret_of s b remote \<and> key_pinned (snd (finish_msg3 lib t b s)) remote))"
proof -
  have s: "same authenticated False s" using assms(2) by (simp add: same_def)
  note other = keepsD [OF same_auth_read_msg1 s] keepsD [OF same_auth_build_msg2 s]
    keepsD [OF same_decrypt [OF ext_fields(1)] s] keepsD [OF same_encrypt [OF ext_fields(1)] s]
  have "\<exists>remote. proved_secret lib secret_of s b remote \<and> key_pinned (snd (finish_msg3 lib t b s)) remote"
    if "authenticated (sc_peer (snd (finish_msg3 lib t b s)))"
    using finish_msg3_authenticates [of lib t b s _ "snd (finish_msg3 lib t b s)"] accepted_in_run assms that
    by (metis prod.collapse)
  with other show ?thesis by (simp add: same_def)
qed

text \<open>A run up to message 2, with an empty store at the start.\<close>

definition toy_peer0 :: "nat secure_peer" where
  "toy_peer0 = \<lparr>root_key = None, send_epoch = 0, send_seq = [0, 0], send_epoch_started_ms = 1000,
     send_packets_since_epoch = 0, rx_slots = slots_default, sync_rx_grace = grace_default, decrypt_fail_count = 0,
     local_private = replicate 32 1, local_public = replicate 32 2, server_peer_id = 10000001,
     peer_id = None, network_name = None, client_algorithm = None, a_session_generation = None,
     a_conn_id = None, b_conn_id = None, handshake = None, proof_challenge = None, network_secret = None,
     session_key_of = None, session_attached = False, authenticated = False\<rparr>"

definition toy_frame1 :: bytes where
  "toy_frame1 = wrap_packet 7 10000001 13 0 []"

definition toy_sec1 :: "nat sec" where
  "toy_sec1 = \<lparr>sc_peer = toy_peer0\<lparr>peer_id := Some 7, network_name := Some ''home'', client_algorithm := Some ''aes-gcm'',
    handshake := Some 1\<rparr>, sc_store = [], sc_draws = 0\<rparr>"

definition toy_sec2 :: "nat sec" where
  "toy_sec2 = snd (build_msg2 toy_lib 1000 ''s3cret'' toy_sec1)"

lemma toy_frames:
  "split_packet toy_frame1 = Inr (\<lparr>from_peer_id = 7, to_peer_id = 10000001, packet_type = 13, flags = 0,
     forward_counter = 1, reserved = 0, len = 0\<rparr>, [])"
  "parsePacket toy_frame1 = Inr (\<lparr>from_peer_id = 7, to_peer_id = 10000001, packet_type = 13, flags = 0,
     forward_counter = 1, reserved = 0, len = 0\<rparr>, [])"
  "map_sum id (packet_type \<circ> fst) (parsePacket toy_msg3) = Inr 15"
  "length toy_frame1 = 16" "length toy_msg3 \<le> 100"
  by code_simp+

lemma toy_peer_made:
  "new_peer toy_lib 1000 (b64_encode (replicate 32 1)) (b64_encode (replicate 32 2)) 10000001 = Inr toy_peer0"
  by (simp add: new_peer_def toy_lib_def decode_key_def atob_encode toy_peer0_def)

lemma toy_read:
  "read_msg1 toy_lib toy_frame1 \<lparr>sc_peer = toy_peer0, sc_store = [], sc_draws = 0\<rparr> =
     (Inr (render (msg1_info 7 ''home'' ''aes-gcm'')), toy_sec1)"
proof -
  have "validate_algorithm ''aes-gcm'' = Inr ()" by code_simp
  then show ?thesis
    by (simp add: read_msg1_def peer_get_def op_defs toy_peer0_def toy_sec1_def toy_frames toy_lib_def
      PACKET_NOISE_MSG1_def encrypted_def ENCRYPTED_FLAG_def EASYTIER_PROTOCOL_VERSION_def peer_mod_def
      write_json_def del: render.simps)
qed

lemma toy_built: "fst (build_msg2 toy_lib 1000 ''s3cret'' toy_sec1) = Inr (wrap_packet 10000001 7 14 0 (replicate 32 0))"
  by code_simp

lemma toy_run2: "peer_run toy_lib (\<lambda>_. ''s3cret'') toy_sec2"
proof -
  have built: "build_msg2 toy_lib 1000 ''s3cret'' toy_sec1 =
      (Inr (wrap_packet 10000001 7 14 0 (replicate 32 0)), toy_sec2)"
    using toy_built by (cases "build_msg2 toy_lib 1000 ''s3cret'' toy_sec1") (simp add: toy_sec2_def)
  have named: "network_name (sc_peer toy_sec1) = Some ''home''" by (simp add: toy_sec1_def)
  have "peer_run toy_lib (\<lambda>_. ''s3cret'') toy_sec1"
    by (rule peer_run.msg1 [OF peer_run.start [OF toy_peer_made] toy_read])
  from peer_run.msg2 [OF this named built] show ?thesis .
qed

theorem authentication_needs_the_network_secret_witness:
  "\<exists>remote. proved_secret toy_lib (\<lambda>_. ''s3cret'') toy_sec2 toy_msg3 remote"
proof -
  have before: "\<not> authenticated (sc_peer toy_sec2)" by code_simp
  have after: "authenticated (sc_peer (snd (finish_msg3 toy_lib 1000 toy_msg3 toy_sec2)))" by code_simp
  from authentication_needs_the_network_secret [OF toy_run2 before, THEN conjunct2, THEN conjunct2,
      THEN conjunct2, THEN conjunct2, rule_format, OF after]
  show ?thesis by (elim exE conjE) (rule exI)
qed

text \<open>Before authentication the traffic methods refuse to work and change nothing.\<close>

theorem no_traffic_before_authentication:
  assumes "\<not> authenticated (sc_peer s)"
  shows "encrypt_packet lib t b s = (Inl (Err ''secure session is not authenticated''), s)
       \<and> decrypt_packet lib t b s = (Inl (Err ''secure session is not authenticated''), s)"
  using assms by (simp add: encrypt_packet_def decrypt_packet_def ensure_authenticated_def mbind_def mtry_def)

theorem no_traffic_before_authentication_witness:
  "decrypt_packet toy_lib 5 toy_msg3 toy_after2 = (Inl (Err ''secure session is not authenticated''), toy_after2)"
proof -
  have "\<not> authenticated (sc_peer toy_after2)" by (simp add: toy_after2_def toy_pending_def)
  then show ?thesis using no_traffic_before_authentication by blast
qed

lemma fold_max_ge:
  "(e :: u32) \<le> fold (\<lambda>slot e. if slot_valid slot then max e (slot_epoch slot) else e) xs e
   \<and> (\<forall>x \<in> set xs. slot_valid x \<longrightarrow>
        slot_epoch x \<le> fold (\<lambda>slot e. if slot_valid slot then max e (slot_epoch slot) else e) xs e)"
proof (induction xs arbitrary: e)
  case (Cons y xs)
  have "e \<le> max e (slot_epoch y)" "slot_epoch y \<le> max e (slot_epoch y)" by simp_all
  then show ?case
    using Cons.IH [of "max e (slot_epoch y)"] Cons.IH [of e] by (auto intro: order_trans)
qed simp

lemma less_Suc_word:
  fixes x e :: "'a::len word"
  assumes "x \<le> e" and "e \<noteq> - 1"
  shows "x < e + 1"
proof -
  have "1 + e \<noteq> 0" using assms(2) by (metis add.commute add_eq_0_iff minus_minus)
  then have "unat (e + 1) = Suc (unat e)" by (metis unatSuc add.commute)
  with assms(1) show ?thesis by (simp add: word_less_nat_alt word_le_nat_alt)
qed

lemma fold_max_in:
  "fold (\<lambda>slot e. if slot_valid slot then max e (slot_epoch slot) else e) xs (e :: u32)
     \<in> insert e {slot_epoch slot | slot. slot \<in> set xs \<and> slot_valid slot}"
proof (induction xs arbitrary: e)
  case (Cons y xs)
  show ?case
  proof (cases "slot_valid y")
    case True
    then show ?thesis using Cons.IH [of "max e (slot_epoch y)"] by (auto simp: max_def split: if_split_asm)
  next
    case False
    then show ?thesis using Cons.IH [of e] by auto
  qed
qed simp

text \<open>C23: A \<open>Sync\<close> keeps the root key and starts an epoch that is one above the largest of the sending
  epoch and the epochs of the receive slots that are still valid (an evicted slot's epoch is forgotten).
  So it is above all of these, and no nonce of an epoch up to the sending epoch is used after it, unless
  the 32-bit epoch wraps.\<close>

theorem sync_starts_a_fresh_epoch:
  assumes "sync_epoch x \<noteq> - 1"
  shows "st_root_key (sync_session t x) = st_root_key x
       \<and> (\<exists>e \<in> insert (st_next_epoch x) {slot_epoch slot | slot d. d \<in> set (st_rx_slots x) \<and> slot \<in> set d \<and> slot_valid slot}.
            st_next_epoch (sync_session t x) = e + 1)
       \<and> st_next_epoch x < st_next_epoch (sync_session t x)
       \<and> (\<forall>e q q'. e \<le> st_next_epoch x \<longrightarrow> nonce_bytes e q \<noteq> nonce_bytes (st_next_epoch (sync_session t x)) q')
       \<and> (\<forall>d \<in> set (st_rx_slots x). \<forall>slot \<in> set d. slot_valid slot \<longrightarrow>
            slot_epoch slot < st_next_epoch (sync_session t x))"
proof -
  have ge: "st_next_epoch x \<le> sync_epoch x"
    "\<And>d slot. d \<in> set (st_rx_slots x) \<Longrightarrow> slot \<in> set d \<Longrightarrow> slot_valid slot \<Longrightarrow> slot_epoch slot \<le> sync_epoch x"
    using fold_max_ge [of "st_next_epoch x" "concat (st_rx_slots x)"] by (auto simp: sync_epoch_def)
  have lt: "e < sync_epoch x + 1" if "e \<le> sync_epoch x" for e
    using that assms by (rule less_Suc_word)
  have "sync_epoch x \<in> insert (st_next_epoch x)
      {slot_epoch slot | slot d. d \<in> set (st_rx_slots x) \<and> slot \<in> set d \<and> slot_valid slot}"
    using fold_max_in [of "concat (st_rx_slots x)" "st_next_epoch x"] by (auto simp: sync_epoch_def)
  then have "\<exists>e \<in> insert (st_next_epoch x) {slot_epoch slot | slot d. d \<in> set (st_rx_slots x) \<and> slot \<in> set d \<and> slot_valid slot}.
      st_next_epoch (sync_session t x) = e + 1"
    by (rule bexI [rotated]) (simp add: sync_session_def)
  moreover have "st_next_epoch (sync_session t x) = sync_epoch x + 1" "st_root_key (sync_session t x) = st_root_key x"
    by (simp_all add: sync_session_def)
  ultimately show ?thesis
    using ge lt by (fastforce simp: nonce_bytes_inj intro: order_trans)
qed

text \<open>A session that sends in epoch 0 and has received in epoch 4.\<close>

definition toy_received :: stored_session where
  "toy_received = (new_session 0 [] [])\<lparr>st_rx_slots :=
     [[\<lparr>slot_epoch = 4, window = window_default, last_rx_ms = 0, slot_valid = True\<rparr>], []]\<rparr>"

theorem sync_starts_a_fresh_epoch_witness:
  "nonce_bytes 0 5 \<noteq> nonce_bytes (st_next_epoch (sync_session 9 toy_received)) 5
   \<and> 4 < st_next_epoch (sync_session 9 toy_received)"
proof -
  have "sync_epoch toy_received \<noteq> - 1" by code_simp
  from sync_starts_a_fresh_epoch [OF this, of 9] show ?thesis
    by (simp add: toy_received_def new_session_def)
qed
definition aead_lengths :: "crypto \<Rightarrow> bool" where
  "aead_lengths c \<longleftrightarrow>
     (\<forall>ciph k n p ct tag. aead_encrypt c ciph k n p = Some (ct, tag) \<longrightarrow>
        length ct = length p \<and> length tag = AEAD_TAG_SIZE)
   \<and> (\<forall>ciph k n p ct tag. aead_decrypt c ciph k n ct tag = Some p \<longrightarrow> length p = length ct)"

lemma toy_aead_lengths: "aead_lengths toy_crypto"
  by (simp add: aead_lengths_def toy_crypto_def AEAD_TAG_SIZE_def)

lemma open_sealed_length: "aead_lengths c \<Longrightarrow> open_sealed c alg k n ct tag = Inr p \<Longrightarrow> length p = length ct"
  unfolding aead_lengths_def by (auto simp: open_sealed_def rbind_Inr_iff split: prod.splits) blast

lemma seal_length:
  "aead_lengths c \<Longrightarrow> seal c alg k n p = Inr (ct, tag) \<Longrightarrow> length ct = length p \<and> length tag = 16"
  by (auto simp: seal_def rbind_Inr_iff aead_lengths_def AEAD_TAG_SIZE_def split: prod.splits)

lemma decrypt_payload_length:
  assumes "aead_lengths c" and "decrypt_payload c t alg d payload s = (Inr (Some p), s')"
  shows "28 \<le> length payload \<and> length p = length payload - 28"
proof (cases "length payload < 28")
  case True
  with assms(2) show ?thesis by (simp add: decrypt_payload_def AEAD_TAIL_def)
next
  case False
  let ?ct = "take (length payload - 28) payload"
  have "\<exists>k n tag. open_sealed c alg k n ?ct tag = Inr p"
    using assms(2) False
    by (auto simp: decrypt_payload_def AEAD_TAIL_def Let_def op_inv)
  with open_sealed_length [OF assms(1)] have "length p = length ?ct" by blast
  with False show ?thesis by simp
qed

lemma on_peer_Inr: "on_peer m s = (r, s') \<longleftrightarrow> (\<exists>p. m (sc_peer s) = (r, p) \<and> s' = s\<lparr>sc_peer := p\<rparr>)"
  by (cases "m (sc_peer s)") (auto simp: on_peer_def)

lemma split_packet_Inr:
  "split_packet b = Inr (h, payload) \<longleftrightarrow> b = to_bytes h @ payload \<and> length payload = unat (expected_len h)"
  by (auto simp: split_packet_def rbind_Inr_iff parse_packet_Inr_iff sizes)

lemma expected_len_tail:
  "28 \<le> unat (expected_len h) \<Longrightarrow> encrypted h \<Longrightarrow> unat (len h) = unat (expected_len h) - 28"
proof -
  assume a: "28 \<le> unat (expected_len h)" "encrypted h"
  have e: "unat (expected_len h) = (unat (len h) + 28) mod 2 ^ 32"
    using a(2) by (simp add: expected_len_def AEAD_TAIL_SIZE_def unat_word_ariths)
  have "unat (len h) < 2 ^ 32" using unsigned_less [of "len h"] by simp
  with a(1) e show ?thesis by (cases "unat (len h) + 28 < 2 ^ 32") (auto simp: le_mod_geq)
qed

lemma cleared_not_encrypted [simp]: "\<not> encrypted (h\<lparr>flags := flags h AND NOT ENCRYPTED_FLAG\<rparr>)"
  by (simp add: encrypted_def ENCRYPTED_FLAG_def and.assoc)

lemma set_encrypted [simp]: "encrypted (h\<lparr>flags := flags h OR ENCRYPTED_FLAG\<rparr>)"
proof -
  have "bit ((flags h OR 1) AND (1 :: u8)) 0" by (simp add: bit_simps)
  then show ?thesis unfolding encrypted_def ENCRYPTED_FLAG_def by auto
qed

lemma decrypt_packet_cases:
  assumes "decrypt_packet lib t packet s = (Inr clear, s')"
  shows "\<exists>s1 h payload. load_session_state s = (Inr (), s1) \<and> split_packet packet = Inr (h, payload)
    \<and> peer_id (sc_peer s1) = Some (from_peer_id h) \<and> to_peer_id h = server_peer_id (sc_peer s1)
    \<and> ((\<not> encrypted h \<and> clear = packet) \<or>
      (encrypted h \<and> (\<exists>alg d r p2. decrypt_payload (lib_crypto lib) t alg d payload (sc_peer s1) = (Inr r, p2)
        \<and> clear = (case r of None \<Rightarrow> [] | Some p \<Rightarrow> to_bytes (h\<lparr>flags := flags h AND NOT ENCRYPTED_FLAG\<rparr>) @ p))))"
  using assms
  unfolding decrypt_packet_def ensure_authenticated_def Let_def
  by (simp only: op_inv peer_Inr op_Inr mattempt_Inr on_peer_Inr join_header_payload_def)
     (elim exE conjE disjE; fastforce)

text \<open>C24: What \<open>decrypt_packet\<close> returns is either empty (a packet to be dropped) or a frame that
  \<open>parsePacket\<close> accepts: an unencrypted packet from the session's peer to the server.  This holds
  although the length check of the encrypted frame wraps.\<close>

theorem decrypted_packet_is_well_framed:
  assumes "aead_lengths (lib_crypto lib)" and "decrypt_packet lib t packet s = (Inr clear, s')"
  shows "clear = [] \<or> (\<exists>h payload. parsePacket clear = Inr (h, payload) \<and> \<not> encrypted h
           \<and> peer_id (sc_peer s) = Some (from_peer_id h) \<and> to_peer_id h = server_peer_id (sc_peer s))"
proof -
  have loaded: "peer_id (sc_peer s1) = peer_id (sc_peer s) \<and> server_peer_id (sc_peer s1) = server_peer_id (sc_peer s)"
    if "load_session_state s = (Inr u, s1)" for s1 u
    using that keepsD [OF same_load [OF ext_fields(3)], of "peer_id (sc_peer s)" s]
      keepsD [OF same_load [OF ext_fields(4)], of "server_peer_id (sc_peer s)" s]
    by (auto simp: same_def)
  from decrypt_packet_cases [OF assms(2)] obtain s1 h payload where l: "load_session_state s = (Inr (), s1)"
    and sp: "split_packet packet = Inr (h, payload)"
    and id: "peer_id (sc_peer s1) = Some (from_peer_id h)" "to_peer_id h = server_peer_id (sc_peer s1)"
    and r: "(\<not> encrypted h \<and> clear = packet) \<or>
      (encrypted h \<and> (\<exists>alg d r p2. decrypt_payload (lib_crypto lib) t alg d payload (sc_peer s1) = (Inr r, p2)
        \<and> clear = (case r of None \<Rightarrow> [] | Some p \<Rightarrow> to_bytes (h\<lparr>flags := flags h AND NOT ENCRYPTED_FLAG\<rparr>) @ p)))"
    by blast
  show ?thesis
    using r
  proof (elim disjE conjE exE)
    assume "\<not> encrypted h" "clear = packet"
    then show ?thesis using sp id loaded [OF l] by (auto simp: split_packet_Inr parsePacket_Inr_iff)
  next
    fix alg d r p2
    assume enc: "encrypted h" and d: "decrypt_payload (lib_crypto lib) t alg d payload (sc_peer s1) = (Inr r, p2)"
      and clear: "clear = (case r of None \<Rightarrow> [] | Some p \<Rightarrow> to_bytes (h\<lparr>flags := flags h AND NOT ENCRYPTED_FLAG\<rparr>) @ p)"
    show ?thesis
    proof (cases r)
      case (Some p)
    let ?h = "h\<lparr>flags := flags h AND NOT ENCRYPTED_FLAG\<rparr>"
    have "28 \<le> length payload" "length p = length payload - 28"
      using decrypt_payload_length [OF assms(1) d [unfolded Some]] by auto
    then have "length p = unat (len h)"
      using sp enc expected_len_tail [of h] by (simp add: split_packet_Inr)
    moreover have "expected_len ?h = len h" by (simp add: expected_len_def)
    ultimately have "parsePacket clear = Inr (?h, p)" by (simp add: parsePacket_Inr_iff clear Some)
    then show ?thesis using id loaded [OF l] by auto
    qed (simp add: clear)
  qed
qed


text \<open>A packet from peer 7 as \<open>seal\<close> would build it with the toy cipher.\<close>

definition toy_packet :: bytes where
  "toy_packet = to_bytes \<lparr>from_peer_id = 7, to_peer_id = 10000001, packet_type = 8, flags = 1,
       forward_counter = 1, reserved = 0, len = 2\<rparr> @ [5, 6] @ replicate 16 0 @ nonce_bytes 0 0"

theorem decrypted_packet_is_well_framed_witness:
  "\<exists>h. parsePacket (projr (fst (decrypt_packet toy_lib 1000 toy_packet toy_ready))) = Inr (h, [5, 6])"
proof -
  have r: "fst (decrypt_packet toy_lib 1000 toy_packet toy_ready) =
      Inr (to_bytes \<lparr>from_peer_id = 7, to_peer_id = 10000001, packet_type = 8, flags = 0,
            forward_counter = 1, reserved = 0, len = 2\<rparr> @ [5, 6])" by code_simp
  have "aead_lengths (lib_crypto toy_lib)" by (simp add: toy_lib_def toy_aead_lengths)
  from decrypted_packet_is_well_framed [OF this, of 1000 toy_packet toy_ready _
      "snd (decrypt_packet toy_lib 1000 toy_packet toy_ready)"] r
  obtain h payload where p: "parsePacket (projr (fst (decrypt_packet toy_lib 1000 toy_packet toy_ready))) = Inr (h, payload)"
    by (cases "decrypt_packet toy_lib 1000 toy_packet toy_ready") (auto simp: to_bytes_def)
  then have "payload = [5, 6]" unfolding r by (simp add: parsePacket_eq split: sum.splits)
  with p show ?thesis by blast
qed

lemma encrypt_packet_cases:
  assumes "encrypt_packet lib t packet s = (Inr out, s')"
  shows "\<exists>s1 h payload d r p2. load_session_state s = (Inr (), s1) \<and> split_packet packet = Inr (h, payload)
    \<and> \<not> encrypted h
    \<and> encrypt_payload (lib_crypto lib) t SERVER_ENCRYPTION_ALGORITHM d payload (sc_peer s1) = (Inr r, p2)
    \<and> out = to_bytes (h\<lparr>flags := flags h OR ENCRYPTED_FLAG\<rparr>) @ r"
  using assms
  unfolding encrypt_packet_def ensure_authenticated_def Let_def
  by (simp only: op_inv peer_Inr op_Inr mattempt_Inr on_peer_Inr join_header_payload_def)
     (elim exE conjE disjE; fastforce)

text \<open>What \<open>encrypt_packet\<close> returns is a frame that every receiver's length check accepts: the
  header of the clear packet with the encryption flag set, and a payload longer by the 28 bytes of
  tag and nonce.\<close>

theorem encrypted_packet_is_well_framed:
  assumes "aead_lengths (lib_crypto lib)" and "length packet < 2 ^ 32 - 28"
    and "encrypt_packet lib t packet s = (Inr out, s')"
  shows "\<exists>h payload sealed. parsePacket packet = Inr (h, payload)
           \<and> parsePacket out = Inr (h\<lparr>flags := flags h OR ENCRYPTED_FLAG\<rparr>, sealed)
           \<and> length sealed = length payload + 28"
proof -
  from encrypt_packet_cases [OF assms(3)] obtain s1 h payload d r p2 where
    "load_session_state s = (Inr (), s1)" and sp: "split_packet packet = Inr (h, payload)" and ne: "\<not> encrypted h"
    and e: "encrypt_payload (lib_crypto lib) t SERVER_ENCRYPTION_ALGORITHM d payload (sc_peer s1) = (Inr r, p2)"
    and out: "out = to_bytes (h\<lparr>flags := flags h OR ENCRYPTED_FLAG\<rparr>) @ r" by blast
  let ?h = "h\<lparr>flags := flags h OR ENCRYPTED_FLAG\<rparr>"
  have "length r = length payload + 28"
    by (rule encrypt_payload_Inr [OF e]) (auto dest: seal_length [OF assms(1)])
  moreover have len: "length payload = unat (len h)" "length payload < 2 ^ 32 - 28"
    using sp ne assms(2) by (auto simp: split_packet_Inr expected_len_def)
  moreover have "unat (expected_len ?h) = unat (len h) + 28"
    using len by (simp add: expected_len_def AEAD_TAIL_SIZE_def unat_word_ariths)
  ultimately show ?thesis
    using sp by (auto simp: split_packet_Inr parsePacket_Inr_iff out)
qed

theorem encrypted_packet_is_well_framed_witness:
  "\<exists>h sealed. parsePacket (projr (fst (encrypt_packet toy_lib 1000 (wrap_packet 10000001 7 9 0 [1, 2, 3]) toy_ready)))
     = Inr (h, sealed) \<and> length sealed = 31"
proof -
  let ?r = "encrypt_packet toy_lib 1000 (wrap_packet 10000001 7 9 0 [1, 2, 3]) toy_ready"
  have ok: "isl (fst ?r) = False" by code_simp
  have p: "parsePacket (wrap_packet 10000001 7 9 0 [1, 2, 3]) =
      Inr (\<lparr>from_peer_id = 10000001, to_peer_id = 7, packet_type = 9, flags = 0, forward_counter = 1,
            reserved = 0, len = 3\<rparr>, [1, 2, 3])" by code_simp
  have "aead_lengths (lib_crypto toy_lib)" by (simp add: toy_lib_def toy_aead_lengths)
  from encrypted_packet_is_well_framed [OF this, of "wrap_packet 10000001 7 9 0 [1, 2, 3]" 1000 toy_ready
      "projr (fst ?r)" "snd ?r"] ok p
  show ?thesis by (cases "?r"; cases "fst ?r") (auto simp: wrap_packet_def join_header_payload_def)
qed
lemma upsert_Sync:
  assumes "m_ok (sc_store s)" and "m_get (sc_store s) key = Some x" and "session_live t x"
    and "st_client_algorithm x = alg" and "generation \<noteq> Some (st_generation x)"
  shows "upsert_session lib t key generation alg s =
     (Inr \<lparr>sel_action = Sync, sel_generation = st_generation x, root_key_for_peer = Some (st_root_key x),
          session_root_key = st_root_key x, sel_initial_epoch = sync_epoch x + 1\<rparr>,
      s\<lparr>sc_store := m_put key (sync_session t x) (m_retain (\<lambda>_. session_live t) (sc_store s))\<rparr>)"
  using assms
  by (auto simp: upsert_session_def op_defs m_get_retain store_put_def Let_def) (simp_all add: sync_session_def)

text \<open>The selection that a \<open>Sync\<close> returns, the connection id made of the bytes drawn, and message 2.\<close>

definition sync_selection :: "stored_session \<Rightarrow> session_selection" where
  "sync_selection x =
     \<lparr>sel_action = Sync, sel_generation = st_generation x, root_key_for_peer = Some (st_root_key x),
      session_root_key = st_root_key x, sel_initial_epoch = sync_epoch x + 1\<rparr>"

definition uuid_of :: "bytes \<Rightarrow> uuid" where
  "uuid_of bs =
     \<lparr>part1 = u32_from_be (take 4 bs), part2 = u32_from_be (take 4 (drop 4 bs)),
      part3 = u32_from_be (take 4 (drop 8 bs)), part4 = u32_from_be (take 4 (drop 12 bs))\<rparr>"

definition sync_msg2 :: "'hs lib \<Rightarrow> 'hs secure_peer \<Rightarrow> string \<Rightarrow> string \<Rightarrow> 'hs \<Rightarrow> stored_session \<Rightarrow> bytes \<Rightarrow> noise_msg2" where
  "sync_msg2 lib p name secret hs x bs =
     noise_msg2_of p name (sync_selection x) (uuid_of bs) (secret_proof lib (ascii secret) (noise_hash lib hs))"

text \<open>C25: When a session is stored for a peer, anyone who names that network and that peer id in
  message 1 and does not know the current generation is sent the session's root key in message 2, if
  snow can write that one message, and the stored session is switched to a new epoch with empty replay
  windows.  Nothing has been proved at that point: the connection is not authenticated.\<close>

theorem sync_sends_root_key_before_proof:
  assumes "peer_id (sc_peer s) = Some pid" and "network_name (sc_peer s) = Some name"
    and "client_algorithm (sc_peer s) = Some alg" and "handshake (sc_peer s) = Some hs"
    and "session_key_of (sc_peer s) = None" and "secret \<noteq> []" and "m_ok (sc_store s)"
    and "m_get (sc_store s) (session_key_for (sc_peer s) name pid) = Some x" and "session_live t x"
    and "st_client_algorithm x = alg" and "a_session_generation (sc_peer s) \<noteq> Some (st_generation x)"
    and "st_attachments x \<noteq> - 1"
    and "entropy lib (sc_draws s) 16 = Inr bs"
    and "noise_write lib hs (encode_msg2 lib (sync_msg2 lib (sc_peer s) name secret hs x bs)) = (Inr out, hs')"
  shows "root_key_32 (sync_msg2 lib (sc_peer s) name secret hs x bs) = Some (st_root_key x)
       \<and> (\<exists>s' x'. build_msg2 lib t secret s = (Inr (wrap_packet (server_peer_id (sc_peer s)) pid PACKET_NOISE_MSG2 0 out), s')
       \<and> authenticated (sc_peer s') = authenticated (sc_peer s)
       \<and> m_get (sc_store s') (session_key_for (sc_peer s) name pid) = Some x'
       \<and> st_rx_slots x' = slots_default \<and> st_next_epoch x' = sync_epoch x + 1 \<and> st_send_seq x' = [0, 0])"
proof -
  define key where "key = session_key_for (sc_peer s) name pid"
  define sel where "sel = sync_selection x"
  define u where "u = uuid_of bs"
  define m where "m = noise_msg2_of (sc_peer s) name sel u (secret_proof lib (ascii secret) (noise_hash lib hs))"
  have m_eq: "sync_msg2 lib (sc_peer s) name secret hs x bs = m"
    by (simp add: sync_msg2_def m_def sel_def u_def)
  have w: "noise_write lib hs (encode_msg2 lib m) = (Inr out, hs')"
    using assms(14) by (simp only: m_eq)
  define st where "st = m_put key (sync_session t x) (m_retain (\<lambda>_. session_live t) (sc_store s))"
  have up: "upsert_session lib t key (a_session_generation (sc_peer s)) alg s = (Inr sel, s\<lparr>sc_store := st\<rparr>)"
    unfolding st_def sel_def key_def sync_selection_def using assms by (intro upsert_Sync) auto
  have g: "m_get st key = Some (sync_session t x)" by (simp add: st_def m_get_put)
  have "1 + st_attachments x \<noteq> 0" using assms(12) by (metis add_eq_0_iff minus_minus)
  moreover have "unat (1 + st_attachments x) < 2 ^ LENGTH(32)" by (rule unsigned_less)
  ultimately have "unat (st_attachments x) + 1 < 2 ^ 32"
    using unatSuc [of "st_attachments x"] by simp
  then have at: "checked_add (st_attachments (sync_session t x)) 1 = Some (st_attachments x + 1)"
    unfolding checked_add_def no_overflow_iff by (simp add: sync_session_def)
  have r: "root_key_32 m = Some (st_root_key x)" by (simp add: m_def noise_msg2_of_def sel_def sync_selection_def)
  have uu: "random_uuid lib (s\<lparr>sc_store := st\<rparr>) = (Inr u, s\<lparr>sc_store := st, sc_draws := Suc (sc_draws s)\<rparr>)"
    using assms(13) by (simp add: random_uuid_def fill_random_def mbind_def mret_def u_def uuid_of_def)
  obtain s' where b: "build_msg2 lib t secret s =
      (Inr (wrap_packet (sk_server_peer_id key) pid PACKET_NOISE_MSG2 0 out), s')"
    and s': "sc_store s' = m_put key ((sync_session t x)\<lparr>st_attachments := st_attachments x + 1, st_last_touch_ms := t\<rparr>) st"
      "authenticated (sc_peer s') = authenticated (sc_peer s)"
    using assms(1-6) up g at w uu
    by (auto simp: build_msg2_def key_def [symmetric] op_inv Let_def write_handshake_def m_def attach_session_def
        stored_of_def store_put_def load_session_state_def m_get_put load_from_def)
  have "sk_server_peer_id key = server_peer_id (sc_peer s)" by (simp add: key_def session_key_for_def)
  with r b s' show ?thesis
    unfolding m_eq
    by (intro conjI exI [of _ s'] exI)
       (auto simp: m_get_put key_def [symmetric] sync_session_def)
qed

text \<open>A second connection that names the network and the peer of a stored session.\<close>

definition toy_intruder :: "nat sec" where
  "toy_intruder = \<lparr>sc_peer = toy_pending, sc_store = [(toy_key, toy_session)], sc_draws = 0\<rparr>"

theorem sync_sends_root_key_before_proof_witness:
  "\<exists>s'. build_msg2 toy_lib 2000 ''s3cret'' toy_intruder =
       (Inr (wrap_packet 10000001 7 PACKET_NOISE_MSG2 0 (replicate 32 9)), s')
     \<and> \<not> authenticated (sc_peer s')"
proof -
  let ?m = "sync_msg2 toy_lib (sc_peer toy_intruder) ''home'' ''s3cret'' 1 toy_session (replicate 16 0)"
  have f: "peer_id (sc_peer toy_intruder) = Some 7" "network_name (sc_peer toy_intruder) = Some ''home''"
    "client_algorithm (sc_peer toy_intruder) = Some ''aes-gcm''" "handshake (sc_peer toy_intruder) = Some 1"
    "session_key_of (sc_peer toy_intruder) = None" "m_ok (sc_store toy_intruder)"
    "server_peer_id (sc_peer toy_intruder) = 10000001" "\<not> authenticated (sc_peer toy_intruder)"
    by (simp_all add: toy_intruder_def toy_pending_def)
  have g: "m_get (sc_store toy_intruder) (session_key_for (sc_peer toy_intruder) ''home'' 7) = Some toy_session"
    "session_live 2000 toy_session" "st_client_algorithm toy_session = ''aes-gcm''"
    "a_session_generation (sc_peer toy_intruder) \<noteq> Some (st_generation toy_session)"
    "st_attachments toy_session \<noteq> - 1" "st_root_key toy_session = replicate 32 9"
    by (simp_all add: toy_intruder_def toy_pending_def toy_key_def session_key_for_def toy_session_def new_session_def
        session_live_def)
  have e: "entropy toy_lib (sc_draws toy_intruder) 16 = Inr (replicate 16 0)" by (simp add: toy_lib_def)
  have n: "''s3cret'' \<noteq> []" by simp
  have w: "noise_write toy_lib 1 (encode_msg2 toy_lib ?m) = (Inr (replicate 32 9), 2)"
    using g(6) by (simp add: toy_lib_def sync_msg2_def noise_msg2_of_def sync_selection_def)
  from sync_sends_root_key_before_proof [OF f(1-5) n f(6) g(1-5) e w, THEN conjunct2] f(7,8)
  show ?thesis by metis
qed

end
