(* ===== verification/Connection.thy ===== *)
theory Connection
  imports Secure_Session
begin

text \<open>
  \<open>cloudflare/src/runtime/connection.ts\<close>: the state of one WebSocket connection, its handshake timer
  and the limit on what is sent to it.

  The socket is an object of the platform.  What the code can observe of it is modelled: its ready
  state, the frames handed to it, the close code, and whether \<open>send\<close> or \<open>close\<close> would throw, which the
  environment decides.  Times are those of \<open>Date.now()\<close> in milliseconds.

  The limit is a fixed window of one second, kept twice: once for bytes and once for frames.  The
  locale \<open>fixed_window\<close> has what such a counter promises and the bound that follows from it; it is
  interpreted for both counters of \<open>sendConnection\<close>.
\<close>

record websocket =
  readyState :: nat
  sent_frames :: "bytes list"
  closed_with :: "(nat \<times> string) option"
  send_throws :: bool
  close_throws :: bool

datatype connection_phase = Msg1 | Msg3 | Ready | Closed

record 'hs connection =
  peerId :: u32
  networkName :: string
  serverSessionId :: u64
  remotePublicKey :: bytes
  socket :: websocket
  secure :: "'hs secure_peer option"
  phase :: connection_phase
  handshakeTimer :: bool
  sendWindowStartedAt :: nat
  sentBytesInWindow :: nat
  sentFramesInWindow :: nat

definition HANDSHAKE_TIMEOUT_MS :: nat where "HANDSHAKE_TIMEOUT_MS = 10000"
definition SEND_WINDOW_MS :: int where "SEND_WINDOW_MS = 1000"
definition MAX_SEND_BYTES_PER_WINDOW :: nat where "MAX_SEND_BYTES_PER_WINDOW = 32 * 1024 * 1024"
definition MAX_SEND_FRAMES_PER_WINDOW :: nat where "MAX_SEND_FRAMES_PER_WINDOW = 4096"

text \<open>\<open>WebSocket.send\<close> and \<open>WebSocket.close\<close>.\<close>

definition socket_send :: "bytes \<Rightarrow> (websocket, unit) op" where
  "socket_send frame = (\<lambda>s.
     if send_throws s then (Inl (Err ''WebSocket send failed''), s)
     else (Inr (), s\<lparr>sent_frames := sent_frames s @ [frame]\<rparr>))"

definition socket_close :: "nat \<Rightarrow> string \<Rightarrow> (websocket, unit) op" where
  "socket_close code reason = (\<lambda>s.
     if close_throws s then (Inl (Err ''WebSocket close failed''), s)
     else (Inr (), s\<lparr>readyState := 2,
                    closed_with := (if closed_with s = None then Some (code, reason) else closed_with s)\<rparr>))"

definition on_socket :: "(websocket, 'a) op \<Rightarrow> ('hs connection, 'a) op" where
  "on_socket m = (\<lambda>c. case m (socket c) of (r, s) \<Rightarrow> (r, c\<lparr>socket := s\<rparr>))"

text \<open>\<open>randomU64\<close>: two 32-bit words, the first one high; zero is replaced by one.\<close>

definition randomU64 :: "u32 \<Rightarrow> u32 \<Rightarrow> u64" where
  "randomU64 hi lo = (let value = push_bit 32 (ucast hi) OR ucast lo in if value = 0 then 1 else value)"

definition createConnection ::
  "nat \<Rightarrow> u32 \<times> u32 \<Rightarrow> websocket \<Rightarrow> 'hs secure_peer \<Rightarrow> 'hs connection" where
  "createConnection now words sock sec =
     \<lparr>peerId = 0, networkName = [], serverSessionId = randomU64 (fst words) (snd words),
      remotePublicKey = [], socket = sock, secure = Some sec, phase = Msg1, handshakeTimer = True,
      sendWindowStartedAt = now, sentBytesInWindow = 0, sentFramesInWindow = 0\<rparr>"

definition completeHandshake :: "'hs connection \<Rightarrow> 'hs connection" where
  "completeHandshake c = c\<lparr>handshakeTimer := False, phase := Ready\<rparr>"

text \<open>\<open>connection.secure.free()\<close> drops the \<open>SecurePeer\<close>, which releases its session in the store.\<close>

definition disposeConnection :: "nat \<Rightarrow> 'hs connection \<Rightarrow> store \<Rightarrow> 'hs connection \<times> store" where
  "disposeConnection now c store =
     (c\<lparr>handshakeTimer := False, secure := None\<rparr>,
      case secure c of None \<Rightarrow> store | Some p \<Rightarrow> drop_peer (of_nat now) p store)"

definition sendConnection :: "nat \<Rightarrow> bytes \<Rightarrow> ('hs connection, unit) op" where
  "sendConnection now packet =
     mbind (mmod (\<lambda>c. if SEND_WINDOW_MS \<le> int now - int (sendWindowStartedAt c)
                      then c\<lparr>sendWindowStartedAt := now, sentBytesInWindow := 0, sentFramesInWindow := 0\<rparr>
                      else c)) (\<lambda>_.
     mbind (mget id) (\<lambda>c.
     if MAX_SEND_BYTES_PER_WINDOW < sentBytesInWindow c + length packet \<or>
        MAX_SEND_FRAMES_PER_WINDOW \<le> sentFramesInWindow c
     then mraise (Err ''WebSocket outbound relay capacity exceeded'')
     else if readyState (socket c) \<noteq> WS_OPEN
     then mraise (Err ''WebSocket is not open'')
     else
       mbind (mmod (\<lambda>c. c\<lparr>sentBytesInWindow := sentBytesInWindow c + length packet,
                          sentFramesInWindow := sentFramesInWindow c + 1\<rparr>)) (\<lambda>_.
       on_socket (socket_send packet))))"

subsection \<open>Frames\<close>

lemma randomU64_nonzero [simp]: "randomU64 hi lo \<noteq> 0"
  by (simp add: randomU64_def Let_def)

lemma sendConnection_frame:
  "c' = snd (sendConnection now p c) \<Longrightarrow>
     peerId c' = peerId c \<and> networkName c' = networkName c \<and> phase c' = phase c \<and> secure c' = secure c
   \<and> serverSessionId c' = serverSessionId c \<and> remotePublicKey c' = remotePublicKey c
   \<and> handshakeTimer c' = handshakeTimer c \<and> readyState (socket c') = readyState (socket c)
   \<and> closed_with (socket c') = closed_with (socket c)"
  by (auto simp: sendConnection_def op_defs on_socket_def socket_send_def)

lemma sendConnection_frames:
  "sent_frames (socket (snd (sendConnection now p c))) =
     sent_frames (socket c) @ (if fst (sendConnection now p c) = Inr () then [p] else [])"
  by (auto simp: sendConnection_def op_defs on_socket_def socket_send_def)

definition within_limits :: "'hs connection \<Rightarrow> bool" where
  "within_limits c \<longleftrightarrow> sentBytesInWindow c \<le> MAX_SEND_BYTES_PER_WINDOW
     \<and> sentFramesInWindow c \<le> MAX_SEND_FRAMES_PER_WINDOW"

lemma sendConnection_within: "keeps within_limits (sendConnection now p)"
  by (auto simp: keeps_def within_limits_def sendConnection_def op_defs on_socket_def socket_send_def
      case_prod_unfold)

subsection \<open>The contract of a fixed window\<close>

locale fixed_window =
  fixes start :: "'s \<Rightarrow> nat" and used :: "'s \<Rightarrow> nat"
    and step :: "nat \<Rightarrow> 'x \<Rightarrow> 's \<Rightarrow> bool \<times> 's" and cost :: "'x \<Rightarrow> nat"
    and width :: nat and limit :: nat
  assumes same_window: "t < start s + width \<Longrightarrow>
      start (snd (step t x s)) = start s
    \<and> used s + (if fst (step t x s) then cost x else 0) \<le> used (snd (step t x s))"
    and next_window: "start s + width \<le> t \<Longrightarrow>
      start (snd (step t x s)) = t \<and> (if fst (step t x s) then cost x else 0) \<le> used (snd (step t x s))"
    and bounded: "used s \<le> limit \<Longrightarrow> used (snd (step t x s)) \<le> limit"
begin

text \<open>The cost of what is let through at times from \<open>a\<close> on and before \<open>a + width\<close>.\<close>

fun spent :: "nat \<Rightarrow> (nat \<times> 'x) list \<Rightarrow> 's \<Rightarrow> nat" where
  "spent a [] s = 0"
| "spent a ((t, x) # xs) s =
     (if fst (step t x s) \<and> a \<le> t \<and> t < a + width then cost x else 0) + spent a xs (snd (step t x s))"

lemma spent_past: "(\<forall>p \<in> set xs. a + width \<le> fst p) \<Longrightarrow> spent a xs s = 0"
  by (induction xs arbitrary: s) auto

lemma spent_inside:
  "sorted (map fst xs) \<Longrightarrow> a \<le> start s \<Longrightarrow> used s \<le> limit \<Longrightarrow> spent a xs s \<le> limit - used s"
proof (induction xs arbitrary: s)
  case (Cons p xs)
  obtain t x where p: "p = (t, x)" by (cases p)
  let ?s = "snd (step t x s)"
  show ?case
  proof (cases "t < start s + width")
    case True
    then have w: "start ?s = start s" "used s + (if fst (step t x s) then cost x else 0) \<le> used ?s"
      using same_window by blast+
    have "spent a xs ?s \<le> limit - used ?s"
      using Cons w bounded by simp
    with w bounded [OF Cons.prems(3), of t x] show ?thesis by (auto simp: p)
  next
    case False
    then have "a + width \<le> t" using Cons.prems(2) by simp
    then have "\<forall>q \<in> set (p # xs). a + width \<le> fst q" using Cons.prems(1) by (auto simp: p)
    then show ?thesis using spent_past by simp
  qed
qed simp

lemma spent_from:
  "sorted (map fst xs) \<Longrightarrow> (\<forall>p \<in> set xs. a \<le> fst p) \<Longrightarrow> used s \<le> limit \<Longrightarrow>
     spent a xs s \<le> (limit - used s) + limit"
proof (induction xs arbitrary: s)
  case (Cons p xs)
  obtain t x where p: "p = (t, x)" by (cases p)
  let ?s = "snd (step t x s)"
  have le: "used ?s \<le> limit" using bounded Cons.prems(3) .
  show ?case
  proof (cases "t < start s + width")
    case True
    then have w: "used s + (if fst (step t x s) then cost x else 0) \<le> used ?s"
      using same_window by blast
    have "spent a xs ?s \<le> (limit - used ?s) + limit" using Cons le by simp
    with w le show ?thesis by (auto simp: p)
  next
    case False
    then have w: "start ?s = t" "(if fst (step t x s) then cost x else 0) \<le> used ?s"
      using next_window by simp_all
    have "spent a xs ?s \<le> limit - used ?s"
      using Cons.prems le w by (intro spent_inside) (auto simp: p)
    with w le show ?thesis by (auto simp: p)
  qed
qed simp

lemma spent_bound:
  "sorted (map fst xs) \<Longrightarrow> used s \<le> limit \<Longrightarrow> spent a xs s \<le> 2 * limit"
proof (induction xs arbitrary: s)
  case (Cons p xs)
  obtain t x where p: "p = (t, x)" by (cases p)
  show ?case
  proof (cases "a \<le> t")
    case True
    then have "\<forall>q \<in> set (p # xs). a \<le> fst q" using Cons.prems(1) by (auto simp: p)
    with spent_from [OF Cons.prems(1) _ Cons.prems(2)] show ?thesis by fastforce
  next
    case False
    with Cons bounded show ?thesis by (simp add: p)
  qed
qed simp

end

text \<open>A call of \<open>sendConnection\<close> as a step of the limiter.\<close>

definition send_step :: "nat \<Rightarrow> bytes \<Rightarrow> 'hs connection \<Rightarrow> bool \<times> 'hs connection" where
  "send_step now p c = (fst (sendConnection now p c) = Inr (), snd (sendConnection now p c))"

definition frame_cost :: "bytes \<Rightarrow> nat" where
  "frame_cost p = 1"

lemma send_step_same:
  assumes "now < sendWindowStartedAt c + 1000"
  shows "sendWindowStartedAt (snd (send_step now p c)) = sendWindowStartedAt c
   \<and> sentBytesInWindow c + (if fst (send_step now p c) then length p else 0)
       \<le> sentBytesInWindow (snd (send_step now p c))"
    and "sendWindowStartedAt (snd (send_step now p c)) = sendWindowStartedAt c
   \<and> sentFramesInWindow c + (if fst (send_step now p c) then frame_cost p else 0)
       \<le> sentFramesInWindow (snd (send_step now p c))"
  using assms
  by (auto simp: send_step_def sendConnection_def op_defs on_socket_def socket_send_def SEND_WINDOW_MS_def frame_cost_def)

lemma send_step_next:
  assumes "sendWindowStartedAt c + 1000 \<le> now"
  shows "sendWindowStartedAt (snd (send_step now p c)) = now
   \<and> (if fst (send_step now p c) then length p else 0) \<le> sentBytesInWindow (snd (send_step now p c))"
    and "sendWindowStartedAt (snd (send_step now p c)) = now
   \<and> (if fst (send_step now p c) then frame_cost p else 0) \<le> sentFramesInWindow (snd (send_step now p c))"
  using assms
  by (auto simp: send_step_def sendConnection_def op_defs on_socket_def socket_send_def SEND_WINDOW_MS_def frame_cost_def)

lemma send_step_bounded:
  "sentBytesInWindow c \<le> MAX_SEND_BYTES_PER_WINDOW \<Longrightarrow>
     sentBytesInWindow (snd (send_step now p c)) \<le> MAX_SEND_BYTES_PER_WINDOW"
  "sentFramesInWindow c \<le> MAX_SEND_FRAMES_PER_WINDOW \<Longrightarrow>
     sentFramesInWindow (snd (send_step now p c)) \<le> MAX_SEND_FRAMES_PER_WINDOW"
  by (auto simp: send_step_def sendConnection_def op_defs on_socket_def socket_send_def)

interpretation byte_window: fixed_window sendWindowStartedAt sentBytesInWindow send_step length 1000
  MAX_SEND_BYTES_PER_WINDOW
  by unfold_locales (rule send_step_same send_step_next send_step_bounded, assumption)+

interpretation frame_window: fixed_window sendWindowStartedAt sentFramesInWindow send_step frame_cost 1000
  MAX_SEND_FRAMES_PER_WINDOW
  by unfold_locales (rule send_step_same send_step_next send_step_bounded, assumption)+

text \<open>The packets that calls of \<open>sendConnection\<close> hand to the socket from time \<open>a\<close> on and before \<open>a + 1000\<close>.\<close>

fun sent_between :: "nat \<Rightarrow> (nat \<times> bytes) list \<Rightarrow> 'hs connection \<Rightarrow> bytes list" where
  "sent_between a [] c = []"
| "sent_between a ((now, p) # calls) c =
     (if fst (sendConnection now p c) = Inr () \<and> a \<le> now \<and> now < a + 1000 then [p] else []) @
     sent_between a calls (snd (sendConnection now p c))"

lemma sent_between_spent:
  "sum_list (map length (sent_between a calls c)) = byte_window.spent a calls c"
  "length (sent_between a calls c) = frame_window.spent a calls c"
  by (induction calls arbitrary: c) (auto simp: send_step_def frame_cost_def)

text \<open>C30: Whatever is sent and whenever, any span of one second carries at most 64 MiB and 8192 frames to
  one client: twice the limit of a window.\<close>

theorem outbound_rate_bound:
  assumes "sorted (map fst calls)" and "within_limits c"
  shows "sum_list (map length (sent_between a calls c)) \<le> 64 * 1024 * 1024
       \<and> length (sent_between a calls c) \<le> 8192"
  using byte_window.spent_bound [OF assms(1), of c a] frame_window.spent_bound [OF assms(1), of c a] assms(2)
  unfolding sent_between_spent
  by (simp add: within_limits_def MAX_SEND_BYTES_PER_WINDOW_def MAX_SEND_FRAMES_PER_WINDOW_def)

definition open_socket :: websocket where
  "open_socket = \<lparr>readyState = 1, sent_frames = [], closed_with = None, send_throws = False, close_throws = False\<rparr>"

theorem outbound_rate_bound_witness:
  "length (sent_between 0 [(5, [1, 2]), (900, [3])] (createConnection 0 (1, 2) open_socket toy_pending)) \<le> 8192
     \<and> sent_between 0 [(5, [1, 2]), (900, [3])] (createConnection 0 (1, 2) open_socket toy_pending) = [[1, 2], [3]]"
proof -
  let ?c = "createConnection 0 (1, 2) open_socket toy_pending"
  have "sent_between 0 [(5, [1, 2]), (900, [3])] ?c = [[1, 2], [3]]"
    by (simp add: sendConnection_def op_defs on_socket_def socket_send_def createConnection_def
        open_socket_def WS_OPEN_def SEND_WINDOW_MS_def MAX_SEND_BYTES_PER_WINDOW_def
        MAX_SEND_FRAMES_PER_WINDOW_def)
  moreover have "within_limits ?c" by (simp add: within_limits_def createConnection_def)
  ultimately show ?thesis using outbound_rate_bound [of "[(5, [1, 2]), (900, [3])]" ?c 0] by simp
qed

text \<open>\<open>sendConnection\<close> in full: a packet is handed to the socket, once and unchanged, exactly when the
  window of the moment has room for it and the socket is open and takes it; otherwise nothing is sent
  and the error says why, the capacity being checked first.\<close>

theorem send_connection_outcomes:
  "fst (sendConnection now p c) =
     (let expired = (1000 \<le> int now - int (sendWindowStartedAt c));
          bytes_used = (if expired then 0 else sentBytesInWindow c);
          frames_used = (if expired then 0 else sentFramesInWindow c)
      in if 32 * 1024 * 1024 < bytes_used + length p \<or> 4096 \<le> frames_used
         then Inl (Err ''WebSocket outbound relay capacity exceeded'')
         else if readyState (socket c) \<noteq> 1 then Inl (Err ''WebSocket is not open'')
         else if send_throws (socket c) then Inl (Err ''WebSocket send failed'') else Inr ())
   \<and> sent_frames (socket (snd (sendConnection now p c))) =
       sent_frames (socket c) @ (if fst (sendConnection now p c) = Inr () then [p] else [])"
  by (auto simp: sendConnection_def op_defs on_socket_def socket_send_def SEND_WINDOW_MS_def WS_OPEN_def
      MAX_SEND_BYTES_PER_WINDOW_def MAX_SEND_FRAMES_PER_WINDOW_def Let_def)

end
