(* ===== verification/Peer_Center.thy ===== *)
theory Peer_Center
  imports Prelude
begin

text \<open>
  \<open>cloudflare/wasm/src/peer_center.rs\<close>: per network, which peer reports a direct link to which, with the
  time of the report, and a digest over the whole map by which a client learns that it is current.

  \<open>DirectConnectedPeerInfo\<close> is a generated protobuf type that the code only copies and hashes; it is the
  type variable \<open>'x\<close>.  The codecs of the four messages and the hasher (\<open>DefaultHasher\<close>, whose algorithm
  the standard library leaves unspecified) are fields of the parameter.
\<close>

subsection \<open>State\<close>

datatype src_dst_peer_pair = SrcDst (src: u32) (dst: u32)

text \<open>\<open>derive(PartialOrd, Ord)\<close>: lexicographic in the order of the fields.\<close>

instantiation src_dst_peer_pair :: linorder
begin

definition less_eq_src_dst_peer_pair :: "src_dst_peer_pair \<Rightarrow> src_dst_peer_pair \<Rightarrow> bool" where
  "less_eq_src_dst_peer_pair a b \<longleftrightarrow> src a < src b \<or> (src a = src b \<and> dst a \<le> dst b)"

definition less_src_dst_peer_pair :: "src_dst_peer_pair \<Rightarrow> src_dst_peer_pair \<Rightarrow> bool" where
  "less_src_dst_peer_pair a b \<longleftrightarrow> src a < src b \<or> (src a = src b \<and> dst a < dst b)"

instance
  by standard
     (auto simp: less_eq_src_dst_peer_pair_def less_src_dst_peer_pair_def intro: src_dst_peer_pair.expand)

end

record 'x peer_center_entry =
  pc_info :: 'x
  update_time_ms :: u64

record 'x peer_center_group =
  global_peer_map :: "(src_dst_peer_pair, 'x peer_center_entry) jsmap"
  peer_report_time :: "(u32, u64) jsmap"
  digest :: u64

type_synonym 'x peer_center = "(string, 'x peer_center_group) jsmap"

record 'x report_request =
  report_my_peer_id :: u32
  report_peers_map :: "(u32 \<times> 'x) list option"

text \<open>A \<open>BTreeMap\<close> is the list of its entries in ascending order of the keys.\<close>

fun bt_insert :: "'k::linorder \<Rightarrow> 'v \<Rightarrow> ('k \<times> 'v) list \<Rightarrow> ('k \<times> 'v) list" where
  "bt_insert k v [] = [(k, v)]"
| "bt_insert k v ((k', v') # m) =
     (if k < k' then (k, v) # (k', v') # m
      else if k = k' then (k, v) # m
      else (k', v') # bt_insert k v m)"

record 'x peer_center_lib =
  decode_report :: "bytes \<Rightarrow> error + 'x report_request"
  encode_report_response :: bytes
  decode_map_request :: "bytes \<Rightarrow> error + u64"
  encode_map_response :: "(u32 \<times> (u32 \<times> 'x) list) list \<Rightarrow> u64 option \<Rightarrow> bytes"
  hash_entries :: "(src_dst_peer_pair \<times> 'x) list \<Rightarrow> u64"

definition empty_group :: "'x peer_center_group" where
  "empty_group = \<lparr>global_peer_map = [], peer_report_time = [], digest = 0\<rparr>"

subsection \<open>Operations\<close>

definition group_mut :: "string \<Rightarrow> 'x peer_center \<Rightarrow> 'x peer_center_group \<times> 'x peer_center" where
  "group_mut key pc = (case m_get pc key of
     Some g \<Rightarrow> (g, pc)
   | None \<Rightarrow> (empty_group, m_put key empty_group pc))"

definition calc_digest :: "'x peer_center_lib \<Rightarrow> 'x peer_center_group \<Rightarrow> u64" where
  "calc_digest lib g =
     hash_entries lib (map (\<lambda>k. (k, pc_info (the (m_get (global_peer_map g) k))))
                         (sort (m_keys (global_peer_map g))))"

definition with_digest :: "'x peer_center_lib \<Rightarrow> 'x peer_center_group \<Rightarrow> 'x peer_center_group" where
  "with_digest lib g = g\<lparr>digest := calc_digest lib g\<rparr>"

definition insert_report :: "u32 \<Rightarrow> u64 \<Rightarrow> u32 \<times> 'x \<Rightarrow> 'x peer_center_group \<Rightarrow> 'x peer_center_group" where
  "insert_report me now_ms p g =
     g\<lparr>global_peer_map := m_put (SrcDst me (fst p)) \<lparr>pc_info = snd p, update_time_ms = now_ms\<rparr>
                            (global_peer_map g)\<rparr>"

definition report_peers ::
  "'x peer_center_lib \<Rightarrow> u64 \<Rightarrow> string \<Rightarrow> u32 \<Rightarrow> bytes \<Rightarrow> ('x peer_center, bytes) op" where
  "report_peers lib now_ms group_key authenticated_peer_id report_bytes =
     mbind (mlift (decode_report lib report_bytes)) (\<lambda>req.
     if report_my_peer_id req \<noteq> authenticated_peer_id
     then mraise (Err ''ReportPeersRequest peer id does not match the authenticated connection'')
     else
       let me = report_my_peer_id req;
           peers = (case report_peers_map req of None \<Rightarrow> [] | Some ps \<Rightarrow> ps)
       in
       mbind (mrun (group_mut group_key)) (\<lambda>data.
       let data = data\<lparr>peer_report_time := m_put me now_ms (peer_report_time data)\<rparr>;
           data = fold (insert_report me now_ms) peers data;
           data = with_digest lib data
       in
       mbind (mmod (m_put group_key data)) (\<lambda>_. mret (encode_report_response lib))))"

definition pc_remove_peer :: "'x peer_center_lib \<Rightarrow> string \<Rightarrow> u32 \<Rightarrow> 'x peer_center \<Rightarrow> 'x peer_center" where
  "pc_remove_peer lib group_key pid pc = (case m_get pc group_key of
     None \<Rightarrow> pc
   | Some data \<Rightarrow>
       (let data = data\<lparr>peer_report_time := m_del pid (peer_report_time data),
                       global_peer_map := m_retain (\<lambda>pair _. src pair \<noteq> pid \<and> dst pair \<noteq> pid)
                                            (global_peer_map data)\<rparr>;
            data = with_digest lib data
        in if global_peer_map data = [] \<and> peer_report_time data = [] then m_del group_key pc
           else m_put group_key data pc))"

definition add_global :: "src_dst_peer_pair \<times> 'x peer_center_entry \<Rightarrow>
    (u32 \<times> (u32 \<times> 'x) list) list \<Rightarrow> (u32 \<times> (u32 \<times> 'x) list) list" where
  "add_global p m =
     (let inner = (case map_of m (src (fst p)) of None \<Rightarrow> [] | Some ds \<Rightarrow> ds)
      in bt_insert (src (fst p)) (bt_insert (dst (fst p)) (pc_info (snd p)) inner) m)"

definition get_global_peer_map ::
  "'x peer_center_lib \<Rightarrow> string \<Rightarrow> bytes \<Rightarrow> ('x peer_center, bytes) op" where
  "get_global_peer_map lib group_key request_bytes =
     mbind (mlift (decode_map_request lib request_bytes)) (\<lambda>known.
     mbind (mrun (group_mut group_key)) (\<lambda>data.
     if known = digest data \<and> known \<noteq> 0 then mret (encode_map_response lib [] None)
     else mret (encode_map_response lib (fold add_global (global_peer_map data) []) (Some (digest data)))))"

definition fresh :: "u64 \<Rightarrow> u64 \<Rightarrow> u64 \<Rightarrow> bool" where
  "fresh now_ms ttl_ms t \<longleftrightarrow> sat_sub now_ms t < ttl_ms"

definition clean_outdated :: "'x peer_center_lib \<Rightarrow> u64 \<Rightarrow> u64 \<Rightarrow> 'x peer_center \<Rightarrow> 'x peer_center" where
  "clean_outdated lib now_ms ttl_ms pc =
     m_retain (\<lambda>_ data. global_peer_map data \<noteq> [] \<or> peer_report_time data \<noteq> [])
       (m_map (\<lambda>data. with_digest lib
            (data\<lparr>peer_report_time := m_retain (\<lambda>_. fresh now_ms ttl_ms) (peer_report_time data),
                  global_peer_map := m_retain (\<lambda>_ e. fresh now_ms ttl_ms (update_time_ms e))
                                       (global_peer_map data)\<rparr>)) pc)"

subsection \<open>Ordered maps\<close>

lemma bt_insert_get: "map_of (bt_insert k v m) k' = (if k' = k then Some v else map_of m k')"
  by (induction k v m rule: bt_insert.induct) auto

lemma bt_insert_keys: "set (map fst (bt_insert k v m)) = insert k (set (map fst m))"
  by (induction k v m rule: bt_insert.induct) auto

lemma bt_insert_sorted:
  "sorted_wrt (<) (map fst m) \<Longrightarrow> sorted_wrt (<) (map fst (bt_insert k v m))"
proof (induction k v m rule: bt_insert.induct)
  case (2 k v k' v' m)
  then show ?case by (auto simp: bt_insert_keys simp del: set_map)
qed simp

lemma bt_insert_all: "(\<forall>p \<in> set m. P (snd p)) \<Longrightarrow> P v \<Longrightarrow> \<forall>p \<in> set (bt_insert k v m). P (snd p)"
  by (induction k v m rule: bt_insert.induct) auto

subsection \<open>What the map says\<close>

text \<open>The entry of a pair in the answer to \<open>GetGlobalPeerMap\<close>.\<close>

definition listed :: "(u32 \<times> (u32 \<times> 'x) list) list \<Rightarrow> src_dst_peer_pair \<Rightarrow> 'x option" where
  "listed m pair = (case map_of m (src pair) of None \<Rightarrow> None | Some ds \<Rightarrow> map_of ds (dst pair))"

definition ascending :: "(u32 \<times> (u32 \<times> 'x) list) list \<Rightarrow> bool" where
  "ascending m \<longleftrightarrow> sorted_wrt (<) (map fst m) \<and> (\<forall>p \<in> set m. sorted_wrt (<) (map fst (snd p)))"

lemma listed_add:
  "listed (add_global (pair, e) m) pair' = (if pair' = pair then Some (pc_info e) else listed m pair')"
  by (cases pair; cases pair') (auto simp: listed_def add_global_def Let_def bt_insert_get split: option.splits)

lemma ascending_add: "ascending m \<Longrightarrow> ascending (add_global p m)"
  unfolding ascending_def add_global_def Let_def
  by (intro conjI bt_insert_sorted bt_insert_all) (fastforce split: option.splits dest: map_of_SomeD)+

lemma listed_fold:
  "m_ok xs \<Longrightarrow> listed (fold add_global xs m) pair =
     (case m_get xs pair of Some e \<Rightarrow> Some (pc_info e) | None \<Rightarrow> listed m pair)"
proof (induction xs arbitrary: m)
  case (Cons p xs)
  obtain q e where p: "p = (q, e)" by (cases p)
  have "m_get xs q = None" using Cons.prems by (auto simp: p map_of_eq_None_iff)
  with Cons show ?case by (auto simp: p listed_add split: option.splits)
qed simp

lemma ascending_fold: "ascending m \<Longrightarrow> ascending (fold add_global xs m)"
  by (induction xs arbitrary: m) (simp_all add: ascending_add)

lemma listed_empty [simp]: "listed [] pair = None" and ascending_empty [simp]: "ascending []"
  by (simp_all add: listed_def ascending_def)

subsection \<open>The invariant of the groups\<close>

definition pc_group_ok :: "'x peer_center_lib \<Rightarrow> 'x peer_center_group \<Rightarrow> bool" where
  "pc_group_ok lib g \<longleftrightarrow> m_ok (global_peer_map g) \<and> m_ok (peer_report_time g)
     \<and> (digest g = calc_digest lib g \<or> g = empty_group)"

definition pc_ok :: "'x peer_center_lib \<Rightarrow> 'x peer_center \<Rightarrow> bool" where
  "pc_ok lib pc \<longleftrightarrow> m_ok pc \<and> list_all (\<lambda>(_, g). pc_group_ok lib g) pc"

lemma pc_group_ok_digest:
  "m_ok (global_peer_map g) \<Longrightarrow> m_ok (peer_report_time g) \<Longrightarrow> pc_group_ok lib (with_digest lib g)"
  by (simp add: pc_group_ok_def with_digest_def calc_digest_def)

lemma pc_group_ok_empty [simp]: "pc_group_ok lib empty_group"
  by (simp add: pc_group_ok_def empty_group_def)

lemma with_digest_sel [simp]:
  "global_peer_map (with_digest lib g) = global_peer_map g"
  "peer_report_time (with_digest lib g) = peer_report_time g"
  "digest (with_digest lib g) = calc_digest lib g"
  by (simp_all add: with_digest_def)

lemma calc_digest_with [simp]: "calc_digest lib (with_digest lib g) = calc_digest lib g"
  by (simp add: calc_digest_def)

lemma pc_ok_get: "pc_ok lib pc \<Longrightarrow> m_get pc k = Some g \<Longrightarrow> pc_group_ok lib g"
  by (auto simp: pc_ok_def dest: list_all_m_get)

lemma pc_ok_put: "pc_ok lib pc \<Longrightarrow> pc_group_ok lib g \<Longrightarrow> pc_ok lib (m_put k g pc)"
  by (simp add: pc_ok_def list_all_m_put)

lemma pc_ok_del: "pc_ok lib pc \<Longrightarrow> pc_ok lib (m_del k pc)"
  by (simp add: pc_ok_def list_all_m_del)

lemma group_mut_ok:
  "pc_ok lib pc \<Longrightarrow> group_mut k pc = (g, pc') \<Longrightarrow> pc_ok lib pc' \<and> pc_group_ok lib g \<and> m_get pc' k = Some g"
  by (auto simp: group_mut_def pc_ok_get pc_ok_put m_get_put split: option.splits)

lemma insert_reports:
  "m_ok (global_peer_map g) \<Longrightarrow> m_ok (global_peer_map (fold (insert_report me now_ms) ps g))"
  "peer_report_time (fold (insert_report me now_ms) ps g) = peer_report_time g"
  by (induction ps arbitrary: g) (simp_all add: insert_report_def)

lemma insert_reports_get:
  "src pair \<noteq> me \<Longrightarrow>
     m_get (global_peer_map (fold (insert_report me now_ms) ps g)) pair = m_get (global_peer_map g) pair"
  by (induction ps arbitrary: g) (auto simp: insert_report_def m_get_put)

lemma insert_reports_own:
  assumes "distinct (map fst ps)"
  shows "m_get (global_peer_map (fold (insert_report me now_ms) ps g)) (SrcDst me d) =
     (case map_of ps d of Some x \<Rightarrow> Some \<lparr>pc_info = x, update_time_ms = now_ms\<rparr>
      | None \<Rightarrow> m_get (global_peer_map g) (SrcDst me d))"
  using assms
proof (induction ps arbitrary: g)
  case (Cons p ps)
  obtain d' x where p: "p = (d', x)" by (cases p)
  have "map_of ps d' = None" using Cons.prems by (auto simp: p map_of_eq_None_iff)
  with Cons show ?case by (auto simp: p insert_report_def m_get_put split: option.splits)
qed simp

lemma pc_ok_keys:
  "pc_ok lib pc \<Longrightarrow> m_get pc k = Some g \<Longrightarrow> m_ok (global_peer_map g) \<and> m_ok (peer_report_time g)"
  using pc_ok_get by (fastforce simp: pc_group_ok_def)

lemma keeps_report_peers: "keeps (pc_ok lib) (report_peers lib now_ms key pid bs)"
proof (rule keepsI)
  fix pc
  assume ok: "pc_ok lib pc"
  obtain g pc' where g: "group_mut key pc = (g, pc')" by (cases "group_mut key pc")
  with ok have g_ok: "pc_ok lib pc'" "m_ok (global_peer_map g)" "m_ok (peer_report_time g)"
    using group_mut_ok pc_ok_keys by blast+
  then show "pc_ok lib (snd (report_peers lib now_ms key pid bs pc))"
    unfolding report_peers_def
    by (auto simp: op_defs Let_def g ok split: sum.splits
        intro!: pc_ok_put pc_group_ok_digest insert_reports simp: insert_reports(2))
qed

lemma pc_ok_remove:
  assumes ok: "pc_ok lib pc"
  shows "pc_ok lib (pc_remove_peer lib key pid pc)"
proof (cases "m_get pc key")
  case (Some g)
  then show ?thesis
    unfolding pc_remove_peer_def Let_def option.case if_splits
    using pc_ok_keys [OF ok Some] ok by (auto intro!: pc_ok_put pc_ok_del pc_group_ok_digest)
qed (simp add: pc_remove_peer_def ok)

lemma keeps_get_global_peer_map: "keeps (pc_ok lib) (get_global_peer_map lib key bs)"
  unfolding get_global_peer_map_def
  by (intro pres keeps_run) (use group_mut_ok in \<open>metis prod.collapse\<close>)

lemma pc_ok_clean: "pc_ok lib pc \<Longrightarrow> pc_ok lib (clean_outdated lib now_ms ttl_ms pc)"
  unfolding clean_outdated_def pc_ok_def
  by (intro conjI m_ok_retain list_all_m_retain)
     (auto simp: m_map_def list_all_iff case_prod_unfold comp_def pc_group_ok_def
       intro!: pc_group_ok_digest [unfolded pc_group_ok_def])

text \<open>The states the component can be in.\<close>

inductive pc_reachable :: "'x peer_center_lib \<Rightarrow> 'x peer_center \<Rightarrow> bool" for lib where
  pc_start: "pc_reachable lib []"
| pc_report: "pc_reachable lib pc \<Longrightarrow> pc_reachable lib (snd (report_peers lib now_ms key pid bs pc))"
| pc_removed: "pc_reachable lib pc \<Longrightarrow> pc_reachable lib (pc_remove_peer lib key pid pc)"
| pc_asked: "pc_reachable lib pc \<Longrightarrow> pc_reachable lib (snd (get_global_peer_map lib key bs pc))"
| pc_cleaned: "pc_reachable lib pc \<Longrightarrow> pc_reachable lib (clean_outdated lib now_ms ttl_ms pc)"

lemma pc_reachable_ok: "pc_reachable lib pc \<Longrightarrow> pc_ok lib pc"
  by (induction rule: pc_reachable.induct)
     (simp_all add: pc_ok_remove pc_ok_clean keepsD [OF keeps_report_peers]
       keepsD [OF keeps_get_global_peer_map], simp add: pc_ok_def)

subsection \<open>What a client can learn and change\<close>

definition pc_entry :: "'x peer_center \<Rightarrow> string \<Rightarrow> src_dst_peer_pair \<Rightarrow> 'x peer_center_entry option" where
  "pc_entry pc key pair = (case m_get pc key of None \<Rightarrow> None | Some g \<Rightarrow> m_get (global_peer_map g) pair)"

lemma pc_entry_put:
  "pc_entry (m_put k g pc) k' pair = (if k' = k then m_get (global_peer_map g) pair else pc_entry pc k' pair)"
  by (simp add: pc_entry_def m_get_put)

lemma group_mut_entry:
  "group_mut k pc = (g, pc') \<Longrightarrow>
     pc_entry pc' = pc_entry pc \<and> m_get (global_peer_map g) = pc_entry pc k"
  by (auto simp: group_mut_def pc_entry_def m_get_put empty_group_def fun_eq_iff split: option.splits if_splits)

definition reported :: "'x report_request \<Rightarrow> (u32 \<times> 'x) list" where
  "reported req = (case report_peers_map req of None \<Rightarrow> [] | Some ps \<Rightarrow> ps)"

text \<open>C31: A report changes only what the authenticated peer says about itself, in its own network: a pair
  keeps its entry unless its source is the peer and the report lists its destination, which then has
  the reported information and the time of the report.  A report in another peer's name, or one that
  does not decode, changes nothing.  (The decoder returns a \<open>BTreeMap\<close>: every destination once.)\<close>

theorem report_speaks_for_itself:
  assumes "\<And>req. decode_report lib bs = Inr req \<Longrightarrow> distinct (map fst (reported req))"
  shows "pc_entry (snd (report_peers lib now_ms key pid bs pc)) key' pair =
    (case decode_report lib bs of Inl _ \<Rightarrow> pc_entry pc key' pair
     | Inr req \<Rightarrow>
         if key' = key \<and> src pair = pid \<and> report_my_peer_id req = pid
         then (case map_of (reported req) (dst pair) of
                 Some x \<Rightarrow> Some \<lparr>pc_info = x, update_time_ms = now_ms\<rparr>
               | None \<Rightarrow> pc_entry pc key' pair)
         else pc_entry pc key' pair)"
proof (cases "decode_report lib bs")
  case (Inr req)
  obtain g pc' where g: "group_mut key pc = (g, pc')" by (cases "group_mut key pc")
  obtain s d where pair: "pair = SrcDst s d" by (cases pair)
  note e = group_mut_entry [OF g]
  have f: "(case report_peers_map req of None \<Rightarrow> [] | Some ps \<Rightarrow> ps) = reported req"
    by (simp add: reported_def)
  show ?thesis
  proof (cases "s = pid")
    case True
    with insert_reports_own [OF assms [OF Inr]] show ?thesis
      unfolding report_peers_def
      by (auto simp: Inr op_defs Let_def g e f pair pc_entry_put split: option.splits)
  next
    case False
    then show ?thesis
      unfolding report_peers_def
      by (auto simp: Inr op_defs Let_def g e f pair pc_entry_put insert_reports_get)
  qed
qed (simp add: report_peers_def op_defs)

text \<open>C32: The answer to \<open>GetGlobalPeerMap\<close>.  A client whose digest is the network's current one gets an
  empty answer; any other gets, in ascending order, exactly the pairs and the information of its own
  network, with the digest of that very map (or 0 before the first report).\<close>

theorem global_map_answer:
  assumes "pc_reachable lib pc" and "decode_map_request lib bs = Inr known"
    and "d = (case m_get pc key of None \<Rightarrow> 0 | Some g \<Rightarrow> if g = empty_group then 0 else calc_digest lib g)"
  shows "\<exists>m. fst (get_global_peer_map lib key bs pc) =
       Inr (if known = d \<and> known \<noteq> 0 then encode_map_response lib [] None
            else encode_map_response lib m (Some d))
     \<and> ascending m
     \<and> (\<forall>pair. listed m pair = map_option pc_info (pc_entry pc key pair))"
proof -
  obtain g pc' where g: "group_mut key pc = (g, pc')" by (cases "group_mut key pc")
  have ok: "pc_group_ok lib g" using group_mut_ok [OF pc_reachable_ok [OF assms(1)] g] by simp
  let ?m = "fold add_global (global_peer_map g) []"
  have d: "d = digest g"
    unfolding assms(3) using ok g
    by (auto simp: group_mut_def pc_group_ok_def empty_group_def split: option.splits)
  have "fst (get_global_peer_map lib key bs pc) =
       Inr (if known = d \<and> known \<noteq> 0 then encode_map_response lib [] None
            else encode_map_response lib ?m (Some d))"
    unfolding d by (cases "known = digest g \<and> known \<noteq> 0")
      (simp_all add: get_global_peer_map_def op_defs assms(2) g, metis)
  moreover have "listed ?m pair = map_option pc_info (pc_entry pc key pair)" for pair
    using ok group_mut_entry [OF g]
    by (simp add: listed_fold pc_group_ok_def split: option.splits)
  ultimately show ?thesis using ascending_fold [OF ascending_empty] by blast
qed

text \<open>What is forgotten.  When a peer leaves, no pair of its network mentions it any more and every
  other entry stays; a cleaning keeps exactly the entries younger than the time to live, in every
  network.\<close>

theorem departed_and_outdated_entries_go:
  assumes "pc_reachable lib pc"
  shows "pc_entry (pc_remove_peer lib key pid pc) key' pair =
      (if key' = key \<and> (src pair = pid \<or> dst pair = pid) then None else pc_entry pc key' pair)
    \<and> pc_entry (clean_outdated lib now_ms ttl_ms pc) key' pair =
      (case pc_entry pc key' pair of None \<Rightarrow> None
       | Some e \<Rightarrow> if unat now_ms - unat (update_time_ms e) < unat ttl_ms then Some e else None)"
    (is "?removed \<and> ?cleaned")
proof
  have ok: "pc_ok lib pc" using pc_reachable_ok [OF assms] .
  show ?removed
  proof (cases "m_get pc key")
    case (Some g)
    let ?m = "m_retain (\<lambda>pair _. src pair \<noteq> pid \<and> dst pair \<noteq> pid) (global_peer_map g)"
    have "m_get ?m pair = (if src pair = pid \<or> dst pair = pid then None else m_get (global_peer_map g) pair)"
      using pc_ok_keys [OF ok Some] by (auto simp: m_get_retain split: option.splits)
    with Some show ?thesis
      by (cases "?m = []") (auto simp: pc_remove_peer_def Let_def pc_entry_def m_get_put m_get_del split: if_splits)
  qed (auto simp: pc_remove_peer_def pc_entry_def)
  show ?cleaned
  proof (cases "m_get pc key'")
    case (Some g)
    with ok pc_ok_keys [OF ok Some] show ?thesis
      by (auto simp: clean_outdated_def pc_entry_def m_get_retain pc_ok_def fresh_def word_less_nat_alt
          dest: arg_cong [where f = "\<lambda>m. m_get m pair"] split: option.splits)
  qed (use ok in \<open>simp add: clean_outdated_def pc_entry_def m_get_retain pc_ok_def\<close>)
qed

subsection \<open>A concrete network\<close>

text \<open>Reports \<open>[me, a, b, \<dots>]\<close> say that \<open>me\<close> is connected to \<open>a\<close>, \<open>b\<close>, \<open>\<dots>\<close>; a request is its digest.\<close>

definition toy_pc_lib :: "unit peer_center_lib" where
  "toy_pc_lib = \<lparr>
     decode_report = (\<lambda>bs. case bs of [] \<Rightarrow> Inl (Err ''empty'')
       | b # ds \<Rightarrow> Inr \<lparr>report_my_peer_id = ucast b,
                        report_peers_map = Some (map (\<lambda>d. (ucast d, ())) (remdups ds))\<rparr>),
     encode_report_response = [],
     decode_map_request = (\<lambda>bs. case bs of [b] \<Rightarrow> Inr (ucast b) | _ \<Rightarrow> Inl (Err ''bad'')),
     encode_map_response = (\<lambda>m _. map (\<lambda>p. ucast (fst p)) m),
     hash_entries = (\<lambda>es. of_nat (length es))\<rparr>"

theorem report_speaks_for_itself_witness:
  "pc_entry (snd (report_peers toy_pc_lib 9 ''a'' 1 [1, 2] [])) ''a'' (SrcDst 1 2) =
     Some \<lparr>pc_info = (), update_time_ms = 9\<rparr>"
  by (subst report_speaks_for_itself)
     (simp_all add: toy_pc_lib_def reported_def)

definition toy_center :: "unit peer_center" where
  "toy_center = snd (report_peers toy_pc_lib 9 ''a'' 1 [1, 2] [])"

lemma toy_center_reachable: "pc_reachable toy_pc_lib toy_center"
  unfolding toy_center_def by (intro pc_report pc_start)

lemma toy_center_eq:
  "toy_center = [(''a'', \<lparr>global_peer_map = [(SrcDst 1 2, \<lparr>pc_info = (), update_time_ms = 9\<rparr>)],
     peer_report_time = [(1, 9)], digest = 1\<rparr>)]"
  by (simp add: toy_center_def report_peers_def op_defs toy_pc_lib_def group_mut_def empty_group_def
      insert_report_def with_digest_def calc_digest_def)

theorem global_map_answer_witness:
  "\<exists>m. fst (get_global_peer_map toy_pc_lib ''a'' [0] toy_center) = Inr (encode_map_response toy_pc_lib m (Some 1))
     \<and> listed m (SrcDst 1 2) = Some ()"
proof -
  have "decode_map_request toy_pc_lib [0] = Inr 0" by (simp add: toy_pc_lib_def)
  moreover have "1 = (case m_get toy_center ''a'' of None \<Rightarrow> 0
      | Some g \<Rightarrow> if g = empty_group then 0 else calc_digest toy_pc_lib g)"
    by (simp add: toy_center_eq toy_pc_lib_def calc_digest_def empty_group_def)
  moreover have "map_option pc_info (pc_entry toy_center ''a'' (SrcDst 1 2)) = Some ()"
    by (simp add: toy_center_eq pc_entry_def)
  ultimately show ?thesis
    using global_map_answer [OF toy_center_reachable, of "[0]" 0 1 "''a''"] by auto
qed

theorem departed_and_outdated_entries_go_witness:
  "pc_entry (pc_remove_peer toy_pc_lib ''a'' 2 toy_center) ''a'' (SrcDst 1 2) = None
   \<and> pc_entry (clean_outdated toy_pc_lib 200000 180000 toy_center) ''a'' (SrcDst 1 2) = None
   \<and> pc_entry (clean_outdated toy_pc_lib 180008 180000 toy_center) ''a'' (SrcDst 1 2) \<noteq> None"
  using departed_and_outdated_entries_go [OF toy_center_reachable, of "''a''" 2 "''a''" "SrcDst 1 2" 200000 180000]
    departed_and_outdated_entries_go [OF toy_center_reachable, of "''a''" 2 "''a''" "SrcDst 1 2" 180008 180000]
  by (simp add: toy_center_eq pc_entry_def)

end
