(* ===== verification/Route_State.thy ===== *)
theory Route_State
  imports Prelude
begin

text \<open>
  \<open>cloudflare/wasm/src/route_state.rs\<close>: what the server knows of the routes of each network, and the
  route synchronisation messages it exchanges with every client.

  The messages are those of \<open>protos/peer_rpc.proto\<close>.  Their fields that the code reads or sets are
  fields of the records; the other fields of \<open>RoutePeerInfo\<close>, which are only copied, are the type
  variable \<open>'x\<close>.  The protobuf codecs, the default value of those fields and \<open>Math.random\<close> are fields
  of the parameter; \<open>math_random lib k\<close> is the word \<open>random_u32\<close> makes of the \<open>k\<close>-th number drawn.
  Release builds of the crate do not check for overflow, so version counters wrap.
\<close>

subsection \<open>Messages\<close>

record feature_flag =
  ff_is_public_server :: bool
  ff_avoid_relay_data :: bool
  ff_kcp_input :: bool
  ff_no_relay_kcp :: bool
  ff_support_conn_list_sync :: bool
  ff_quic_input :: bool
  ff_no_relay_quic :: bool
  ff_is_credential_peer :: bool
  ff_need_p2p :: bool
  ff_disable_p2p :: bool
  ff_ipv6_public_addr_provider :: bool

record 'x route_peer_info =
  ri_peer_id :: u32
  ri_inst_id :: "uuid option"
  ri_cost :: u32
  ri_ipv4_addr :: "u32 option"
  ri_hostname :: "string option"
  ri_last_update :: "(u64 \<times> u32) option"
  ri_version :: u32
  ri_easytier_version :: string
  ri_feature_flag :: "feature_flag option"
  ri_peer_route_id :: u64
  ri_network_length :: u32
  ri_noise_static_pubkey :: bytes
  ri_rest :: 'x

record conn_bitmap =
  cb_peer_ids :: "(u32 \<times> u32) list"
  cb_bitmap :: bytes

type_synonym conn_peer_list = "((u32 \<times> u32) option \<times> u32 list) list"

datatype conn_info = Conn_Bitmap conn_bitmap | Conn_Peer_List conn_peer_list

record 'x sync_request =
  sq_my_peer_id :: u32
  sq_my_session_id :: u64
  sq_is_initiator :: bool
  sq_peer_infos :: "'x route_peer_info list option"
  sq_conn_info :: "conn_info option"
  sq_foreign_network_infos :: "'x option"

record sync_response =
  sr_is_initiator :: bool
  sr_session_id :: u64
  sr_error :: "u32 option"

record 'x route_lib =
  decode_sync_request :: "bytes \<Rightarrow> error + 'x sync_request"
  encode_sync_request :: "'x sync_request \<Rightarrow> bytes"
  encode_sync_response :: "sync_response \<Rightarrow> bytes"
  default_rest :: 'x
  math_random :: "nat \<Rightarrow> u32"

subsection \<open>State\<close>

record route_sync_outcome =
  response :: bytes
  route_changed :: bool
  session_changed :: bool

record route_update =
  ru_payload :: bytes
  ru_peer_info_versions :: "(u32 \<times> u32) list"
  ru_topology_version :: "u64 option"

definition EASYTIER_VERSION :: string where "EASYTIER_VERSION = ''2.6.4-8428a89d-edge''"
definition MAX_LEGACY_BITMAP_PEERS :: nat where "MAX_LEGACY_BITMAP_PEERS = 8192"
definition SAVED_ROUTE_VERSION_TTL_MS :: u64 where "SAVED_ROUTE_VERSION_TTL_MS = 60000"

record saved_version =
  sv_version :: u32
  sv_touched_at_ms :: u64

record session_state =
  my_session_id :: "u64 option"
  dst_session_id :: "u64 option"
  we_are_initiator :: bool
  peer_info_ver_map :: "(u32, saved_version) jsmap"
  foreign_net_ver :: u32
  last_touch_ms :: u64
  last_topology_version :: u64
  last_topology_touch_ms :: u64

text \<open>A \<open>BTreeSet\<close> is the ascending list of its elements.\<close>

record 'x route_group =
  peers :: "u32 list"
  peer_infos :: "(u32, 'x route_peer_info) jsmap"
  authenticated_peer_keys :: "(u32, bytes) jsmap"
  sessions :: "(u32, session_state) jsmap"
  peer_conn_versions :: "(u32, u32) jsmap"
  topology_version :: u64
  cached_conn_bitmap :: "(u64 \<times> conn_bitmap) option"
  cached_conn_peer_list :: "(u64 \<times> conn_peer_list) option"
  my_info :: "'x route_peer_info"
  my_info_version :: u32

record 'x route_state =
  rs_groups :: "(string, 'x route_group) jsmap"
  rs_my_peer_id :: u32
  rs_rolls :: nat

definition bs_insert :: "'a::linorder \<Rightarrow> 'a list \<Rightarrow> 'a list" where
  "bs_insert x xs = (if x \<in> set xs then xs else insort x xs)"

definition session_default :: session_state where
  "session_default = \<lparr>my_session_id = None, dst_session_id = None, we_are_initiator = False,
     peer_info_ver_map = [], foreign_net_ver = 0, last_touch_ms = 0, last_topology_version = 0,
     last_topology_touch_ms = 0\<rparr>"

definition route_new :: "u32 \<Rightarrow> 'x route_state" where
  "route_new me = \<lparr>rs_groups = [], rs_my_peer_id = me, rs_rolls = 0\<rparr>"

definition server_flags :: feature_flag where
  "server_flags = \<lparr>ff_is_public_server = True, ff_avoid_relay_data = False, ff_kcp_input = False,
     ff_no_relay_kcp = False, ff_support_conn_list_sync = True, ff_quic_input = False,
     ff_no_relay_quic = False, ff_is_credential_peer = False, ff_need_p2p = False,
     ff_disable_p2p = True, ff_ipv6_public_addr_provider = False\<rparr>"

definition route_random_u64 :: "'x route_lib \<Rightarrow> nat \<Rightarrow> u64" where
  "route_random_u64 lib k =
     push_bit 32 (ucast (math_random lib k)) OR ucast (math_random lib (k + 1))"

definition route_random_uuid :: "'x route_lib \<Rightarrow> nat \<Rightarrow> uuid" where
  "route_random_uuid lib k =
     \<lparr>part1 = math_random lib k, part2 = math_random lib (k + 1),
      part3 = math_random lib (k + 2), part4 = math_random lib (k + 3)\<rparr>"

definition initial_info :: "'x route_lib \<Rightarrow> u32 \<Rightarrow> nat \<Rightarrow> 'x route_peer_info" where
  "initial_info lib me k =
     \<lparr>ri_peer_id = me, ri_inst_id = Some (route_random_uuid lib k), ri_cost = 0, ri_ipv4_addr = None,
      ri_hostname = Some ''edge'', ri_last_update = None, ri_version = 1,
      ri_easytier_version = EASYTIER_VERSION, ri_feature_flag = Some server_flags,
      ri_peer_route_id = route_random_u64 lib (k + 4), ri_network_length = 24,
      ri_noise_static_pubkey = [], ri_rest = default_rest lib\<rparr>"

definition initial_group :: "'x route_lib \<Rightarrow> u32 \<Rightarrow> nat \<Rightarrow> 'x route_group" where
  "initial_group lib me k =
     \<lparr>peers = [], peer_infos = [], authenticated_peer_keys = [], sessions = [], peer_conn_versions = [],
      topology_version = 1, cached_conn_bitmap = None, cached_conn_peer_list = None,
      my_info = initial_info lib me k, my_info_version = 1\<rparr>"

definition ensure_group :: "'x route_lib \<Rightarrow> string \<Rightarrow> 'x route_state \<Rightarrow> 'x route_group \<times> 'x route_state" where
  "ensure_group lib key s = (case m_get (rs_groups s) key of
     Some g \<Rightarrow> (g, s)
   | None \<Rightarrow>
       let g = initial_group lib (rs_my_peer_id s) (rs_rolls s)
       in (g, s\<lparr>rs_groups := m_put key g (rs_groups s), rs_rolls := rs_rolls s + 6\<rparr>))"

text \<open>\<open>let g = self.ensure_group(key)\<close> and what is done to \<open>*g\<close> from there on.\<close>

definition with_group :: "'x route_lib \<Rightarrow> string \<Rightarrow> ('x route_group, 'a) op \<Rightarrow> ('x route_state, 'a) op" where
  "with_group lib key m = (\<lambda>s. case ensure_group lib key s of (g, s) \<Rightarrow>
     (case m g of (r, g) \<Rightarrow> (r, s\<lparr>rs_groups := m_put key g (rs_groups s)\<rparr>)))"

text \<open>\<open>g.sessions.entry(peer).or_default()\<close>, then changed.\<close>

definition with_session :: "u32 \<Rightarrow> (session_state \<Rightarrow> session_state) \<Rightarrow> 'x route_group \<Rightarrow> 'x route_group" where
  "with_session p f g =
     g\<lparr>sessions := m_put p (f (case m_get (sessions g) p of None \<Rightarrow> session_default | Some s \<Rightarrow> s)) (sessions g)\<rparr>"

subsection \<open>Membership\<close>

definition version_or_1 :: "(u32, u32) jsmap \<Rightarrow> u32 \<Rightarrow> u32" where
  "version_or_1 m p = (case m_get m p of None \<Rightarrow> 1 | Some v \<Rightarrow> v)"

definition bump_version :: "u32 \<Rightarrow> (u32, u32) jsmap \<Rightarrow> (u32, u32) jsmap" where
  "bump_version p m = m_put p (version_or_1 m p + 1) m"

definition bump_all_conn_versions :: "u32 \<Rightarrow> 'x route_group \<Rightarrow> 'x route_group" where
  "bump_all_conn_versions me g =
     (let all = fold bs_insert (peers g @ m_keys (peer_infos g)) [];
          versions = fold bump_version all (peer_conn_versions g)
      in g\<lparr>peer_conn_versions := (case m_get versions me of
              Some v \<Rightarrow> m_put me (v + 1) versions | None \<Rightarrow> m_put me 2 versions),
           topology_version := max (topology_version g + 1) 1,
           cached_conn_bitmap := None,
           cached_conn_peer_list := None\<rparr>)"

definition route_add_peer :: "'x route_lib \<Rightarrow> string \<Rightarrow> u32 \<Rightarrow> bytes \<Rightarrow> ('x route_state, unit) op" where
  "route_add_peer lib key pid public_key =
     (if length public_key \<noteq> 32
      then mraise (Err ''authenticated peer public key must be 32 bytes'')
      else
        mbind (mget rs_my_peer_id) (\<lambda>me.
        with_group lib key
          (mbind (mget (\<lambda>g. m_get (authenticated_peer_keys g) pid)) (\<lambda>current.
           if current \<noteq> None \<and> current \<noteq> Some public_key
           then mraise (Err ''peer id is already bound to another authenticated public key'')
           else
             mbind (mget (\<lambda>g. pid \<notin> set (peers g))) (\<lambda>is_new.
             mbind (mmod (\<lambda>g. g\<lparr>authenticated_peer_keys := m_put pid public_key (authenticated_peer_keys g),
                                peers := bs_insert pid (peers g)\<rparr>)) (\<lambda>_.
             if is_new then mmod (bump_all_conn_versions me) else mret ()))))))"

definition forget_peer :: "u32 \<Rightarrow> session_state \<Rightarrow> session_state" where
  "forget_peer pid s = s\<lparr>peer_info_ver_map := m_del pid (peer_info_ver_map s), last_topology_version := 0\<rparr>"

definition remove_from_group :: "u32 \<Rightarrow> u32 \<Rightarrow> 'x route_group \<Rightarrow> 'x route_group" where
  "remove_from_group me pid g =
     (let was_present = pid \<in> set (peers g);
          had_info = m_get (peer_infos g) pid \<noteq> None;
          g = g\<lparr>peers := removeAll pid (peers g),
                peer_infos := m_del pid (peer_infos g),
                authenticated_peer_keys := m_del pid (authenticated_peer_keys g),
                sessions := m_map (forget_peer pid) (m_del pid (sessions g)),
                peer_conn_versions := m_del pid (peer_conn_versions g)\<rparr>
      in if was_present \<or> had_info then bump_all_conn_versions me g else g)"

definition route_remove_peer :: "'x route_lib \<Rightarrow> string \<Rightarrow> u32 \<Rightarrow> 'x route_state \<Rightarrow> 'x route_state" where
  "route_remove_peer lib key pid s = (case ensure_group lib key s of (g, s) \<Rightarrow>
     s\<lparr>rs_groups := m_put key (remove_from_group (rs_my_peer_id s) pid g) (rs_groups s)\<rparr>)"

subsection \<open>The server's own information\<close>

text \<open>\<open>str::parse::<u32>\<close>: an optional plus sign and at least one decimal digit, within 32 bits.\<close>

definition digit_value :: "char \<Rightarrow> nat option" where
  "digit_value c = (let k = of_char c :: nat in if 48 \<le> k \<and> k \<le> 57 then Some (k - 48) else None)"

fun parse_digits :: "nat \<Rightarrow> string \<Rightarrow> nat option" where
  "parse_digits acc [] = Some acc"
| "parse_digits acc (c # cs) = (case digit_value c of
     None \<Rightarrow> None
   | Some d \<Rightarrow> if acc * 10 + d < 2 ^ 32 then parse_digits (acc * 10 + d) cs else None)"

definition parse_u32 :: "string \<Rightarrow> u32 option" where
  "parse_u32 s =
     (let digits = (case s of CHR ''+'' # t \<Rightarrow> t | _ \<Rightarrow> s)
      in if digits = [] then None else map_option of_nat (parse_digits 0 digits))"

definition bump_my_info :: "'x route_group \<Rightarrow> 'x route_group" where
  "bump_my_info g =
     g\<lparr>my_info_version := my_info_version g + 1, my_info := (my_info g)\<lparr>ri_version := my_info_version g + 1\<rparr>\<rparr>"

definition change_my_info ::
  "('x route_peer_info \<Rightarrow> 'x route_peer_info) \<Rightarrow> ('x route_group, unit) op" where
  "change_my_info f = mmod (\<lambda>g. bump_my_info (g\<lparr>my_info := f (my_info g)\<rparr>))"

definition set_my_info_field :: "'x route_lib \<Rightarrow> string \<Rightarrow> string \<Rightarrow> string \<Rightarrow> ('x route_state, unit) op" where
  "set_my_info_field lib key field val =
     with_group lib key
       (if field = ''hostname'' then change_my_info (\<lambda>i. i\<lparr>ri_hostname := Some val\<rparr>)
        else if field = ''network_length'' then
          mbind (mlift (ok_or (Err ''invalid network_length'') (parse_u32 val))) (\<lambda>n.
          change_my_info (\<lambda>i. i\<lparr>ri_network_length := n\<rparr>))
        else if field = ''ipv4_addr'' then
          mbind (mlift (ok_or (Err ''invalid ipv4_addr'') (parse_u32 val))) (\<lambda>n.
          change_my_info (\<lambda>i. i\<lparr>ri_ipv4_addr := Some n\<rparr>))
        else mraise (Err ''unknown field''))"

definition set_my_noise_public_key :: "'x route_lib \<Rightarrow> string \<Rightarrow> bytes \<Rightarrow> ('x route_state, unit) op" where
  "set_my_noise_public_key lib key public_key =
     (if length public_key \<noteq> 32 then mraise (Err ''Noise public key must be 32 bytes'')
      else with_group lib key (change_my_info (\<lambda>i. i\<lparr>ri_noise_static_pubkey := public_key\<rparr>)))"

subsection \<open>Acknowledgement\<close>

definition reset_sent :: "session_state \<Rightarrow> session_state" where
  "reset_sent s = s\<lparr>peer_info_ver_map := [], foreign_net_ver := 0, last_topology_version := 0\<rparr>"

definition ack_session :: "u64 \<Rightarrow> u64 \<Rightarrow> bool \<Rightarrow> session_state \<Rightarrow> session_state" where
  "ack_session now_ms sid initiator s =
     (if dst_session_id s \<noteq> Some sid then reset_sent s else s)
       \<lparr>dst_session_id := Some sid, we_are_initiator := initiator, last_touch_ms := now_ms\<rparr>"

definition on_route_session_ack ::
  "'x route_lib \<Rightarrow> u64 \<Rightarrow> string \<Rightarrow> u32 \<Rightarrow> u64 \<Rightarrow> bool \<Rightarrow> ('x route_state, unit) op" where
  "on_route_session_ack lib now_ms key pid sid initiator =
     with_group lib key (mmod (with_session pid (ack_session now_ms sid initiator)))"

definition commit_version :: "u64 \<Rightarrow> u32 \<times> u32 \<Rightarrow> (u32, saved_version) jsmap \<Rightarrow> (u32, saved_version) jsmap" where
  "commit_version now_ms pv m =
     m_put (fst pv)
       (case m_get m (fst pv) of
          Some saved \<Rightarrow> saved\<lparr>sv_version := max (sv_version saved) (snd pv), sv_touched_at_ms := now_ms\<rparr>
        | None \<Rightarrow> \<lparr>sv_version = snd pv, sv_touched_at_ms = now_ms\<rparr>) m"

definition commit_session :: "u64 \<Rightarrow> (u32 \<times> u32) list \<Rightarrow> u64 option \<Rightarrow> session_state \<Rightarrow> session_state" where
  "commit_session now_ms versions topology s =
     (let s = s\<lparr>peer_info_ver_map := fold (commit_version now_ms) versions (peer_info_ver_map s)\<rparr>;
          s = (case topology of
                 None \<Rightarrow> s
               | Some v \<Rightarrow> s\<lparr>last_topology_version := max (last_topology_version s) v,
                             last_topology_touch_ms := now_ms\<rparr>)
      in s\<lparr>last_touch_ms := now_ms\<rparr>)"

definition commit_route_update ::
  "'x route_lib \<Rightarrow> u64 \<Rightarrow> string \<Rightarrow> u32 \<Rightarrow> (u32 \<times> u32) list \<Rightarrow> u64 option \<Rightarrow> ('x route_state, unit) op" where
  "commit_route_update lib now_ms key pid versions topology =
     with_group lib key (mmod (with_session pid (commit_session now_ms versions topology)))"

subsection \<open>The topology\<close>

definition set_bit_in :: "nat \<Rightarrow> nat \<times> nat \<Rightarrow> bytes \<Rightarrow> bytes" where
  "set_bit_in n rc bitmap =
     (let idx = fst rc * n + snd rc
      in bitmap[idx div 8 := bitmap ! (idx div 8) OR push_bit (idx mod 8) 1])"

definition star_bits :: "u32 list \<Rightarrow> u32 \<Rightarrow> bytes" where
  "star_bits relevant me =
     (let n = length relevant;
          bitmap = replicate ((n * n + 7) div 8) 0;
          idx_by_peer = rev (zip relevant [0..<n]);
          bitmap = fold (\<lambda>i. set_bit_in n (i, i)) [0..<n] bitmap
      in case map_of idx_by_peer me of
           Some server_idx \<Rightarrow>
             fold (\<lambda>i bitmap. if i = server_idx then bitmap
                              else set_bit_in n (i, server_idx) (set_bit_in n (server_idx, i) bitmap))
               [0..<n] bitmap
         | None \<Rightarrow> fold (set_bit_in n) (List.product [0..<n] [0..<n]) bitmap)"

definition star_lists :: "u32 list \<Rightarrow> u32 \<Rightarrow> (u32 \<times> u32) list \<Rightarrow> conn_peer_list" where
  "star_lists relevant me versions =
     map (\<lambda>pv. (Some pv, if fst pv = me then filter (\<lambda>c. c \<noteq> me) relevant else [me])) versions"

definition topology_known :: "u64 \<Rightarrow> u64 \<Rightarrow> session_state option \<Rightarrow> bool" where
  "topology_known now_ms version session = (case session of
     None \<Rightarrow> False
   | Some s \<Rightarrow> last_topology_version s = version
       \<and> sat_sub now_ms (last_topology_touch_ms s) < SAVED_ROUTE_VERSION_TTL_MS)"

definition cached :: "u64 \<Rightarrow> (u64 \<times> 'c) option \<Rightarrow> 'c option" where
  "cached version c = (case c of Some (v, x) \<Rightarrow> if v = version then Some x else None | None \<Rightarrow> None)"

definition build_conn_info ::
  "u64 \<Rightarrow> u32 list \<Rightarrow> u32 \<Rightarrow> bool \<Rightarrow> u32 \<Rightarrow> ('x route_group, conn_info option) op" where
  "build_conn_info now_ms relevant target supports_conn_list me =
     (if relevant = [] then mret None
      else
        mbind (mget id) (\<lambda>g.
        let version = topology_version g
        in
        if topology_known now_ms version (m_get (sessions g) target) then mret None
        else
          case (if supports_conn_list
                then map_option Conn_Peer_List (cached version (cached_conn_peer_list g))
                else map_option Conn_Bitmap (cached version (cached_conn_bitmap g))) of
            Some info \<Rightarrow> mret (Some info)
          | None \<Rightarrow>
              let n = length relevant;
                  versions = map (\<lambda>p. (p, version_or_1 (peer_conn_versions g) p)) relevant
              in
              if supports_conn_list
              then let result = star_lists relevant me versions
                   in mbind (mmod (\<lambda>g. g\<lparr>cached_conn_peer_list := Some (version, result)\<rparr>)) (\<lambda>_.
                      mret (Some (Conn_Peer_List result)))
              else if MAX_LEGACY_BITMAP_PEERS < n
              then mraise (Err ''peer does not support sparse route synchronization and the legacy bitmap limit was exceeded'')
              else let result = \<lparr>cb_peer_ids = versions, cb_bitmap = star_bits relevant me\<rparr>
                   in mbind (mmod (\<lambda>g. g\<lparr>cached_conn_bitmap := Some (version, result)\<rparr>)) (\<lambda>_.
                      mret (Some (Conn_Bitmap result)))))"

subsection \<open>Outgoing synchronisation\<close>

definition relevant_peers :: "u32 \<Rightarrow> u32 \<Rightarrow> u32 list \<Rightarrow> u32 list" where
  "relevant_peers me target known =
     (let all_peers = bs_insert target (bs_insert me known)
      in sort (me # filter (\<lambda>p. p \<noteq> me) all_peers))"

definition known_version :: "u64 \<Rightarrow> bool \<Rightarrow> session_state \<Rightarrow> u32 \<Rightarrow> u32" where
  "known_version now_ms force_full session p =
     (if force_full then 0
      else case m_get (peer_info_ver_map session) p of
        None \<Rightarrow> 0
      | Some saved \<Rightarrow>
          if sat_sub now_ms (sv_touched_at_ms saved) < SAVED_ROUTE_VERSION_TTL_MS then sv_version saved else 0)"

text \<open>The information to send, with the version it will be remembered under.\<close>

definition info_item ::
  "u64 \<Rightarrow> bool \<Rightarrow> u32 \<Rightarrow> u32 \<Rightarrow> 'x route_group \<Rightarrow> session_state \<Rightarrow> u32 \<Rightarrow>
     ('x route_peer_info \<times> u32 \<times> u32) option" where
  "info_item now_ms force_full me target g session p =
     (if p = target then None
      else case (if p = me then Some (my_info g) else m_get (peer_infos g) p) of
        None \<Rightarrow> None
      | Some info \<Rightarrow>
          let version = max (ri_version info) 1
          in if force_full \<or> known_version now_ms force_full session p < version
             then Some (info, p, version) else None)"

definition list_sync_flag :: "'x route_peer_info option \<Rightarrow> bool" where
  "list_sync_flag info = (case Option.bind info ri_feature_flag of
     None \<Rightarrow> False | Some flag \<Rightarrow> ff_support_conn_list_sync flag)"

definition build_in_group ::
  "'x route_lib \<Rightarrow> u64 \<Rightarrow> u32 \<Rightarrow> u32 \<Rightarrow> u64 \<Rightarrow> bool \<Rightarrow> bool \<Rightarrow> ('x route_group, route_update) op" where
  "build_in_group lib now_ms me target session_id initiator force_full =
       mbind (mmod (with_session target (\<lambda>s. s\<lparr>my_session_id := Some session_id, last_touch_ms := now_ms\<rparr>))) (\<lambda>_.
        mbind (mget id) (\<lambda>g.
        let session = (case m_get (sessions g) target of None \<Rightarrow> session_default | Some s \<Rightarrow> s);
            full = (force_full \<or> dst_session_id session = None);
            relevant = relevant_peers me target (peers g);
            items = List.map_filter (info_item now_ms full me target g session) relevant;
            supports_conn_list = list_sync_flag (m_get (peer_infos g) target)
        in
        mbind (build_conn_info now_ms relevant target supports_conn_list me) (\<lambda>conn.
        mbind (mget topology_version) (\<lambda>version.
        mret
          \<lparr>ru_payload = encode_sync_request lib
             \<lparr>sq_my_peer_id = me, sq_my_session_id = session_id, sq_is_initiator = initiator,
              sq_peer_infos = (if items = [] then None else Some (map fst items)),
              sq_conn_info = conn, sq_foreign_network_infos = None\<rparr>,
           ru_peer_info_versions = map snd items,
           ru_topology_version = map_option (\<lambda>_. version) conn\<rparr>))))"

definition build_sync_route_info_request ::
  "'x route_lib \<Rightarrow> u64 \<Rightarrow> string \<Rightarrow> u32 \<Rightarrow> u64 \<Rightarrow> bool \<Rightarrow> bool \<Rightarrow> ('x route_state, route_update) op" where
  "build_sync_route_info_request lib now_ms key target session_id initiator force_full =
     mbind (mget rs_my_peer_id) (\<lambda>me.
     with_group lib key (build_in_group lib now_ms me target session_id initiator force_full))"

subsection \<open>Incoming synchronisation\<close>

definition store_info :: "u64 \<Rightarrow> 'x route_peer_info \<Rightarrow> 'x route_group \<Rightarrow> 'x route_group" where
  "store_info now_ms info g =
     g\<lparr>peer_infos := m_put (ri_peer_id info)
         (info\<lparr>ri_last_update := Some (now_ms div 1000, 0)\<rparr>) (peer_infos g)\<rparr>"

definition forget_sent_info :: "u32 \<Rightarrow> 'x route_group \<Rightarrow> 'x route_group" where
  "forget_sent_info p g =
     g\<lparr>sessions := m_map (\<lambda>s. s\<lparr>peer_info_ver_map := m_del p (peer_info_ver_map s)\<rparr>) (sessions g)\<rparr>"

text \<open>One item of the request; the result is \<open>(route_changed, need_bump)\<close>.\<close>

definition sync_info ::
  "u64 \<Rightarrow> u32 \<Rightarrow> 'x route_peer_info \<Rightarrow> bool \<times> bool \<Rightarrow> ('x route_group, bool \<times> bool) op" where
  "sync_info now_ms from info acc =
     (if ri_peer_id info \<noteq> from then mret acc
      else
        mbind (mtry (\<lambda>g. ok_or (Err ''route peer has no authenticated public key'')
                           (m_get (authenticated_peer_keys g) from))) (\<lambda>authenticated_key.
        if ri_noise_static_pubkey info \<noteq> authenticated_key
        then mraise (Err ''RoutePeerInfo public key does not match the authenticated Noise identity'')
        else
          mbind (mget (\<lambda>g. m_get (peer_infos g) (ri_peer_id info))) (\<lambda>current.
          let is_new = (current = None);
              instance_changed = (case current of None \<Rightarrow> False | Some c \<Rightarrow> ri_inst_id c \<noteq> ri_inst_id info);
              should_update = (instance_changed \<or>
                (case current of None \<Rightarrow> True | Some c \<Rightarrow> ri_version c < ri_version info))
          in
          if \<not> should_update then mret acc
          else
            mbind (mmod (\<lambda>g. if instance_changed then forget_sent_info (ri_peer_id info) g else g)) (\<lambda>_.
            mbind (mmod (store_info now_ms info)) (\<lambda>_.
            mret (True, snd acc \<or> is_new))))))"

primrec sync_infos ::
  "u64 \<Rightarrow> u32 \<Rightarrow> 'x route_peer_info list \<Rightarrow> bool \<times> bool \<Rightarrow> ('x route_group, bool \<times> bool) op" where
  "sync_infos now_ms from [] acc = mret acc"
| "sync_infos now_ms from (info # infos) acc =
     mbind (sync_info now_ms from info acc) (sync_infos now_ms from infos)"

definition handle_sync_route_info_request ::
  "'x route_lib \<Rightarrow> u64 \<Rightarrow> string \<Rightarrow> u32 \<Rightarrow> bytes \<Rightarrow> ('x route_state, route_sync_outcome) op" where
  "handle_sync_route_info_request lib now_ms key from request_bytes =
     mbind (mget rs_my_peer_id) (\<lambda>me.
     mbind (mlift (decode_sync_request lib request_bytes)) (\<lambda>req.
     if sq_my_peer_id req \<noteq> from
     then mraise (Err ''SyncRouteInfoRequest peer id does not match the authenticated connection'')
     else
       with_group lib key
         (mbind (mget (\<lambda>g. Option.bind (m_get (sessions g) from) dst_session_id
                            \<noteq> Some (sq_my_session_id req))) (\<lambda>changed.
          mbind (mmod (with_session from
                   (ack_session now_ms (sq_my_session_id req) (\<not> sq_is_initiator req)))) (\<lambda>_.
          mbind (case sq_peer_infos req of
                   None \<Rightarrow> mret False
                 | Some infos \<Rightarrow>
                     mbind (sync_infos now_ms from infos (False, False)) (\<lambda>(changed_route, need_bump).
                     mbind (mmod (\<lambda>g. if need_bump then bump_all_conn_versions me g else g)) (\<lambda>_.
                     mret changed_route))) (\<lambda>route.
          mbind (mget (\<lambda>g. case Option.bind (m_get (sessions g) from) my_session_id of
                   None \<Rightarrow> 1 | Some sid \<Rightarrow> sid)) (\<lambda>sid.
          mret
            \<lparr>response = encode_sync_response lib
               \<lparr>sr_is_initiator = \<not> sq_is_initiator req, sr_session_id = sid, sr_error = None\<rparr>,
             route_changed = route,
             session_changed = changed\<rparr>))))))) "

subsection \<open>Ordered sets and the bitmap\<close>

lemma bs_insert_set [simp]: "set (bs_insert x xs) = insert x (set xs)"
  by (auto simp: bs_insert_def set_insort_key)

lemma bs_insert_sorted [simp]:
  "sorted xs \<Longrightarrow> sorted (bs_insert x xs)" "distinct xs \<Longrightarrow> distinct (bs_insert x xs)"
  by (auto simp: bs_insert_def sorted_insort distinct_insort)

lemma fold_bs_insert_set [simp]: "set (fold bs_insert xs ys) = set xs \<union> set ys"
  by (induction xs arbitrary: ys) auto

lemma relevant_peers_known:
  assumes "sorted known" "distinct known" "me \<notin> set known" "target \<in> set known"
  shows "relevant_peers me target known = insort me known"
proof -
  have "bs_insert target (bs_insert me known) = insort me known"
    using assms by (simp add: bs_insert_def set_insort_key)
  moreover have "filter (\<lambda>p. p \<noteq> me) (insort me known) = known"
    using assms by (intro sorted_distinct_set_unique)
      (auto simp: set_insort_key sorted_insort distinct_insort intro: sorted_wrt_filter)
  ultimately show ?thesis
    using assms by (simp add: relevant_peers_def sorted_sort_id)
qed

lemma map_of_rev_index:
  assumes "distinct xs" and "i < length xs"
  shows "map_of (rev (zip xs [0..<length xs])) (xs ! i) = Some i"
  using assms by (intro map_of_is_SomeI) (auto simp: rev_map [symmetric] in_set_conv_nth intro!: exI [of _ i])

definition bit_at :: "bytes \<Rightarrow> nat \<Rightarrow> bool" where
  "bit_at bitmap k = bit (bitmap ! (k div 8)) (k mod 8)"

lemma bit_byte: "m < 8 \<Longrightarrow> bit (2 ^ m :: u8) j \<longleftrightarrow> j = m"
  by (auto simp: bit_simps)

lemma set_bit_in_length [simp]: "length (set_bit_in n rc bitmap) = length bitmap"
  by (simp add: set_bit_in_def Let_def)

lemma bit_at_set:
  assumes "fst rc * n + snd rc < 8 * length bitmap" and "k < 8 * length bitmap"
  shows "bit_at (set_bit_in n rc bitmap) k \<longleftrightarrow> k = fst rc * n + snd rc \<or> bit_at bitmap k"
proof -
  define idx where "idx = fst rc * n + snd rc"
  have "idx div 8 < length bitmap" "k div 8 < length bitmap"
    using assms by (simp_all add: idx_def less_mult_imp_div_less mult.commute)
  moreover have "k = idx \<longleftrightarrow> k div 8 = idx div 8 \<and> k mod 8 = idx mod 8"
    by (metis div_mult_mod_eq)
  ultimately show ?thesis
    by (auto simp: set_bit_in_def Let_def bit_at_def nth_list_update bit_or_iff bit_byte idx_def [symmetric] push_bit_eq_mult)
qed

lemma bit_at_fold:
  assumes "\<forall>rc \<in> set rcs. fst rc * n + snd rc < 8 * length bitmap" and "k < 8 * length bitmap"
  shows "bit_at (fold (set_bit_in n) rcs bitmap) k \<longleftrightarrow>
    (\<exists>rc \<in> set rcs. k = fst rc * n + snd rc) \<or> bit_at bitmap k"
  using assms by (induction rcs arbitrary: bitmap) (auto simp: bit_at_set)

lemma fold_if_concat:
  "fold (\<lambda>i b. if P i then b else f (g i) (f (h i) b)) xs b =
     fold f (concat (map (\<lambda>i. if P i then [] else [h i, g i]) xs)) b"
  by (induction xs arbitrary: b) auto

lemma fold_pair: "fold (\<lambda>i. f (i, i)) xs b = fold f (map (\<lambda>i. (i, i)) xs) b"
  by (induction xs arbitrary: b) auto

lemma cell_bound:
  fixes n :: nat
  assumes "i < n" "j < n"
  shows "i * n + j < n * n"
proof -
  from assms have "i * n + j < Suc i * n" by simp
  also have "\<dots> \<le> n * n" using \<open>i < n\<close> by (intro mult_le_mono1) simp
  finally show ?thesis .
qed

lemma cell_eq:
  fixes n :: nat
  assumes "j < n" "j' < n"
  shows "i * n + j = i' * n + j' \<longleftrightarrow> i = i' \<and> j = j'"
proof
  assume e: "i * n + j = i' * n + j'"
  have "i = (i * n + j) div n" "i' = (i' * n + j') div n" using assms by simp_all
  with e show "i = i' \<and> j = j'" by simp
qed simp

lemma cell_in:
  fixes n :: nat
  assumes "j < n" "\<forall>rc \<in> S. fst rc < n \<and> snd rc < n"
  shows "(\<exists>rc \<in> S. i * n + j = fst rc * n + snd rc) \<longleftrightarrow> (i, j) \<in> S"
proof
  assume "\<exists>rc \<in> S. i * n + j = fst rc * n + snd rc"
  then obtain a b where "(a, b) \<in> S" "i * n + j = a * n + b" by auto
  moreover from this assms have "b < n" by auto
  ultimately show "(i, j) \<in> S" using cell_eq [OF assms(1)] by simp
qed (rule bexI [of _ "(i, j)"], simp_all)

lemma bit_at_zero [simp]: "k < 8 * m \<Longrightarrow> \<not> bit_at (replicate m 0) k"
  by (simp add: bit_at_def less_mult_imp_div_less mult.commute)

lemma star_bits_cell:
  assumes "distinct relevant" and "si < length relevant" and "relevant ! si = me"
    and "i < length relevant" and "j < length relevant"
  shows "bit_at (star_bits relevant me) (i * length relevant + j) \<longleftrightarrow> i = j \<or> i = si \<or> j = si"
proof -
  define n where "n = length relevant"
  define m where "m = (n * n + 7) div 8"
  have m: "n * n \<le> 8 * m" by (simp add: m_def)
  have idx: "map_of (rev (zip relevant [0..<n])) me = Some si"
    using map_of_rev_index assms n_def by blast
  let ?star = "concat (map (\<lambda>i. if i = si then [] else [(si, i), (i, si)]) [0..<n])"
  let ?rcs = "map (\<lambda>i. (i, i)) [0..<n] @ ?star"
  have bits: "star_bits relevant me = fold (set_bit_in n) ?rcs (replicate m 0)"
    by (simp add: star_bits_def Let_def n_def [symmetric] m_def [symmetric] idx
        fold_pair [of "set_bit_in n"] fold_if_concat [of "\<lambda>i. i = si" "set_bit_in n" "\<lambda>i. (i, si)" "\<lambda>i. (si, i)"])
  have si: "si < n" using assms by (simp add: n_def)
  have ij: "i < n" "j < n" using assms by (simp_all add: n_def)
  have inside: "\<forall>rc \<in> set ?rcs. fst rc < n \<and> snd rc < n" using si by auto
  then have "\<forall>rc \<in> set ?rcs. fst rc * n + snd rc < 8 * m"
    using cell_bound m by (meson less_le_trans)
  moreover have "i * n + j < 8 * m" using cell_bound [OF ij] m by simp
  ultimately have "bit_at (star_bits relevant me) (i * n + j) \<longleftrightarrow> (\<exists>rc \<in> set ?rcs. i * n + j = fst rc * n + snd rc)"
    unfolding bits by (subst bit_at_fold) simp_all
  also have "\<dots> \<longleftrightarrow> (i, j) \<in> set ?rcs"
    by (rule cell_in [OF ij(2) inside])
  also have "\<dots> \<longleftrightarrow> i = j \<or> i = si \<or> j = si"
    using si ij by (auto split: if_splits)
  finally show ?thesis by (simp add: n_def)
qed

text \<open>C35: The two encodings of the topology agree and describe a star with the server in the middle.
  The bitmap of \<open>n\<close> peers has bit \<open>(i, j)\<close> set exactly when \<open>i = j\<close> or one of the two is the
  server, and the sparse list gives every peer exactly its neighbours in the bitmap.\<close>

theorem star_encodings_agree:
  assumes "distinct relevant" and "me \<in> set relevant" and "n = length relevant" and "i < n"
    and "versions = map (\<lambda>p. (p, v p)) relevant"
  shows "(\<forall>j < n. bit_at (star_bits relevant me) (i * n + j) \<longleftrightarrow>
            i = j \<or> relevant ! i = me \<or> relevant ! j = me)
    \<and> fst (star_lists relevant me versions ! i) = Some (relevant ! i, v (relevant ! i))
    \<and> set (snd (star_lists relevant me versions ! i)) =
        {relevant ! j | j. j < n \<and> j \<noteq> i \<and> bit_at (star_bits relevant me) (i * n + j)}"
proof -
  obtain si where si: "si < n" "relevant ! si = me" using assms by (metis in_set_conv_nth)
  have at: "relevant ! k = me \<longleftrightarrow> k = si" if "k < n" for k
    using si that assms by (metis nth_eq_iff_index_eq)
  have bits: "bit_at (star_bits relevant me) (i * n + j) \<longleftrightarrow> i = j \<or> i = si \<or> j = si" if "j < n" for j
    using star_bits_cell [OF assms(1) _ si(2), of i j] si that assms by simp
  have entry: "star_lists relevant me versions ! i =
      (Some (relevant ! i, v (relevant ! i)), if i = si then filter (\<lambda>c. c \<noteq> me) relevant else [me])"
    using assms at by (simp add: star_lists_def)
  have "set (filter (\<lambda>c. c \<noteq> me) relevant) = {relevant ! j | j. j < n \<and> j \<noteq> si}"
    using at assms by (auto simp: in_set_conv_nth)
  moreover have "{me} = {relevant ! j | j. j < n \<and> j = si}" using si by auto
  ultimately have "set (snd (star_lists relevant me versions ! i)) =
      {relevant ! j | j. j < n \<and> j \<noteq> i \<and> bit_at (star_bits relevant me) (i * n + j)}"
    unfolding entry using bits by (cases "i = si") fastforce+
  with bits entry at assms show ?thesis by auto
qed

theorem star_encodings_agree_witness:
  "bit_at (star_bits [4, 7, 9] 7) 5 \<and> \<not> bit_at (star_bits [4, 7, 9] 7) 2"
proof -
  have "\<forall>j < 3. bit_at (star_bits [4, 7, 9] 7) (1 * 3 + j) \<longleftrightarrow>
      1 = j \<or> [4, 7, 9] ! 1 = (7 :: u32) \<or> [4, 7, 9] ! j = (7 :: u32)"
    by (rule star_encodings_agree [THEN conjunct1, of "[4, 7, 9]" 7 3 1 "[(4, 1), (7, 1), (9, 1)]" "\<lambda>_. 1"]) simp_all
  moreover have "\<forall>j < 3. bit_at (star_bits [4, 7, 9] 7) (0 * 3 + j) \<longleftrightarrow>
      0 = j \<or> [4, 7, 9] ! 0 = (7 :: u32) \<or> [4, 7, 9] ! j = (7 :: u32)"
    by (rule star_encodings_agree [THEN conjunct1, of "[4, 7, 9]" 7 3 0 "[(4, 1), (7, 1), (9, 1)]" "\<lambda>_. 1"]) simp_all
  ultimately show ?thesis by (auto dest!: spec [of _ 2])
qed

subsection \<open>The invariant of the groups\<close>

definition conn_versions :: "u32 \<Rightarrow> 'x route_group \<Rightarrow> (u32 \<times> u32) list" where
  "conn_versions me g = map (\<lambda>p. (p, version_or_1 (peer_conn_versions g) p)) (insort me (peers g))"

text \<open>A cache that is set holds what would be built now.\<close>

definition caches_ok :: "u32 \<Rightarrow> 'x route_group \<Rightarrow> bool" where
  "caches_ok me g \<longleftrightarrow> topology_version g \<noteq> 0
   \<and> (case cached_conn_bitmap g of None \<Rightarrow> True
      | Some c \<Rightarrow> c = (topology_version g, \<lparr>cb_peer_ids = conn_versions me g,
                         cb_bitmap = star_bits (insort me (peers g)) me\<rparr>))
   \<and> (case cached_conn_peer_list g of None \<Rightarrow> True
      | Some c \<Rightarrow> c = (topology_version g, star_lists (insort me (peers g)) me (conn_versions me g)))"

definition members_ok :: "u32 \<Rightarrow> 'x route_group \<Rightarrow> bool" where
  "members_ok me g \<longleftrightarrow> sorted (peers g) \<and> distinct (peers g) \<and> me \<notin> set (peers g)
     \<and> m_ok (authenticated_peer_keys g) \<and> set (m_keys (authenticated_peer_keys g)) = set (peers g)
     \<and> set (m_keys (peer_conn_versions g)) \<subseteq> insert me (set (peers g))"

definition infos_ok :: "'x route_group \<Rightarrow> bool" where
  "infos_ok g \<longleftrightarrow> m_ok (peer_infos g) \<and>
     (\<forall>p i. m_get (peer_infos g) p = Some i \<longrightarrow>
        ri_peer_id i = p \<and> m_get (authenticated_peer_keys g) p = Some (ri_noise_static_pubkey i))"

definition rgroup_ok :: "u32 \<Rightarrow> 'x route_group \<Rightarrow> bool" where
  "rgroup_ok me g \<longleftrightarrow> members_ok me g \<and> infos_ok g \<and> caches_ok me g
     \<and> m_ok (sessions g) \<and> ri_peer_id (my_info g) = me \<and> ri_version (my_info g) = my_info_version g"

definition route_ok :: "u32 \<Rightarrow> 'x route_state \<Rightarrow> bool" where
  "route_ok me s \<longleftrightarrow> rs_my_peer_id s = me \<and> m_ok (rs_groups s)
     \<and> list_all (\<lambda>(_, g). rgroup_ok me g) (rs_groups s)"

lemmas group_defs = rgroup_ok_def members_ok_def infos_ok_def caches_ok_def

lemma m_keys_dom: "set (m_keys m) = dom (m_get m)"
  by (simp add: dom_map_of_conv_image_fst)

lemma m_keys_del: "set (m_keys (m_del k m)) = set (m_keys m) - {k}"
  by (auto simp: m_keys_dom m_get_del dom_def simp del: set_map)

lemma sorted_removeAll: "sorted xs \<Longrightarrow> sorted (removeAll x xs)"
  by (simp add: removeAll_filter_not_eq sorted_wrt_filter)

lemma caches_ok_cong:
  assumes "caches_ok me g" "peers g' = peers g" "topology_version g' = topology_version g"
    "m_get (peer_conn_versions g') = m_get (peer_conn_versions g)"
    "cached_conn_bitmap g' = cached_conn_bitmap g" "cached_conn_peer_list g' = cached_conn_peer_list g"
  shows "caches_ok me g'"
proof -
  have "conn_versions me g' = conn_versions me g"
    using assms by (simp add: conn_versions_def version_or_1_def)
  with assms show ?thesis by (auto simp: caches_ok_def split: option.splits)
qed

lemma infos_keys: "infos_ok g \<Longrightarrow> set (m_keys (peer_infos g)) \<subseteq> set (m_keys (authenticated_peer_keys g))"
  unfolding infos_ok_def m_keys_dom by blast

lemma rgroup_ok_initial [simp]: "rgroup_ok me (initial_group lib me k)"
  by (simp add: group_defs initial_group_def initial_info_def)

lemma with_session_sel [simp]:
  "peers (with_session p f g) = peers g" "peer_infos (with_session p f g) = peer_infos g"
  "authenticated_peer_keys (with_session p f g) = authenticated_peer_keys g"
  "peer_conn_versions (with_session p f g) = peer_conn_versions g"
  "topology_version (with_session p f g) = topology_version g"
  "cached_conn_bitmap (with_session p f g) = cached_conn_bitmap g"
  "cached_conn_peer_list (with_session p f g) = cached_conn_peer_list g"
  "my_info (with_session p f g) = my_info g" "my_info_version (with_session p f g) = my_info_version g"
  by (simp_all add: with_session_def)

lemma with_session_get:
  "m_get (sessions (with_session p f g)) q =
     (if q = p then Some (f (case m_get (sessions g) p of None \<Rightarrow> session_default | Some s \<Rightarrow> s))
      else m_get (sessions g) q)"
  by (simp add: with_session_def m_get_put)

lemma rgroup_ok_session [simp]: "rgroup_ok me g \<Longrightarrow> rgroup_ok me (with_session p f g)"
  using caches_ok_cong [of me g "with_session p f g"]
  by (auto simp: rgroup_ok_def members_ok_def infos_ok_def) (simp add: with_session_def)

lemma caches_ok_session [simp]: "caches_ok me g \<Longrightarrow> caches_ok me (with_session p f g)"
  using caches_ok_cong [of me g "with_session p f g"] by simp

lemma bump_versions_keys:
  "set (m_keys (fold bump_version ps m)) = set ps \<union> set (m_keys m)"
  by (induction ps arbitrary: m) (auto simp: bump_version_def m_keys_put simp del: set_map)

lemma bump_sel [simp]:
  "peers (bump_all_conn_versions me g) = peers g"
  "peer_infos (bump_all_conn_versions me g) = peer_infos g"
  "authenticated_peer_keys (bump_all_conn_versions me g) = authenticated_peer_keys g"
  "sessions (bump_all_conn_versions me g) = sessions g"
  "my_info (bump_all_conn_versions me g) = my_info g"
  "my_info_version (bump_all_conn_versions me g) = my_info_version g"
  "cached_conn_bitmap (bump_all_conn_versions me g) = None"
  "cached_conn_peer_list (bump_all_conn_versions me g) = None"
  by (simp_all add: bump_all_conn_versions_def Let_def)

lemma bump_topology [simp]: "topology_version (bump_all_conn_versions me g) \<noteq> 0"
proof -
  have "1 \<le> max (topology_version g + 1) 1" by (rule max.cobounded2)
  then have "max (topology_version g + 1) 1 \<noteq> 0" by (metis word_le_0_iff zero_neq_one)
  then show ?thesis by (simp add: bump_all_conn_versions_def Let_def)
qed

lemma bump_keys:
  "set (m_keys (peer_conn_versions (bump_all_conn_versions me g))) =
     insert me (set (peers g) \<union> set (m_keys (peer_infos g)) \<union> set (m_keys (peer_conn_versions g)))"
  by (auto simp: bump_all_conn_versions_def Let_def m_keys_put bump_versions_keys
      split: option.split simp del: set_map)

lemma rgroup_ok_bump:
  assumes "members_ok me g" "infos_ok g" "m_ok (sessions g)" "ri_peer_id (my_info g) = me"
    and "ri_version (my_info g) = my_info_version g"
  shows "rgroup_ok me (bump_all_conn_versions me g)"
  using assms infos_keys [OF assms(2)]
  by (auto simp: rgroup_ok_def members_ok_def caches_ok_def bump_keys simp del: set_map)
     (auto simp: infos_ok_def)

lemma rgroup_ok_parts:
  "rgroup_ok me g \<Longrightarrow> members_ok me g \<and> infos_ok g \<and> caches_ok me g \<and> m_ok (sessions g)
     \<and> ri_peer_id (my_info g) = me \<and> ri_version (my_info g) = my_info_version g"
  by (simp add: rgroup_ok_def)

lemma rgroup_ok_add:
  assumes ok: "rgroup_ok me g" and "pid \<noteq> me"
    and free: "m_get (authenticated_peer_keys g) pid = None \<or> m_get (authenticated_peer_keys g) pid = Some k"
  defines "g' \<equiv> g\<lparr>authenticated_peer_keys := m_put pid k (authenticated_peer_keys g),
                    peers := bs_insert pid (peers g)\<rparr>"
  shows "rgroup_ok me (if pid \<notin> set (peers g) then bump_all_conn_versions me g' else g')"
proof -
  note parts = rgroup_ok_parts [OF ok]
  have m: "members_ok me g'"
    using parts \<open>pid \<noteq> me\<close> by (auto simp: g'_def members_ok_def m_keys_put simp del: set_map)
  have i: "infos_ok g'" using parts free by (fastforce simp: g'_def infos_ok_def m_get_put)
  have "g' = g" if "pid \<in> set (peers g)"
  proof -
    have "m_get (authenticated_peer_keys g) pid = Some k"
      using that parts free unfolding members_ok_def by (metis map_of_eq_None_iff list.set_map)
    then have "m_put pid k (authenticated_peer_keys g) = authenticated_peer_keys g"
      by (induction "authenticated_peer_keys g") (auto simp: update_triv)
    with that show ?thesis by (simp add: g'_def bs_insert_def)
  qed
  then show ?thesis
    using rgroup_ok_bump [OF m i] parts ok by (auto simp: g'_def)
qed

lemma rgroup_ok_remove:
  assumes ok: "rgroup_ok me g" and "pid \<noteq> me"
  shows "rgroup_ok me (remove_from_group me pid g)"
proof -
  note parts = rgroup_ok_parts [OF ok]
  define g' where "g' = g\<lparr>peers := removeAll pid (peers g),
      peer_infos := m_del pid (peer_infos g),
      authenticated_peer_keys := m_del pid (authenticated_peer_keys g),
      sessions := m_map (forget_peer pid) (m_del pid (sessions g)),
      peer_conn_versions := m_del pid (peer_conn_versions g)\<rparr>"
  have eq: "remove_from_group me pid g =
      (if pid \<in> set (peers g) \<or> m_get (peer_infos g) pid \<noteq> None then bump_all_conn_versions me g' else g')"
    by (simp add: remove_from_group_def g'_def Let_def)
  have m: "members_ok me g'"
    using parts \<open>pid \<noteq> me\<close>
    by (auto simp: g'_def members_ok_def m_keys_del sorted_removeAll distinct_removeAll simp del: set_map)
  have i: "infos_ok g'" using parts by (auto simp: g'_def infos_ok_def m_get_del)
  have s: "m_ok (sessions g')" using parts by (simp add: g'_def)
  have "caches_ok me g'" if "pid \<notin> set (peers g)"
  proof (rule caches_ok_cong [of me g])
    have "m_get (peer_conn_versions g) pid = None"
      using that parts \<open>pid \<noteq> me\<close> unfolding members_ok_def m_keys_dom by blast
    then show "m_get (peer_conn_versions g') = m_get (peer_conn_versions g)"
      by (auto simp: g'_def m_get_del fun_eq_iff)
  qed (use that parts in \<open>simp_all add: g'_def\<close>)
  moreover have mine: "ri_peer_id (my_info g') = me" "ri_version (my_info g') = my_info_version g'"
    using parts by (simp_all add: g'_def)
  ultimately have "rgroup_ok me g'" if "pid \<notin> set (peers g)"
    using that m i s by (simp add: rgroup_ok_def)
  with rgroup_ok_bump [OF m i s mine] show ?thesis unfolding eq by simp
qed

lemma keeps_change_my_info:
  "(\<And>i. ri_peer_id (f i) = ri_peer_id i) \<Longrightarrow> keeps (rgroup_ok me) (change_my_info f)"
  unfolding change_my_info_def
  by (intro keeps_mod)
     (auto simp: rgroup_ok_def members_ok_def infos_ok_def bump_my_info_def caches_ok_def conn_versions_def
       split: option.splits)

lemma rgroup_ok_forget_sent: "rgroup_ok me g \<Longrightarrow> rgroup_ok me (forget_sent_info p g)"
  using caches_ok_cong [of me g "forget_sent_info p g"]
  by (simp add: rgroup_ok_def members_ok_def infos_ok_def forget_sent_info_def)

lemma rgroup_ok_store:
  assumes "rgroup_ok me g"
    and "m_get (authenticated_peer_keys g) (ri_peer_id info) = Some (ri_noise_static_pubkey info)"
  shows "rgroup_ok me (store_info now_ms info g)"
  using assms caches_ok_cong [of me g "store_info now_ms info g"]
  by (simp add: rgroup_ok_def members_ok_def infos_ok_def store_info_def m_get_put del: map_of_eq_Some_iff)

text \<open>What one item of a request does.\<close>

lemma sync_info_cases:
  obtains "snd (sync_info now_ms from info acc g) = g"
  | h where "h = g \<or> h = forget_sent_info from g" "ri_peer_id info = from"
      "m_get (authenticated_peer_keys g) from = Some (ri_noise_static_pubkey info)"
      "snd (sync_info now_ms from info acc g) = store_info now_ms info h"
proof -
  consider "ri_peer_id info \<noteq> from" | "m_get (authenticated_peer_keys g) from = None"
    | k where "ri_peer_id info = from" "m_get (authenticated_peer_keys g) from = Some k" by auto
  then show thesis
  proof cases
    case (3 k)
    let ?cur = "m_get (peer_infos g) from"
    define inst where "inst \<longleftrightarrow> (case ?cur of None \<Rightarrow> False | Some c \<Rightarrow> ri_inst_id c \<noteq> ri_inst_id info)"
    define upd where "upd \<longleftrightarrow> inst \<or> (case ?cur of None \<Rightarrow> True | Some c \<Rightarrow> ri_version c < ri_version info)"
    consider "ri_noise_static_pubkey info \<noteq> k" | "ri_noise_static_pubkey info = k" "\<not> upd"
      | "ri_noise_static_pubkey info = k" "upd" by blast
    then show thesis
    proof cases
      case 3
      with \<open>ri_peer_id info = from\<close> \<open>m_get (authenticated_peer_keys g) from = Some k\<close> show thesis
        by (intro that(2) [of "if inst then forget_sent_info from g else g"])
           (auto simp: sync_info_def op_defs Let_def inst_def [symmetric] upd_def)
    qed (use that(1) 3 in \<open>auto simp: sync_info_def op_defs Let_def inst_def [symmetric] upd_def\<close>)
  qed (use that in \<open>auto simp: sync_info_def op_defs\<close>)
qed

lemma keeps_sync_info: "keeps (rgroup_ok me) (sync_info now_ms from info acc)"
proof (rule keepsI)
  fix g :: "'a route_group"
  assume ok: "rgroup_ok me g"
  show "rgroup_ok me (snd (sync_info now_ms from info acc g))"
  proof (cases rule: sync_info_cases [of now_ms "from" info acc g])
    case (2 h)
    moreover have "rgroup_ok me h" using 2(1) ok rgroup_ok_forget_sent by blast
    moreover have "authenticated_peer_keys h = authenticated_peer_keys g"
      using 2(1) by (auto simp: forget_sent_info_def)
    ultimately show ?thesis using rgroup_ok_store by metis
  qed (simp add: ok)
qed

lemma keeps_sync_infos: "keeps (rgroup_ok me) (sync_infos now_ms from infos acc)"
  by (induction infos arbitrary: acc) (auto intro!: pres keeps_sync_info)

lemma rgroup_ok_bump': "rgroup_ok me g \<Longrightarrow> rgroup_ok me (bump_all_conn_versions me g)"
  using rgroup_ok_bump rgroup_ok_parts by blast

text \<open>The topology a client gets is that of the members, whatever the caches hold.\<close>

definition fresh_conn_info :: "bool \<Rightarrow> u32 \<Rightarrow> 'x route_group \<Rightarrow> conn_info" where
  "fresh_conn_info list_sync me g =
     (if list_sync then Conn_Peer_List (star_lists (insort me (peers g)) me (conn_versions me g))
      else Conn_Bitmap \<lparr>cb_peer_ids = conn_versions me g, cb_bitmap = star_bits (insort me (peers g)) me\<rparr>)"

definition forget_caches :: "'x route_group \<Rightarrow> 'x route_group" where
  "forget_caches g = g\<lparr>cached_conn_bitmap := None, cached_conn_peer_list := None\<rparr>"

lemma build_conn_info_result:
  assumes "caches_ok me g"
  shows "fst (build_conn_info now_ms (insort me (peers g)) target list_sync me g) =
    (if topology_known now_ms (topology_version g) (m_get (sessions g) target) then Inr None
     else if \<not> list_sync \<and> cached_conn_bitmap g = None \<and> MAX_LEGACY_BITMAP_PEERS \<le> length (peers g)
     then Inl (Err ''peer does not support sparse route synchronization and the legacy bitmap limit was exceeded'')
     else Inr (Some (fresh_conn_info list_sync me g)))"
  using assms
  by (auto simp: build_conn_info_def op_defs Let_def caches_ok_def cached_def fresh_conn_info_def
      conn_versions_def insort_not_Nil split: option.splits)

lemma keeps_build_conn_info:
  assumes "rgroup_ok me g" and "relevant = insort me (peers g)"
  shows "rgroup_ok me (snd (build_conn_info now_ms relevant target list_sync me g))"
proof -
  have a: "rgroup_ok me (g\<lparr>cached_conn_peer_list := Some (topology_version g,
      star_lists (insort me (peers g)) me (conn_versions me g))\<rparr>)"
    and b: "rgroup_ok me (g\<lparr>cached_conn_bitmap := Some (topology_version g,
      \<lparr>cb_peer_ids = conn_versions me g, cb_bitmap = star_bits (insort me (peers g)) me\<rparr>)\<rparr>)"
    using assms
    by (auto simp: rgroup_ok_def members_ok_def infos_ok_def caches_ok_def conn_versions_def split: option.splits)
  show ?thesis
    using assms a b
    by (auto simp: build_conn_info_def op_defs Let_def conn_versions_def [symmetric] split: option.split)
qed

lemma build_conn_info_frame:
  "topology_version (snd (build_conn_info now_ms relevant target list_sync me g)) = topology_version g"
  by (auto simp: build_conn_info_def op_defs Let_def split: option.split)

subsection \<open>The invariant of the whole state\<close>

lemma ensure_group_ok:
  assumes "route_ok me s" "ensure_group lib key s = (g, s')"
  shows "route_ok me s' \<and> rgroup_ok me g \<and> m_get (rs_groups s') key = Some g"
  using assms
  by (auto simp: ensure_group_def route_ok_def Let_def list_all_m_put m_get_put
      split: option.splits dest: list_all_m_get)

lemma route_ok_put: "route_ok me s \<Longrightarrow> rgroup_ok me g \<Longrightarrow> route_ok me (s\<lparr>rs_groups := m_put key g (rs_groups s)\<rparr>)"
  by (simp add: route_ok_def list_all_m_put)

lemma route_ok_get: "route_ok me s \<Longrightarrow> m_get (rs_groups s) key = Some g \<Longrightarrow> rgroup_ok me g"
  by (auto simp: route_ok_def dest: list_all_m_get)

definition group_of :: "'x route_lib \<Rightarrow> string \<Rightarrow> 'x route_state \<Rightarrow> 'x route_group" where
  "group_of lib key s = fst (ensure_group lib key s)"

lemma with_group_ok:
  assumes "route_ok me s"
    and "rgroup_ok me (group_of lib key s) \<Longrightarrow> rgroup_ok me (snd (m (group_of lib key s)))"
  shows "route_ok me (snd (with_group lib key m s))"
proof -
  obtain g s' where e: "ensure_group lib key s = (g, s')" by (cases "ensure_group lib key s")
  obtain r g' where m: "m g = (r, g')" by (cases "m g")
  from ensure_group_ok [OF assms(1) e] assms(2) show ?thesis
    by (auto simp: with_group_def e m group_of_def intro!: route_ok_put)
qed

lemma keeps_with_group: "keeps (rgroup_ok me) m \<Longrightarrow> keeps (route_ok me) (with_group lib key m)"
  by (intro keepsI with_group_ok) (auto simp: keeps_def)

lemma keeps_my_peer:
  "keeps (route_ok me) (f me) \<Longrightarrow> keeps (route_ok me) (mbind (mget rs_my_peer_id) f)"
  by (auto simp: keeps_def op_defs route_ok_def)

lemma keeps_route_add_peer:
  assumes "pid \<noteq> me"
  shows "keeps (route_ok me) (route_add_peer lib key pid k)"
  unfolding route_add_peer_def
proof (intro keeps_if keeps_raise keeps_my_peer keeps_with_group keepsI)
  fix g :: "'a route_group"
  assume "rgroup_ok me g"
  from rgroup_ok_add [OF this assms, of k] this show "rgroup_ok me (snd (
     (mbind (mget (\<lambda>g. m_get (authenticated_peer_keys g) pid)) (\<lambda>current.
      if current \<noteq> None \<and> current \<noteq> Some k
      then mraise (Err ''peer id is already bound to another authenticated public key'')
      else
        mbind (mget (\<lambda>g. pid \<notin> set (peers g))) (\<lambda>is_new.
        mbind (mmod (\<lambda>g. g\<lparr>authenticated_peer_keys := m_put pid k (authenticated_peer_keys g),
                           peers := bs_insert pid (peers g)\<rparr>)) (\<lambda>_.
        if is_new then mmod (bump_all_conn_versions me) else mret ())))) g))"
    by (cases "m_get (authenticated_peer_keys g) pid") (auto simp: op_defs)
qed

lemma route_ok_remove:
  assumes "pid \<noteq> me" "route_ok me s"
  shows "route_ok me (route_remove_peer lib key pid s)"
proof -
  obtain g s' where e: "ensure_group lib key s = (g, s')" by (cases "ensure_group lib key s")
  note ok = ensure_group_ok [OF assms(2) e]
  then have "rs_my_peer_id s' = me" by (simp add: route_ok_def)
  then show ?thesis
    using ok rgroup_ok_remove [OF _ assms(1)] by (auto simp: route_remove_peer_def e intro!: route_ok_put)
qed

lemma keeps_session_op: "keeps (route_ok me) (with_group lib key (mmod (with_session p f)))"
  by (intro keeps_with_group keeps_mod) simp

lemma keeps_on_route_session_ack: "keeps (route_ok me) (on_route_session_ack lib now_ms key pid sid b)"
  and keeps_commit_route_update: "keeps (route_ok me) (commit_route_update lib now_ms key pid vs tv)"
  by (simp_all add: on_route_session_ack_def commit_route_update_def keeps_session_op)

lemma keeps_set_my_info_field: "keeps (route_ok me) (set_my_info_field lib key field val)"
  unfolding set_my_info_field_def by (intro keeps_with_group pres keeps_change_my_info; simp)

lemma keeps_set_my_noise_public_key: "keeps (route_ok me) (set_my_noise_public_key lib key k)"
  unfolding set_my_noise_public_key_def by (intro pres keeps_with_group keeps_change_my_info; simp)

lemma keeps_handle_sync: "keeps (route_ok me) (handle_sync_route_info_request lib now_ms key from bs)"
  unfolding handle_sync_route_info_request_def
  by (intro keeps_my_peer pres keeps_with_group keeps_mod keeps_sync_infos; simp add: rgroup_ok_bump')

lemma snd_mbind_pure: "(\<And>a t. snd (f a t) = t) \<Longrightarrow> snd (mbind m f s) = snd (m s)"
  by (simp add: mbind_def split: prod.split sum.split)

lemma build_in_group_state:
  "snd (build_in_group lib now_ms me target sid init full g) =
    snd (build_conn_info now_ms (relevant_peers me target (peers g)) target
      (list_sync_flag (m_get (peer_infos g) target)) me
      (with_session target (\<lambda>s. s\<lparr>my_session_id := Some sid, last_touch_ms := now_ms\<rparr>) g))"
  unfolding build_in_group_def mbind_def [of "mmod _"] mbind_def [of "mget id"] Let_def
  by (simp add: mmod_def mget_def [of id]) (simp add: op_defs split: prod.split sum.split)

text \<open>The update a group makes, from the topology that goes with it.\<close>

definition update_of ::
  "'x route_lib \<Rightarrow> u64 \<Rightarrow> u32 \<Rightarrow> u32 \<Rightarrow> u64 \<Rightarrow> bool \<Rightarrow> bool \<Rightarrow> 'x route_group \<Rightarrow> conn_info option \<Rightarrow> route_update" where
  "update_of lib now_ms me target sid init force g conn =
     (let session = (case m_get (sessions g) target of None \<Rightarrow> session_default | Some s \<Rightarrow> s);
          full = (force \<or> dst_session_id session = None);
          items = List.map_filter (info_item now_ms full me target g session) (relevant_peers me target (peers g))
      in \<lparr>ru_payload = encode_sync_request lib
            \<lparr>sq_my_peer_id = me, sq_my_session_id = sid, sq_is_initiator = init,
             sq_peer_infos = (if items = [] then None else Some (map fst items)),
             sq_conn_info = conn, sq_foreign_network_infos = None\<rparr>,
          ru_peer_info_versions = map snd items,
          ru_topology_version = map_option (\<lambda>_. topology_version g) conn\<rparr>)"

definition touch :: "u64 \<Rightarrow> u64 \<Rightarrow> session_state \<Rightarrow> session_state" where
  "touch sid now_ms s = s\<lparr>my_session_id := Some sid, last_touch_ms := now_ms\<rparr>"

lemma build_in_group_result:
  assumes "g' = with_session target (touch sid now_ms) g"
  shows "fst (build_in_group lib now_ms me target sid init force g) =
    (case fst (build_conn_info now_ms (relevant_peers me target (peers g)) target
            (list_sync_flag (m_get (peer_infos g) target)) me g') of
       Inl e \<Rightarrow> Inl e | Inr conn \<Rightarrow> Inr (update_of lib now_ms me target sid init force g' conn))"
proof -
  let ?b = "build_conn_info now_ms (relevant_peers me target (peers g)) target
            (list_sync_flag (m_get (peer_infos g) target)) me g'"
  have t: "(\<lambda>s. s\<lparr>my_session_id := Some sid, last_touch_ms := now_ms\<rparr>) = touch sid now_ms"
    by (simp add: touch_def fun_eq_iff)
  have f: "topology_version (snd ?b) = topology_version g'" by (rule build_conn_info_frame)
  have p: "peers g' = peers g" "peer_infos g' = peer_infos g" by (simp_all add: assms)
  obtain r g2 where b: "?b = (r, g2)" by (cases ?b)
  with f have "topology_version g2 = topology_version g'" by simp
  then show ?thesis
    unfolding build_in_group_def t mbind_def [of "mmod _"] mbind_def [of "mget id"]
    by (cases r) (simp_all add: mmod_def mget_def assms [symmetric] Let_def p b mbind_def update_of_def mret_def)
qed

lemma members_relevant:
  "rgroup_ok me g \<Longrightarrow> target \<in> set (peers g) \<Longrightarrow> relevant_peers me target (peers g) = insort me (peers g)"
  by (intro relevant_peers_known) (auto simp: rgroup_ok_def members_ok_def)

lemma route_ok_build:
  assumes ok: "route_ok me s" and member: "target \<in> set (peers (group_of lib key s))"
  shows "route_ok me (snd (build_sync_route_info_request lib now_ms key target sid init full s))"
proof -
  have "rs_my_peer_id s = me" using ok by (simp add: route_ok_def)
  then have "build_sync_route_info_request lib now_ms key target sid init full s =
      with_group lib key (build_in_group lib now_ms me target sid init full) s"
    by (simp add: build_sync_route_info_request_def op_defs)
  then show ?thesis
    by (simp only:) (rule with_group_ok [OF ok], simp add: build_in_group_state,
        rule keeps_build_conn_info, simp_all add: members_relevant member)
qed

lemma build_request_group:
  "fst (build_sync_route_info_request lib now_ms key target sid init full s) =
    fst (build_in_group lib now_ms (rs_my_peer_id s) target sid init full (group_of lib key s))"
  by (simp add: build_sync_route_info_request_def op_defs with_group_def group_of_def case_prod_unfold)

lemma forget_caches_sel [simp]:
  "peers (forget_caches g) = peers g" "peer_infos (forget_caches g) = peer_infos g"
  "sessions (forget_caches g) = sessions g" "topology_version (forget_caches g) = topology_version g"
  "my_info (forget_caches g) = my_info g" "conn_versions me (forget_caches g) = conn_versions me g"
  "with_session p f (forget_caches g) = forget_caches (with_session p f g)"
  by (simp_all add: forget_caches_def conn_versions_def with_session_def)

lemma caches_ok_forget: "caches_ok me g \<Longrightarrow> caches_ok me (forget_caches g)"
  by (simp add: caches_ok_def forget_caches_def)

lemma update_of_forget [simp]:
  "update_of lib now_ms me target sid init full (forget_caches g) conn =
    update_of lib now_ms me target sid init full g conn"
proof -
  have "info_item now_ms f me target (forget_caches g) = info_item now_ms f me target g" for f
    by (simp add: info_item_def fun_eq_iff)
  then show ?thesis by (simp add: update_of_def)
qed

text \<open>For a member, the topology is that of the members, whatever the caches hold.\<close>

lemma build_in_group_member:
  assumes "rgroup_ok me g" and "target \<in> set (peers g)" and "length (peers g) < 8192"
    and "g' = with_session target (touch sid now_ms) g"
  shows "fst (build_in_group lib now_ms me target sid init full g) =
    Inr (update_of lib now_ms me target sid init full g'
      (if topology_known now_ms (topology_version g') (m_get (sessions g') target) then None
       else Some (fresh_conn_info (list_sync_flag (m_get (peer_infos g) target)) me g')))"
proof -
  have p: "peers g' = peers g" by (simp add: assms(4))
  have "caches_ok me g'" using assms(1) by (simp add: rgroup_ok_def assms(4))
  from build_conn_info_result [OF this, of now_ms target] assms(3)
  have "fst (build_conn_info now_ms (insort me (peers g)) target b me g') =
      Inr (if topology_known now_ms (topology_version g') (m_get (sessions g') target) then None
       else Some (fresh_conn_info b me g'))" for b
    by (simp add: p MAX_LEGACY_BITMAP_PEERS_def)
  then show ?thesis
    using build_in_group_result [OF assms(4)] members_relevant [OF assms(1,2)] by simp
qed

lemma build_in_group_without_caches:
  assumes "rgroup_ok me g" and "target \<in> set (peers g)" and "length (peers g) < 8192"
  shows "fst (build_in_group lib now_ms me target sid init full g) =
    fst (build_in_group lib now_ms me target sid init full (forget_caches g))"
proof -
  have "rgroup_ok me (forget_caches g)"
    using assms(1) caches_ok_forget [of me g] by (simp add: rgroup_ok_def members_ok_def infos_ok_def forget_caches_def)
  then show ?thesis
    using assms by (simp add: build_in_group_member [OF _ _ _ refl] fresh_conn_info_def)
qed

text \<open>The states the component can be in, for a client that is not the server itself; a route update
  is built for a member only.\<close>

inductive route_reachable :: "'x route_lib \<Rightarrow> u32 \<Rightarrow> 'x route_state \<Rightarrow> bool" for lib me where
  route_start: "route_reachable lib me (route_new me)"
| route_added: "route_reachable lib me s \<Longrightarrow> pid \<noteq> me \<Longrightarrow>
    route_reachable lib me (snd (route_add_peer lib key pid k s))"
| route_removed: "route_reachable lib me s \<Longrightarrow> pid \<noteq> me \<Longrightarrow>
    route_reachable lib me (route_remove_peer lib key pid s)"
| route_acked: "route_reachable lib me s \<Longrightarrow>
    route_reachable lib me (snd (on_route_session_ack lib now_ms key pid sid b s))"
| route_committed: "route_reachable lib me s \<Longrightarrow>
    route_reachable lib me (snd (commit_route_update lib now_ms key pid vs tv s))"
| route_field: "route_reachable lib me s \<Longrightarrow>
    route_reachable lib me (snd (set_my_info_field lib key field val s))"
| route_key: "route_reachable lib me s \<Longrightarrow>
    route_reachable lib me (snd (set_my_noise_public_key lib key k s))"
| route_received: "route_reachable lib me s \<Longrightarrow>
    route_reachable lib me (snd (handle_sync_route_info_request lib now_ms key from bs s))"
| route_sent: "route_reachable lib me s \<Longrightarrow> target \<in> set (peers (group_of lib key s)) \<Longrightarrow>
    route_reachable lib me (snd (build_sync_route_info_request lib now_ms key target sid init full s))"

lemma route_reachable_ok: "route_reachable lib me s \<Longrightarrow> route_ok me s"
proof (induction rule: route_reachable.induct)
  case route_start
  show ?case by (simp add: route_ok_def route_new_def)
next
  case (route_sent s target key now_ms sid init full)
  then show ?case by (intro route_ok_build)
qed (simp_all add: route_ok_remove keepsD [OF keeps_route_add_peer] keepsD [OF keeps_on_route_session_ack]
    keepsD [OF keeps_commit_route_update] keepsD [OF keeps_set_my_info_field]
    keepsD [OF keeps_set_my_noise_public_key] keepsD [OF keeps_handle_sync])

text \<open>C10: In every state the server can reach, a network's routes are those of its authenticated
  members: a client is listed under its own id and with the public key it proved in the handshake,
  every listed client has authenticated, and a cached topology is the one of the present members,
  with their present versions.\<close>

theorem routes_are_authenticated:
  assumes "route_reachable lib me s" and "m_get (rs_groups s) key = Some g"
  shows "set (m_keys (peer_infos g)) \<subseteq> set (peers g)
    \<and> set (m_keys (authenticated_peer_keys g)) = set (peers g)
    \<and> me \<notin> set (peers g)
    \<and> list_all (\<lambda>(p, i). ri_peer_id i = p
        \<and> m_get (authenticated_peer_keys g) p = Some (ri_noise_static_pubkey i)) (peer_infos g)
    \<and> (\<forall>v b. cached_conn_bitmap g = Some (v, b) \<longrightarrow>
        v = topology_version g \<and> Conn_Bitmap b = fresh_conn_info False me g)
    \<and> (\<forall>v l. cached_conn_peer_list g = Some (v, l) \<longrightarrow>
        v = topology_version g \<and> Conn_Peer_List l = fresh_conn_info True me g)"
proof -
  have ok: "rgroup_ok me g" using route_ok_get [OF route_reachable_ok [OF assms(1)] assms(2)] .
  then have "infos_ok g" "members_ok me g" "caches_ok me g" by (simp_all add: rgroup_ok_def)
  moreover have "set (m_keys (peer_infos g)) \<subseteq> set (peers g)"
    using infos_keys [OF \<open>infos_ok g\<close>] \<open>members_ok me g\<close> by (simp add: members_ok_def)
  moreover have "list_all (\<lambda>(p, i). ri_peer_id i = p
      \<and> m_get (authenticated_peer_keys g) p = Some (ri_noise_static_pubkey i)) (peer_infos g)"
    using \<open>infos_ok g\<close> by (auto simp: infos_ok_def list_all_iff del: not_None_eq dest: map_of_is_SomeI)
  ultimately show ?thesis
    by (simp add: members_ok_def caches_ok_def fresh_conn_info_def split: option.splits)
qed

text \<open>C34: The caches never show: whatever was cached, a route update for a member is the one built from
  the members alone, with the caches empty.\<close>

theorem route_caches_are_transparent:
  assumes "route_reachable lib me s" and "target \<in> set (peers (group_of lib key s))"
    and "length (peers (group_of lib key s)) < 8192"
  shows "fst (build_sync_route_info_request lib now_ms key target sid init full s) =
    fst (build_sync_route_info_request lib now_ms key target sid init full
      (s\<lparr>rs_groups := m_map forget_caches (rs_groups s)\<rparr>))"
proof -
  let ?g = "group_of lib key s" and ?s = "s\<lparr>rs_groups := m_map forget_caches (rs_groups s)\<rparr>"
  have me: "rs_my_peer_id s = me" and ok: "rgroup_ok me ?g"
    using route_reachable_ok [OF assms(1)] ensure_group_ok [of me s lib key ?g "snd (ensure_group lib key s)"]
    by (auto simp: route_ok_def group_of_def)
  have g: "group_of lib key ?s = forget_caches ?g"
    by (auto simp: group_of_def ensure_group_def Let_def initial_group_def forget_caches_def split: option.split)
  have "fst (build_in_group lib now_ms me target sid init full ?g) =
        fst (build_in_group lib now_ms me target sid init full (forget_caches ?g))"
    using build_in_group_without_caches [OF ok assms(2,3)] .
  with g me show ?thesis by (simp add: build_request_group)
qed

subsection \<open>Only about itself\<close>

definition info_at :: "'x route_state \<Rightarrow> string \<Rightarrow> u32 \<Rightarrow> 'x route_peer_info option" where
  "info_at s key p = Option.bind (m_get (rs_groups s) key) (\<lambda>g. m_get (peer_infos g) p)"

definition key_at :: "'x route_state \<Rightarrow> string \<Rightarrow> u32 \<Rightarrow> bytes option" where
  "key_at s key p = Option.bind (m_get (rs_groups s) key) (\<lambda>g. m_get (authenticated_peer_keys g) p)"

lemma group_of_at:
  "info_at s key p = m_get (peer_infos (group_of lib key s)) p"
  "key_at s key p = m_get (authenticated_peer_keys (group_of lib key s)) p"
  by (simp_all add: info_at_def key_at_def group_of_def ensure_group_def Let_def initial_group_def
      split: option.split)

lemma ensure_group_groups:
  "m_get (rs_groups (snd (ensure_group lib key s))) key' =
     (if key' = key then Some (group_of lib key s) else m_get (rs_groups s) key')"
  by (auto simp: group_of_def ensure_group_def Let_def m_get_put split: option.split)

lemma with_group_groups:
  "m_get (rs_groups (snd (with_group lib key m s))) key' =
     (if key' = key then Some (snd (m (group_of lib key s))) else m_get (rs_groups s) key')"
  using ensure_group_groups [of lib key s key']
  by (auto simp: with_group_def group_of_def case_prod_unfold m_get_put)

lemma with_group_of [simp]:
  "group_of lib key (snd (with_group lib key m s)) = snd (m (group_of lib key s))"
  "rs_my_peer_id (snd (with_group lib key m s)) = rs_my_peer_id s"
  by (simp_all add: group_of_def [of lib key "snd _"] ensure_group_def [of lib key "snd _"] with_group_groups)
     (simp add: with_group_def ensure_group_def case_prod_unfold Let_def split: option.split)

lemma fst_with_group: "fst (with_group lib key m s) = fst (m (group_of lib key s))"
  by (simp add: with_group_def group_of_def case_prod_unfold)

text \<open>\<open>g'\<close> is \<open>g\<close> but for what the peer says of itself, with the key it proved.\<close>

definition self_announced :: "u32 \<Rightarrow> 'x route_group \<Rightarrow> 'x route_group \<Rightarrow> bool" where
  "self_announced from g g' \<longleftrightarrow> authenticated_peer_keys g' = authenticated_peer_keys g
   \<and> (\<forall>p. m_get (peer_infos g') p = m_get (peer_infos g) p \<or>
        p = from \<and> (\<exists>i. m_get (peer_infos g') p = Some i \<and> ri_peer_id i = from
          \<and> m_get (authenticated_peer_keys g) from = Some (ri_noise_static_pubkey i)))"

lemma self_announced_refl [simp]: "self_announced from g g"
  by (simp add: self_announced_def)

lemma self_announced_trans:
  "self_announced from g g' \<Longrightarrow> self_announced from g' g'' \<Longrightarrow> self_announced from g g''"
  unfolding self_announced_def by metis

lemma self_announced_same:
  "peer_infos g' = peer_infos g \<Longrightarrow> authenticated_peer_keys g' = authenticated_peer_keys g \<Longrightarrow>
     self_announced from g g'"
  by (simp add: self_announced_def)

lemma sync_info_self: "self_announced from g (snd (sync_info now_ms from info acc g))"
proof (cases rule: sync_info_cases [of now_ms "from" info acc g])
  case (2 h)
  then have "peer_infos h = peer_infos g" "authenticated_peer_keys h = authenticated_peer_keys g"
    by (auto simp: forget_sent_info_def)
  with 2 show ?thesis by (auto simp: self_announced_def store_info_def m_get_put)
qed simp

lemma keeps_self_announced: "keeps (self_announced from g) (sync_infos now_ms from infos acc)"
proof (induction infos arbitrary: acc)
  case (Cons info infos)
  have "keeps (self_announced from g) (sync_info now_ms from info acc)"
    by (rule keepsI) (rule self_announced_trans [OF _ sync_info_self])
  with Cons show ?case by (simp add: keeps_bind)
qed (simp add: pres)

definition self_announced_in ::
  "'x route_lib \<Rightarrow> u32 \<Rightarrow> string \<Rightarrow> 'x route_state \<Rightarrow> 'x route_state \<Rightarrow> bool" where
  "self_announced_in lib from key s s' \<longleftrightarrow>
     self_announced from (group_of lib key s) (group_of lib key s')
   \<and> (\<forall>key'. key' \<noteq> key \<longrightarrow> m_get (rs_groups s') key' = m_get (rs_groups s) key')"

lemma keeps_self_announced_in:
  "keeps (self_announced from (group_of lib key s)) m \<Longrightarrow>
     keeps (self_announced_in lib from key s) (with_group lib key m)"
  by (simp add: keeps_def self_announced_in_def with_group_groups)

lemma keeps_handle_sync_self:
  "keeps (self_announced_in lib from key s) (handle_sync_route_info_request lib now_ms key from bs)"
  unfolding handle_sync_route_info_request_def
  by (intro pres keeps_self_announced_in keeps_self_announced keeps_mod)
     (simp_all add: self_announced_def)

text \<open>C33: Whatever a client puts into a synchronisation request, and whether the request is accepted or
  refused halfway, it changes at most the routing information stored under its own id in its own
  network; and what it stores there is about itself and carries the public key it proved.\<close>

theorem routes_are_self_announced:
  fixes lib :: "'x route_lib"
  shows "info_at (snd (handle_sync_route_info_request lib now_ms key from bs s)) key' p = info_at s key' p
   \<or> (key' = key \<and> p = from \<and>
      (\<exists>i. info_at (snd (handle_sync_route_info_request lib now_ms key from bs s)) key' p = Some i
        \<and> ri_peer_id i = from \<and> key_at s key from = Some (ri_noise_static_pubkey i)))"
proof -
  let ?s = "snd (handle_sync_route_info_request lib now_ms key from bs s)"
  have "self_announced_in lib from key s s" by (simp add: self_announced_in_def)
  then have *: "self_announced_in lib from key s ?s" by (rule keepsD [OF keeps_handle_sync_self])
  show ?thesis
  proof (cases "key' = key")
    case True
    with * show ?thesis
      unfolding group_of_at [where lib = lib] by (auto simp: self_announced_in_def self_announced_def)
  next
    case False
    with * show ?thesis by (simp add: self_announced_in_def info_at_def)
  qed
qed

subsection \<open>Silence after an acknowledged update\<close>

lemma build_conn_info_only_caches:
  "forget_caches (snd (build_conn_info now_ms relevant target list_sync me g)) = forget_caches g"
  by (auto simp: build_conn_info_def op_defs Let_def forget_caches_def split: option.split)

lemma commit_versions_get:
  "distinct (map fst vs) \<Longrightarrow>
    m_get (fold (commit_version now_ms) vs m) p =
      (case map_of vs p of None \<Rightarrow> m_get m p
       | Some v \<Rightarrow> Some \<lparr>sv_version = (case m_get m p of None \<Rightarrow> v | Some saved \<Rightarrow> max (sv_version saved) v),
                         sv_touched_at_ms = now_ms\<rparr>)"
proof (induction vs arbitrary: m)
  case (Cons pv vs)
  then have "map_of vs (fst pv) = None" by (auto simp: map_of_eq_None_iff)
  with Cons show ?case
    by (cases pv) (auto simp: commit_version_def m_get_put split: option.split)
qed simp

lemma map_filter_append_Nil: "List.map_filter f xs = [] \<longleftrightarrow> (\<forall>x \<in> set xs. f x = None)"
  by (induction xs) (auto simp: List.map_filter_def split: option.splits)

lemma info_item_fst: "info_item now_ms full me target g ss p = Some x \<Longrightarrow> fst (snd x) = p"
  by (auto simp: info_item_def Let_def split: if_splits option.splits)

lemma info_items_map_of:
  assumes "distinct ps" and "\<And>p x. f p = Some x \<Longrightarrow> fst (snd x) = p"
  shows "distinct (map fst (map snd (List.map_filter f ps)))"
    and "map_of (map snd (List.map_filter f ps)) p = (if p \<in> set ps then map_option (snd \<circ> snd) (f p) else None)"
  using assms(1)
proof (induction ps)
  case (Cons q ps)
  have sub: "set (map fst (map snd (List.map_filter f ps))) \<subseteq> set ps"
    using assms(2) by (force simp: List.map_filter_def split: option.splits)
  { case 1 with Cons sub assms(2) show ?case by (auto simp: List.map_filter_def split: option.split) }
  { case 2 with Cons assms(2) show ?case by (cases "f q") (auto simp: List.map_filter_def comp_def split: option.split, metis+) }
qed (simp_all add: List.map_filter_def)

text \<open>The versions a first, full update carries.\<close>

definition listed_info :: "u32 \<Rightarrow> u32 \<Rightarrow> 'x route_group \<Rightarrow> u32 \<Rightarrow> 'x route_peer_info option" where
  "listed_info me target g p =
     (if p = target then None else if p = me then Some (my_info g) else m_get (peer_infos g) p)"

definition listed_version :: "u32 \<Rightarrow> u32 \<Rightarrow> 'x route_group \<Rightarrow> u32 \<Rightarrow> u32 option" where
  "listed_version me target g p = map_option (\<lambda>i. max (ri_version i) 1) (listed_info me target g p)"

lemma info_item_listed:
  "info_item now_ms full me target g ss p = (case listed_info me target g p of
     None \<Rightarrow> None
   | Some i \<Rightarrow> if full \<or> known_version now_ms full ss p < max (ri_version i) 1
               then Some (i, p, max (ri_version i) 1) else None)"
  by (simp add: info_item_def listed_info_def Let_def split: option.split)

lemma full_update_versions:
  assumes "rgroup_ok me g" and "target \<in> set (peers g)"
    and "m_get (sessions g) target = Some ss" and "dst_session_id ss = None"
  shows "map_of (ru_peer_info_versions (update_of lib now_ms me target sid init force g conn)) p =
      (if p \<in> insert me (set (peers g)) then listed_version me target g p else None)"
    and "distinct (map fst (ru_peer_info_versions (update_of lib now_ms me target sid init force g conn)))"
proof -
  let ?f = "info_item now_ms True me target g ss"
  have v: "ru_peer_info_versions (update_of lib now_ms me target sid init force g conn) =
      map snd (List.map_filter ?f (insort me (peers g)))"
    using assms members_relevant [OF assms(1,2)] by (simp add: update_of_def Let_def)
  have d: "distinct (insort me (peers g))"
    using assms(1) by (simp add: rgroup_ok_def members_ok_def distinct_insort)
  have l: "map_option (snd \<circ> snd) (?f q) = listed_version me target g q" for q
    by (simp add: info_item_listed listed_version_def split: option.split)
  note items = info_items_map_of [OF d, where f = ?f, OF info_item_fst]
  show "map_of (ru_peer_info_versions (update_of lib now_ms me target sid init force g conn)) p =
      (if p \<in> insert me (set (peers g)) then listed_version me target g p else None)"
    using items(2) by (simp add: v l set_insort_key)
  show "distinct (map fst (ru_peer_info_versions (update_of lib now_ms me target sid init force g conn)))"
    using items(1) by (simp add: v)
qed

lemma full_update_payload:
  assumes "rgroup_ok me g" and "target \<in> set (peers g)"
    and "m_get (sessions g) target = Some ss" and "dst_session_id ss = None"
  defines "infos \<equiv> List.map_filter (listed_info me target g) (insort me (peers g))"
  shows "ru_payload (update_of lib now_ms me target sid init force g conn) = encode_sync_request lib
      \<lparr>sq_my_peer_id = me, sq_my_session_id = sid, sq_is_initiator = init, sq_peer_infos = Some infos,
       sq_conn_info = conn, sq_foreign_network_infos = None\<rparr>"
    and "set infos = {i. \<exists>p \<in> insert me (set (peers g)). listed_info me target g p = Some i}"
    and "distinct (map ri_peer_id infos)"
proof -
  let ?f = "info_item now_ms True me target g ss" and ?ps = "insort me (peers g)"
  have "map fst (List.map_filter ?f ps) = List.map_filter (listed_info me target g) ps" for ps
    by (induction ps) (simp_all add: map_filter_simps info_item_listed split: option.split)
  moreover have "me \<noteq> target" using assms(1,2) by (auto simp: rgroup_ok_def members_ok_def)
  then have "listed_info me target g me = Some (my_info g)" by (simp add: listed_info_def)
  then have "?f me \<noteq> None" by (simp add: info_item_listed)
  then have "List.map_filter ?f ?ps \<noteq> []"
    by (auto simp: List.map_filter_def filter_empty_conv set_insort_key)
  ultimately show "ru_payload (update_of lib now_ms me target sid init force g conn) = encode_sync_request lib
      \<lparr>sq_my_peer_id = me, sq_my_session_id = sid, sq_is_initiator = init, sq_peer_infos = Some infos,
       sq_conn_info = conn, sq_foreign_network_infos = None\<rparr>"
    using assms members_relevant [OF assms(1,2)] by (simp add: update_of_def Let_def)
  show "set infos = {i. \<exists>p \<in> insert me (set (peers g)). listed_info me target g p = Some i}"
    by (force simp: infos_def List.map_filter_def set_insort_key)
  have id: "ri_peer_id i = p" if "listed_info me target g p = Some i" for p i
    using that assms(1) by (auto simp: listed_info_def rgroup_ok_def infos_ok_def split: if_splits)
  have "map ri_peer_id (List.map_filter (listed_info me target g) ps) =
      filter (\<lambda>p. listed_info me target g p \<noteq> None) ps" for ps
    by (induction ps) (auto simp: map_filter_simps id split: option.split)
  moreover have "distinct ?ps" using assms(1) by (simp add: rgroup_ok_def members_ok_def distinct_insort)
  ultimately show "distinct (map ri_peer_id infos)" by (simp add: infos_def)
qed

text \<open>Nothing is sent to a session that holds every version, touched less than a minute ago.\<close>

lemma update_of_nothing:
  assumes "rgroup_ok me g" and "target \<in> set (peers g)"
    and "m_get (sessions g) target = Some ss" and "dst_session_id ss \<noteq> None"
    and held: "\<And>p v. p \<in> insert me (set (peers g)) \<Longrightarrow> listed_version me target g p = Some v \<Longrightarrow>
      m_get (peer_info_ver_map ss) p = Some \<lparr>sv_version = v, sv_touched_at_ms = t\<rparr>"
    and "sat_sub now_ms t < SAVED_ROUTE_VERSION_TTL_MS"
  shows "update_of lib now_ms me target sid init False g None =
    \<lparr>ru_payload = encode_sync_request lib
       \<lparr>sq_my_peer_id = me, sq_my_session_id = sid, sq_is_initiator = init, sq_peer_infos = None,
        sq_conn_info = None, sq_foreign_network_infos = None\<rparr>,
     ru_peer_info_versions = [], ru_topology_version = None\<rparr>"
proof -
  have "info_item now_ms False me target g ss p = None" if "p \<in> insert me (set (peers g))" for p
    using held [OF that] assms(6)
    by (cases "listed_info me target g p") (simp_all add: info_item_listed listed_version_def known_version_def)
  then have "List.map_filter (info_item now_ms False me target g ss) (insort me (peers g)) = []"
    by (simp add: map_filter_append_Nil set_insort_key)
  moreover obtain d where "dst_session_id ss = Some d" using assms(4) by auto
  ultimately show ?thesis using assms(3) members_relevant [OF assms(1,2)] by (simp add: update_of_def Let_def)
qed

definition nothing_new :: "'x route_lib \<Rightarrow> u32 \<Rightarrow> u64 \<Rightarrow> bool \<Rightarrow> route_update" where
  "nothing_new lib me sid init =
    \<lparr>ru_payload = encode_sync_request lib
       \<lparr>sq_my_peer_id = me, sq_my_session_id = sid, sq_is_initiator = init, sq_peer_infos = None,
        sq_conn_info = None, sq_foreign_network_infos = None\<rparr>,
     ru_peer_info_versions = [], ru_topology_version = None\<rparr>"

lemma forget_caches_eq:
  assumes "forget_caches g = forget_caches h"
  shows "peers g = peers h \<and> peer_infos g = peer_infos h \<and> my_info g = my_info h
    \<and> sessions g = sessions h \<and> topology_version g = topology_version h"
  using arg_cong [OF assms, of peers] arg_cong [OF assms, of peer_infos] arg_cong [OF assms, of my_info]
    arg_cong [OF assms, of sessions] arg_cong [OF assms, of topology_version]
  by simp

lemma after_commit_nothing:
  assumes ok: "rgroup_ok me g" and member: "target \<in> set (peers g)" "length (peers g) < 8192"
    and ss: "m_get (sessions g) target = Some (commit_session t2 vs (Some (topology_version g))
      (ack_session t1 their b (touch sid t0 session_default)))"
    and vs: "distinct (map fst vs)" "\<And>p. map_of vs p =
      (if p \<in> insert me (set (peers g)) then listed_version me target g p else None)"
    and soon: "sat_sub t3 t2 < SAVED_ROUTE_VERSION_TTL_MS"
  shows "fst (build_in_group lib t3 me target sid init False g) = Inr (nothing_new lib me sid init)"
proof -
  let ?g = "with_session target (touch sid t3) g"
  define s5 where "s5 = touch sid t3 (commit_session t2 vs (Some (topology_version g))
      (ack_session t1 their b (touch sid t0 session_default)))"
  have g: "rgroup_ok me ?g" "target \<in> set (peers ?g)" using ok member by simp_all
  have s5: "m_get (sessions ?g) target = Some s5" by (simp add: with_session_get ss s5_def)
  have dst: "dst_session_id s5 \<noteq> None"
    by (simp add: s5_def touch_def commit_session_def ack_session_def Let_def)
  have top: "topology_known t3 (topology_version ?g) (Some s5)"
    using soon by (simp add: topology_known_def s5_def touch_def commit_session_def ack_session_def Let_def
        session_default_def reset_sent_def)
  have map: "peer_info_ver_map s5 = fold (commit_version t2) vs []"
    by (simp add: s5_def touch_def commit_session_def ack_session_def Let_def session_default_def reset_sent_def)
  have "listed_version me target ?g p = listed_version me target g p" for p
    by (simp add: listed_version_def listed_info_def)
  then have held: "m_get (peer_info_ver_map s5) p = Some \<lparr>sv_version = v, sv_touched_at_ms = t2\<rparr>"
    if "p \<in> insert me (set (peers ?g))" "listed_version me target ?g p = Some v" for p v
    using that vs(2) [of p] by (simp add: map commit_versions_get [OF vs(1)])
  show ?thesis
    using update_of_nothing [OF g s5 dst held soon] top
    by (simp add: build_in_group_member [OF ok member refl] s5 nothing_new_def)
qed

text \<open>C36: The first update for a client is complete, and once it is acknowledged nothing is repeated.  The
  request it is sent lists, once each, the information of the server and of every member of the network
  that has announced itself, but for the client, and the whole topology; it is remembered under the
  versions of exactly these.  When the client has acknowledged it, the next update within a minute, with
  no change in between, carries no information and no topology.\<close>

theorem acknowledged_update_is_not_repeated:
  assumes "route_reachable lib me s" and "g = group_of lib key s"
    and "target \<in> set (peers g)" and "length (peers g) < 8192" and "m_get (sessions g) target = None"
    and "sat_sub t3 t2 < 60000"
  shows "\<exists>u infos. fst (build_sync_route_info_request lib t0 key target sid init force s) = Inr u
    \<and> ru_payload u = encode_sync_request lib
        \<lparr>sq_my_peer_id = me, sq_my_session_id = sid, sq_is_initiator = init, sq_peer_infos = Some infos,
         sq_conn_info = Some (fresh_conn_info (list_sync_flag (m_get (peer_infos g) target)) me g),
         sq_foreign_network_infos = None\<rparr>
    \<and> set infos = {i. \<exists>p \<in> insert me (set (peers g)). listed_info me target g p = Some i}
    \<and> distinct (map ri_peer_id infos)
    \<and> (\<forall>p. map_of (ru_peer_info_versions u) p =
        (if p \<in> insert me (set (peers g)) then listed_version me target g p else None))
    \<and> fst (build_sync_route_info_request lib t3 key target sid init' False
        (snd (commit_route_update lib t2 key target (ru_peer_info_versions u) (ru_topology_version u)
        (snd (on_route_session_ack lib t1 key target their b
        (snd (build_sync_route_info_request lib t0 key target sid init force s)))))))
      = Inr (nothing_new lib me sid init')"
proof -
  let ?t = "\<lambda>s. s\<lparr>my_session_id := Some sid, last_touch_ms := t0\<rparr>"
  let ?g1 = "with_session target (touch sid t0) g"
  have me: "rs_my_peer_id s = me" and ok: "rgroup_ok me g"
    using route_reachable_ok [OF assms(1)] ensure_group_ok [of me s lib key g "snd (ensure_group lib key s)"]
    by (auto simp: route_ok_def group_of_def assms(2))
  then have ok1: "rgroup_ok me ?g1" by simp
  define u where "u = update_of lib t0 me target sid init force ?g1
    (Some (fresh_conn_info (list_sync_flag (m_get (peer_infos g) target)) me ?g1))"
  have s1: "m_get (sessions ?g1) target = Some (touch sid t0 session_default)"
    by (simp add: with_session_get assms(5))
  have "topology_version g \<noteq> 0" using ok by (simp add: rgroup_ok_def caches_ok_def)
  then have fresh: "\<not> topology_known t0 (topology_version ?g1) (m_get (sessions ?g1) target)"
    by (simp add: s1) (simp add: topology_known_def touch_def session_default_def)
  have first: "fst (build_in_group lib t0 me target sid init force g) = Inr u"
    unfolding u_def using build_in_group_member [OF ok assms(3,4) refl] fresh by simp
  have vs: "map_of (ru_peer_info_versions u) p =
        (if p \<in> insert me (set (peers g)) then listed_version me target g p else None)" for p
    unfolding u_def using full_update_versions(1) [OF ok1 _ s1] assms(3)
    by (simp add: touch_def session_default_def listed_version_def listed_info_def)
  have same: "listed_info me target ?g1 = listed_info me target g" "peers ?g1 = peers g"
    "fresh_conn_info b me ?g1 = fresh_conn_info b me g" for b
    by (simp_all add: listed_info_def fun_eq_iff fresh_conn_info_def conn_versions_def)
  have member: "target \<in> set (peers ?g1)" "dst_session_id (touch sid t0 session_default) = None"
    using assms(3) by (simp_all add: touch_def session_default_def)
  define infos where "infos = List.map_filter (listed_info me target g) (insort me (peers g))"
  note payload = full_update_payload [OF ok1 member(1) s1 member(2), unfolded same, folded infos_def]
  have request: "ru_payload u = encode_sync_request lib
      \<lparr>sq_my_peer_id = me, sq_my_session_id = sid, sq_is_initiator = init, sq_peer_infos = Some infos,
       sq_conn_info = Some (fresh_conn_info (list_sync_flag (m_get (peer_infos g) target)) me g),
       sq_foreign_network_infos = None\<rparr>"
    unfolding u_def same by (rule payload(1))
  have d: "distinct (map fst (ru_peer_info_versions u))"
    unfolding u_def using full_update_versions(2) [OF ok1 _ s1] assms(3)
    by (simp add: touch_def session_default_def)
  define g2 where "g2 = snd (build_in_group lib t0 me target sid init force g)"
  have "forget_caches g2 = forget_caches ?g1" and ok2: "rgroup_ok me g2"
    using build_conn_info_only_caches keeps_build_conn_info [OF ok1] members_relevant [OF ok assms(3)]
    by (simp_all add: g2_def build_in_group_state touch_def [abs_def])
  then have g2: "peers g2 = peers g" "peer_infos g2 = peer_infos g" "my_info g2 = my_info g"
    "sessions g2 = sessions ?g1" "topology_version g2 = topology_version g"
    using forget_caches_eq [of g2 ?g1] by simp_all
  define g4 where "g4 = with_session target (commit_session t2 (ru_peer_info_versions u) (ru_topology_version u))
    (with_session target (ack_session t1 their b) g2)"
  have "ru_topology_version u = Some (topology_version g)" by (simp add: u_def update_of_def Let_def)
  then have "fst (build_in_group lib t3 me target sid init' False g4) = Inr (nothing_new lib me sid init')"
    using ok2 assms(3-6) d vs
    by (intro after_commit_nothing [where vs = "ru_peer_info_versions u" and ?t1.0 = t1 and ?t2.0 = t2
          and their = their and b = b and ?t0.0 = t0])
       (simp_all add: g4_def g2 with_session_get s1 SAVED_ROUTE_VERSION_TTL_MS_def listed_version_def listed_info_def)
  moreover have "rs_my_peer_id (snd (build_sync_route_info_request lib t0 key target sid init force s)) = me"
    "group_of lib key (snd (build_sync_route_info_request lib t0 key target sid init force s)) = g2"
    by (simp_all add: build_sync_route_info_request_def op_defs me g2_def assms(2))
  ultimately show ?thesis
    using first vs request payload(2,3)
    by (intro exI [of _ u] exI [of _ infos])
       (simp add: build_request_group me assms(2) [symmetric] commit_route_update_def on_route_session_ack_def
        mmod_def g4_def)
qed

subsection \<open>A concrete network\<close>

text \<open>A request is the peer's id: it announces itself with the all-zero key.\<close>

definition toy_info :: "u32 \<Rightarrow> unit route_peer_info" where
  "toy_info p = \<lparr>ri_peer_id = p, ri_inst_id = None, ri_cost = 0, ri_ipv4_addr = None, ri_hostname = None,
     ri_last_update = None, ri_version = 3, ri_easytier_version = [], ri_feature_flag = Some server_flags,
     ri_peer_route_id = 0, ri_network_length = 24, ri_noise_static_pubkey = replicate 32 0, ri_rest = ()\<rparr>"

definition toy_route_lib :: "unit route_lib" where
  "toy_route_lib = \<lparr>
     decode_sync_request = (\<lambda>bs. case bs of [p] \<Rightarrow>
         Inr \<lparr>sq_my_peer_id = ucast p, sq_my_session_id = 5, sq_is_initiator = True,
              sq_peer_infos = Some [toy_info (ucast p)], sq_conn_info = None, sq_foreign_network_infos = None\<rparr>
       | _ \<Rightarrow> Inl (Err ''bad'')),
     encode_sync_request = (\<lambda>req. [ucast (sq_my_peer_id req)]),
     encode_sync_response = (\<lambda>_. []),
     default_rest = (), math_random = (\<lambda>k. of_nat k)\<rparr>"

definition toy_routes :: "unit route_state" where
  "toy_routes = snd (handle_sync_route_info_request toy_route_lib 9000 ''a'' 2 [2]
     (snd (route_add_peer toy_route_lib ''a'' 2 (replicate 32 0)
     (snd (route_add_peer toy_route_lib ''a'' 1 (replicate 32 7) (route_new 100))))))"

lemma toy_routes_reachable: "route_reachable toy_route_lib 100 toy_routes"
  unfolding toy_routes_def by (intro route_received route_added route_start) simp_all

lemma toy_not_le [simp]: "\<not> 2 \<le> (1 :: u32)" "\<not> 3 \<le> (1 :: u32)" "\<not> 2 \<le> (1 :: u64)"
  by (simp_all add: word_le_nat_alt)

lemma toy_routes_group:
  "m_get (rs_groups toy_routes) ''a'' = Some (group_of toy_route_lib ''a'' toy_routes)
   \<and> peers (group_of toy_route_lib ''a'' toy_routes) = [1, 2]
   \<and> m_get (sessions (group_of toy_route_lib ''a'' toy_routes)) 1 = None
   \<and> m_get (peer_infos (group_of toy_route_lib ''a'' toy_routes)) 2 =
       Some ((toy_info 2)\<lparr>ri_last_update := Some (9, 0)\<rparr>)"
  by (simp add: toy_routes_def group_of_def route_add_peer_def handle_sync_route_info_request_def op_defs
      with_group_def ensure_group_def Let_def toy_route_lib_def route_new_def initial_group_def bs_insert_def
      bump_all_conn_versions_def bump_version_def version_or_1_def with_session_def ack_session_def reset_sent_def
      session_default_def sync_info_def store_info_def toy_info_def)

theorem routes_are_authenticated_witness:
  "list_all (\<lambda>(p, i). ri_peer_id i = p) (peer_infos (group_of toy_route_lib ''a'' toy_routes))
   \<and> m_get (authenticated_peer_keys (group_of toy_route_lib ''a'' toy_routes)) 2 = Some (replicate 32 0)"
  using routes_are_authenticated [OF toy_routes_reachable conjunct1 [OF toy_routes_group]]
    map_of_SomeD [OF conjunct2 [OF conjunct2 [OF conjunct2 [OF toy_routes_group]]]]
  by (auto simp: list_all_iff toy_info_def)

theorem route_caches_are_transparent_witness:
  "fst (build_sync_route_info_request toy_route_lib 9500 ''a'' 1 77 False False toy_routes) =
    fst (build_sync_route_info_request toy_route_lib 9500 ''a'' 1 77 False False
      (toy_routes\<lparr>rs_groups := m_map forget_caches (rs_groups toy_routes)\<rparr>))"
  by (rule route_caches_are_transparent [OF toy_routes_reachable]) (simp_all add: toy_routes_group)

theorem acknowledged_update_is_not_repeated_witness:
  "\<exists>u. fst (build_sync_route_info_request toy_route_lib 9500 ''a'' 1 77 False False toy_routes) = Inr u
    \<and> (\<exists>infos conn. ru_payload u = encode_sync_request toy_route_lib
        \<lparr>sq_my_peer_id = 100, sq_my_session_id = 77, sq_is_initiator = False, sq_peer_infos = Some infos,
         sq_conn_info = Some conn, sq_foreign_network_infos = None\<rparr>
        \<and> (toy_info 2)\<lparr>ri_last_update := Some (9, 0)\<rparr> \<in> set infos)
    \<and> map_of (ru_peer_info_versions u) 2 = Some 3
    \<and> fst (build_sync_route_info_request toy_route_lib 9800 ''a'' 1 77 False False
        (snd (commit_route_update toy_route_lib 9700 ''a'' 1 (ru_peer_info_versions u) (ru_topology_version u)
        (snd (on_route_session_ack toy_route_lib 9600 ''a'' 1 4 True
        (snd (build_sync_route_info_request toy_route_lib 9500 ''a'' 1 77 False False toy_routes)))))))
      = Inr (nothing_new toy_route_lib 100 77 False)"
proof -
  have "listed_version 100 1 (group_of toy_route_lib ''a'' toy_routes) 2 = Some 3"
    by (simp add: listed_version_def listed_info_def toy_routes_group toy_info_def max_def)
  moreover have "listed_info 100 1 (group_of toy_route_lib ''a'' toy_routes) 2 =
      Some ((toy_info 2)\<lparr>ri_last_update := Some (9, 0)\<rparr>)"
    by (simp add: listed_info_def toy_routes_group)
  moreover have "sat_sub 9800 9700 < (60000 :: u64)" by (simp add: sat_sub_def)
  moreover have "1 \<in> set (peers (group_of toy_route_lib ''a'' toy_routes))"
    "length (peers (group_of toy_route_lib ''a'' toy_routes)) < 8192" "2 \<in> set (peers (group_of toy_route_lib ''a'' toy_routes))"
    "m_get (sessions (group_of toy_route_lib ''a'' toy_routes)) 1 = None"
    by (simp_all add: toy_routes_group)
  ultimately show ?thesis
    using acknowledged_update_is_not_repeated [OF toy_routes_reachable refl, of 1 "''a''" 9800 9700 9500 77 False False
        False 9600 4 True]
    by (elim impE exE conjE meta_impE; (intro exI conjI)?; assumption?) (auto dest: spec [of _ 2])
qed

end
