(* ===== verification/Rpc_Core.thy ===== *)
theory Rpc_Core
  imports Peer_Center Route_State
begin

text \<open>
  \<open>cloudflare/wasm/src/rpc.rs\<close>: the RPC layer between the clients and the two services of the server,
  route synchronisation and the peer center.  Requests and responses may arrive in pieces; what is
  pending is bounded in transactions, pieces and bytes and expires.

  The messages are those of \<open>protos/common.proto\<close> and \<open>protos/error.proto\<close>; their codecs are fields of
  the parameter, and so is the random generator, where \<open>random_i64 lib k\<close> is what
  \<open>i64::from_le_bytes\<close> makes of the \<open>k\<close>-th request for eight bytes.

  The counters of pieces and bytes are \<open>usize\<close>, 32 bits wide; they are natural numbers here, with the
  saturation written out (\<open>received_pieces\<close> counts at most 32768 slots).
\<close>

subsection \<open>Messages\<close>

record rpc_descriptor =
  domain_name :: string
  proto_name :: string
  service_name :: string
  method_index :: u32

record compression_info =
  algo :: "32 word"
  accepted_algo :: "32 word"

record rpc_packet =
  rp_from_peer :: u32
  rp_to_peer :: u32
  rp_transaction_id :: "64 word"
  rp_descriptor :: "rpc_descriptor option"
  rp_body :: bytes
  rp_is_request :: bool
  rp_total_pieces :: u32
  rp_piece_idx :: u32
  rp_trace_id :: "32 word"
  rp_compression_info :: "compression_info option"

record rpc_request =
  rq_descriptor :: "rpc_descriptor option"
  rq_request :: bytes
  rq_timeout_ms :: "32 word"

datatype error_kind =
  InvalidMethodIndex (ek_service_name: string) (ek_method_index: u32)
| InvalidService (ek_service_name: string)
| OtherErrorKind

record rpc_response =
  rr_response :: bytes
  rr_error :: "error_kind option option"
  rr_runtime_us :: u64

record ('x, 'y) rpc_lib =
  route_codecs :: "'x route_lib"
  center_codecs :: "'y peer_center_lib"
  decode_rpc_packet :: "bytes \<Rightarrow> error + rpc_packet"
  encode_rpc_packet :: "rpc_packet \<Rightarrow> bytes"
  decode_rpc_request :: "bytes \<Rightarrow> error + rpc_request"
  encode_rpc_request :: "rpc_request \<Rightarrow> bytes"
  decode_rpc_response :: "bytes \<Rightarrow> error + rpc_response"
  encode_rpc_response :: "rpc_response \<Rightarrow> bytes"
  decode_sync_response :: "bytes \<Rightarrow> error + sync_response"
  random_i64 :: "nat \<Rightarrow> error + 64 word"

definition MAX_RPC_PIECES :: u32 where "MAX_RPC_PIECES = 32768"
definition MAX_PENDING_TRANSACTIONS_PER_PEER :: nat where "MAX_PENDING_TRANSACTIONS_PER_PEER = 64"
definition MAX_PENDING_BYTES :: nat where "MAX_PENDING_BYTES = 32 * 1024 * 1024"
definition MAX_PENDING_PIECES :: nat where "MAX_PENDING_PIECES = 32768"
definition RPC_FRAGMENT_TTL_MS :: u64 where "RPC_FRAGMENT_TTL_MS = 10000"
definition ROUTE_RPC_TIMEOUT_MS :: u64 where "ROUTE_RPC_TIMEOUT_MS = 3000"
definition PEER_CENTER_TTL_SECONDS :: u64 where "PEER_CENTER_TTL_SECONDS = 180"
definition RESULT_HANDLED :: u8 where "RESULT_HANDLED = 1"
definition RESULT_ROUTE :: u8 where "RESULT_ROUTE = 2"
definition RESULT_ROUTE_SESSION :: u8 where "RESULT_ROUTE_SESSION = 3"

subsection \<open>State\<close>

record rpc_key =
  rk_network :: string
  rk_peer_id :: u32
  rk_transaction_id :: "64 word"
  rk_is_request :: bool

record pending_rpc =
  pd_total_pieces :: u32
  pd_pieces :: "bytes option list"
  pd_first :: "rpc_packet option"
  pd_received_pieces :: nat
  pd_body_bytes :: nat
  pd_updated_at_ms :: u64

record outstanding_route =
  deadline_ms :: u64
  or_peer_info_versions :: "(u32 \<times> u32) list"
  or_topology_version :: "u64 option"

record ('x, 'y) rpc_core =
  core_routes :: "'x route_state"
  core_center :: "'y peer_center"
  configured_groups :: "string list"
  peer_initiator :: "(string \<times> u32, bool) jsmap"
  pending :: "(rpc_key, pending_rpc) jsmap"
  pending_bytes :: nat
  pending_pieces :: nat
  outstanding_routes :: "(rpc_key, outstanding_route) jsmap"
  core_public_key :: bytes
  core_hostname :: string
  core_server_peer_id :: u32
  core_draws :: nat

text \<open>\<open>None\<close> is \<open>MergedPacket::Pending\<close>, \<open>Some p\<close> is \<open>MergedPacket::Complete(p)\<close>.\<close>

type_synonym merged_packet = "rpc_packet option"

definition usize_add :: "nat \<Rightarrow> nat \<Rightarrow> nat" where
  "usize_add a b = min (a + b) (2 ^ 32 - 1)"

definition on_routes :: "('x route_state, 'a) op \<Rightarrow> (('x, 'y) rpc_core, 'a) op" where
  "on_routes m = (\<lambda>c. case m (core_routes c) of (r, s) \<Rightarrow> (r, c\<lparr>core_routes := s\<rparr>))"

definition on_center :: "('y peer_center, 'a) op \<Rightarrow> (('x, 'y) rpc_core, 'a) op" where
  "on_center m = (\<lambda>c. case m (core_center c) of (r, s) \<Rightarrow> (r, c\<lparr>core_center := s\<rparr>))"

definition rpc_key_for :: "string \<Rightarrow> u32 \<Rightarrow> 64 word \<Rightarrow> bool \<Rightarrow> rpc_key" where
  "rpc_key_for network pid tid is_req =
     \<lparr>rk_network = network, rk_peer_id = pid, rk_transaction_id = tid, rk_is_request = is_req\<rparr>"

definition no_compression :: compression_info where
  "no_compression = \<lparr>algo = 1, accepted_algo = 1\<rparr>"

definition invalid_method_error :: "rpc_descriptor \<Rightarrow> error_kind option" where
  "invalid_method_error d = Some (InvalidMethodIndex (service_name d) (method_index d))"

definition is_service :: "rpc_descriptor \<Rightarrow> string \<Rightarrow> bool" where
  "is_service d expected \<longleftrightarrow> service_name d = expected
     \<and> (proto_name d = ''peer_rpc.'' @ expected \<or> proto_name d = ''peer_rpc'' \<or> proto_name d = expected)"

definition core_new :: "bytes \<Rightarrow> string \<Rightarrow> u32 \<Rightarrow> error + ('x, 'y) rpc_core" where
  "core_new public_key hostname server_id =
     (if length public_key \<noteq> 32 then Inl (Err ''Noise public key must be 32 bytes'')
      else if server_id = 0 then Inl (Err ''server peer id must not be zero'')
      else Inr \<lparr>core_routes = route_new server_id, core_center = [], configured_groups = [],
                peer_initiator = [], pending = [], pending_bytes = 0, pending_pieces = 0,
                outstanding_routes = [], core_public_key = public_key, core_hostname = hostname,
                core_server_peer_id = server_id, core_draws = 0\<rparr>)"

subsection \<open>Pending pieces\<close>

definition remove_pending :: "rpc_key \<Rightarrow> ('x, 'y) rpc_core \<Rightarrow> ('x, 'y) rpc_core" where
  "remove_pending key c = (case m_get (pending c) key of
     None \<Rightarrow> c
   | Some p \<Rightarrow> c\<lparr>pending := m_del key (pending c),
                 pending_bytes := pending_bytes c - pd_body_bytes p,
                 pending_pieces := pending_pieces c - unat (pd_total_pieces p)\<rparr>)"

definition pending_expired :: "u64 \<Rightarrow> pending_rpc \<Rightarrow> bool" where
  "pending_expired now_ms p \<longleftrightarrow> RPC_FRAGMENT_TTL_MS \<le> sat_sub now_ms (pd_updated_at_ms p)"

definition clean_pending :: "u64 \<Rightarrow> ('x, 'y) rpc_core \<Rightarrow> ('x, 'y) rpc_core" where
  "clean_pending now_ms c =
     fold remove_pending (map fst (filter (\<lambda>(_, p). pending_expired now_ms p) (pending c))) c"

definition clean_rpc_state :: "u64 \<Rightarrow> ('x, 'y) rpc_core \<Rightarrow> ('x, 'y) rpc_core" where
  "clean_rpc_state now_ms c =
     (let c = clean_pending now_ms c
      in c\<lparr>outstanding_routes := m_retain (\<lambda>_ r. now_ms \<le> deadline_ms r) (outstanding_routes c)\<rparr>)"

definition core_clean_expired :: "('x, 'y) rpc_lib \<Rightarrow> u64 \<Rightarrow> ('x, 'y) rpc_core \<Rightarrow> ('x, 'y) rpc_core" where
  "core_clean_expired lib now_ms c =
     (let c = clean_rpc_state now_ms c
      in c\<lparr>core_center := clean_outdated (center_codecs lib) now_ms (PEER_CENTER_TTL_SECONDS * 1000) (core_center c)\<rparr>)"

definition new_pending :: "u64 \<Rightarrow> u32 \<Rightarrow> pending_rpc" where
  "new_pending now_ms total_pieces =
     \<lparr>pd_total_pieces = total_pieces, pd_pieces = replicate (unat total_pieces) None, pd_first = None,
      pd_received_pieces = 0, pd_body_bytes = 0, pd_updated_at_ms = now_ms\<rparr>"

text \<open>The piece of the packet is stored; \<open>previous\<close> is the length of the one it replaces.\<close>

definition store_piece :: "u64 \<Rightarrow> rpc_packet \<Rightarrow> nat \<Rightarrow> pending_rpc \<Rightarrow> pending_rpc" where
  "store_piece now_ms packet previous p =
     (let i = unat (rp_piece_idx packet);
          p = (if pd_pieces p ! i = None then p\<lparr>pd_received_pieces := pd_received_pieces p + 1\<rparr> else p);
          p = p\<lparr>pd_body_bytes := usize_add (pd_body_bytes p - previous) (length (rp_body packet)),
                pd_pieces := (pd_pieces p)[i := Some (rp_body packet)],
                pd_updated_at_ms := now_ms\<rparr>
      in if i = 0 then p\<lparr>pd_first := Some packet\<rparr> else p)"

text \<open>The transaction is opened if it is new.\<close>

definition open_pending :: "u64 \<Rightarrow> rpc_key \<Rightarrow> u32 \<Rightarrow> (('x, 'y) rpc_core, unit) op" where
  "open_pending now_ms key total_pieces =
     mbind (mget (\<lambda>c. m_get (pending c) key)) (\<lambda>present.
     if present \<noteq> None then mret ()
     else
       mbind (mget (\<lambda>c. (length (filter (\<lambda>k. rk_network k = rk_network key \<and> rk_peer_id k = rk_peer_id key)
                                   (m_keys (pending c))), pending_pieces c))) (\<lambda>(peer_pending, pieces).
       if MAX_PENDING_TRANSACTIONS_PER_PEER \<le> peer_pending
       then mraise (Err ''too many pending fragmented RPC transactions'')
       else if MAX_PENDING_PIECES < usize_add pieces (unat total_pieces)
       then mraise (Err ''pending fragmented RPC piece limit exceeded'')
       else mmod (\<lambda>c. c\<lparr>pending := m_put key (new_pending now_ms total_pieces) (pending c),
                        pending_pieces := pending_pieces c + unat total_pieces\<rparr>)))"

text \<open>The last step, once all pieces are there.\<close>

definition finish_pending :: "rpc_key \<Rightarrow> (('x, 'y) rpc_core, merged_packet) op" where
  "finish_pending key =
     mbind (mtry (\<lambda>c. ok_or (Err ''completed RPC state disappeared during merge'') (m_get (pending c) key))) (\<lambda>completed.
     mbind (mmod (\<lambda>c. c\<lparr>pending := m_del key (pending c),
                        pending_bytes := pending_bytes c - pd_body_bytes completed,
                        pending_pieces := pending_pieces c - unat (pd_total_pieces completed)\<rparr>)) (\<lambda>_.
     mbind (mlift (ok_or (Err ''fragmented RPC first piece was not received'') (pd_first completed))) (\<lambda>first.
     if None \<in> set (pd_pieces completed)
     then mraise (Err ''fragmented RPC contains a missing piece'')
     else mret (Some (first\<lparr>rp_body := concat (map the (pd_pieces completed)),
                            rp_total_pieces := 1, rp_piece_idx := 0\<rparr>)))))"

text \<open>The piece is added to its transaction, which is open.\<close>

definition add_piece :: "u64 \<Rightarrow> rpc_key \<Rightarrow> rpc_packet \<Rightarrow> (('x, 'y) rpc_core, merged_packet) op" where
  "add_piece now_ms key packet =
     mbind (mget (\<lambda>c. the (m_get (pending c) key))) (\<lambda>p.
     mbind (mget pending_bytes) (\<lambda>bytes_now.
     let previous = (case pd_pieces p ! unat (rp_piece_idx packet) of None \<Rightarrow> 0 | Some b \<Rightarrow> length b);
         next_total = usize_add (bytes_now - previous) (length (rp_body packet))
     in
     if MAX_PENDING_BYTES < next_total
     then mbind (mmod (remove_pending key)) (\<lambda>_.
          mraise (Err ''pending fragmented RPC byte limit exceeded''))
     else
       let p = store_piece now_ms packet previous p
       in
       mbind (mmod (\<lambda>c. c\<lparr>pending := m_put key p (pending c), pending_bytes := next_total\<rparr>)) (\<lambda>_.
       if pd_received_pieces p \<noteq> unat (rp_total_pieces packet) then mret None
       else finish_pending key)))"

definition merge_packet ::
  "string \<Rightarrow> u32 \<Rightarrow> rpc_packet \<Rightarrow> u64 \<Rightarrow> (('x, 'y) rpc_core, merged_packet) op" where
  "merge_packet network pid packet now_ms =
     (let total_pieces = rp_total_pieces packet
      in
      if total_pieces = 0 \<and> rp_piece_idx packet = 0 then mret (Some packet)
      else if total_pieces = 0 \<or> MAX_RPC_PIECES < total_pieces \<or> total_pieces \<le> rp_piece_idx packet
      then mraise (Err ''invalid fragmented RPC envelope'')
      else if total_pieces = 1 then mret (Some packet)
      else if rp_piece_idx packet = 0 \<and> rp_descriptor packet = None
      then mraise (Err ''fragmented RPC first piece is missing its descriptor'')
      else
        mbind (mmod (clean_pending now_ms)) (\<lambda>_.
        let key = rpc_key_for network pid (rp_transaction_id packet) (rp_is_request packet)
        in
        mbind (mget (\<lambda>c. m_get (pending c) key)) (\<lambda>present.
        if (case present of Some p \<Rightarrow> pd_total_pieces p \<noteq> total_pieces | None \<Rightarrow> False)
        then mbind (mmod (remove_pending key)) (\<lambda>_.
             mraise (Err ''fragmented RPC changed its declared piece count''))
        else
          mbind (open_pending now_ms key total_pieces) (\<lambda>_.
          add_piece now_ms key packet))))"

subsection \<open>Envelopes\<close>

definition validate_envelope :: "rpc_packet \<Rightarrow> string \<Rightarrow> u32 \<Rightarrow> bool \<Rightarrow> ('x, 'y) rpc_core \<Rightarrow> error + unit" where
  "validate_envelope packet network pid is_req c =
     (if rp_from_peer packet \<noteq> pid \<or> rp_to_peer packet \<noteq> core_server_peer_id c
      then Inl (Err ''RPC protobuf envelope does not match its EasyTier header'')
      else if rp_is_request packet \<noteq> is_req
      then Inl (Err ''unexpected RPC request/response direction'')
      else if (case rp_descriptor packet of None \<Rightarrow> False | Some d \<Rightarrow> domain_name d \<noteq> network)
      then Inl (Err ''cross-network RPC domain rejected'')
      else Inr ())"

definition validate_compression :: "rpc_packet \<Rightarrow> error + unit" where
  "validate_compression packet =
     (if (case rp_compression_info packet of None \<Rightarrow> False | Some i \<Rightarrow> 1 < sint (algo i))
      then Inl (Err ''compressed RPC is not negotiated by this relay'') else Inr ())"

fun next_transaction_id_loop ::
  "('x, 'y) rpc_lib \<Rightarrow> string \<Rightarrow> u32 \<Rightarrow> nat \<Rightarrow> (('x, 'y) rpc_core, 64 word) op" where
  "next_transaction_id_loop lib network pid 0 =
     mraise (Err ''failed to allocate a unique RPC transaction id'')"
| "next_transaction_id_loop lib network pid (Suc n) =
     mbind (mrun (\<lambda>c. (random_i64 lib (core_draws c), c\<lparr>core_draws := Suc (core_draws c)\<rparr>))) (\<lambda>r.
     mbind (mlift r) (\<lambda>raw.
     let tid = raw AND mask 63
     in
     mbind (mget (\<lambda>c. m_get (outstanding_routes c) (rpc_key_for network pid tid False))) (\<lambda>taken.
     if tid \<noteq> 0 \<and> taken = None then mret tid else next_transaction_id_loop lib network pid n)))"

definition next_transaction_id ::
  "('x, 'y) rpc_lib \<Rightarrow> string \<Rightarrow> u32 \<Rightarrow> (('x, 'y) rpc_core, 64 word) op" where
  "next_transaction_id lib network pid = next_transaction_id_loop lib network pid 16"

subsection \<open>Operations\<close>

definition core_add_peer :: "('x, 'y) rpc_lib \<Rightarrow> string \<Rightarrow> u32 \<Rightarrow> bytes \<Rightarrow> (('x, 'y) rpc_core, unit) op" where
  "core_add_peer lib network pid remote_public_key =
     mbind (on_routes (route_add_peer (route_codecs lib) network pid remote_public_key)) (\<lambda>_.
     mbind (mget (\<lambda>c. network \<notin> set (configured_groups c))) (\<lambda>inserted.
     mbind (if inserted then
         mbind (mmod (\<lambda>c. c\<lparr>configured_groups := configured_groups c @ [network]\<rparr>)) (\<lambda>_.
         mbind (mget core_hostname) (\<lambda>hostname.
         mbind (on_routes (set_my_info_field (route_codecs lib) network ''hostname'' hostname)) (\<lambda>_.
         mbind (mget core_public_key) (\<lambda>public_key.
         on_routes (set_my_noise_public_key (route_codecs lib) network public_key)))))
       else mret ()) (\<lambda>_.
     mmod (\<lambda>c. c\<lparr>peer_initiator := m_put (network, pid) False (peer_initiator c)\<rparr>))))"

definition core_remove_peer :: "('x, 'y) rpc_lib \<Rightarrow> string \<Rightarrow> u32 \<Rightarrow> ('x, 'y) rpc_core \<Rightarrow> ('x, 'y) rpc_core" where
  "core_remove_peer lib network pid c =
     (let c = c\<lparr>core_routes := route_remove_peer (route_codecs lib) network pid (core_routes c),
               core_center := pc_remove_peer (center_codecs lib) network pid (core_center c),
               peer_initiator := m_del (network, pid) (peer_initiator c)\<rparr>;
          pending_keys = filter (\<lambda>k. rk_network k = network \<and> rk_peer_id k = pid) (m_keys (pending c));
          c = fold remove_pending pending_keys c
      in c\<lparr>outstanding_routes := m_retain (\<lambda>k _. rk_network k \<noteq> network \<or> rk_peer_id k \<noteq> pid)
                                   (outstanding_routes c)\<rparr>)"

text \<open>The service call of a complete request: the body, the error and the result code.\<close>

definition call_service ::
  "('x, 'y) rpc_lib \<Rightarrow> u64 \<Rightarrow> string \<Rightarrow> u32 \<Rightarrow> rpc_descriptor \<Rightarrow> bytes \<Rightarrow>
     (('x, 'y) rpc_core, bytes \<times> error_kind option option \<times> u8) op" where
  "call_service lib now_ms network pid d req =
     (if is_service d ''OspfRouteRpc'' then
        (if method_index d \<noteq> 1 then mret ([], Some (invalid_method_error d), RESULT_HANDLED)
         else
           mbind (mlift (decode_sync_request (route_codecs lib) req)) (\<lambda>sync.
           mbind (mmod (\<lambda>c. c\<lparr>peer_initiator := m_put (network, pid) (\<not> sq_is_initiator sync) (peer_initiator c)\<rparr>)) (\<lambda>_.
           mbind (on_routes (handle_sync_route_info_request (route_codecs lib) now_ms network pid req)) (\<lambda>outcome.
           mret (response outcome, None,
                 if route_changed outcome then RESULT_ROUTE
                 else if session_changed outcome then RESULT_ROUTE_SESSION else RESULT_HANDLED)))))
      else if is_service d ''PeerCenterRpc'' then
        (if method_index d = 1 then
           mbind (on_center (report_peers (center_codecs lib) now_ms network pid req)) (\<lambda>body.
           mret (body, None, RESULT_HANDLED))
         else if method_index d = 2 then
           mbind (on_center (get_global_peer_map (center_codecs lib) network req)) (\<lambda>body.
           mret (body, None, RESULT_HANDLED))
         else mret ([], Some (invalid_method_error d), RESULT_HANDLED))
      else mret ([], Some (Some (InvalidService (service_name d))), RESULT_HANDLED))"

definition response_packet ::
  "('x, 'y) rpc_lib \<Rightarrow> u32 \<Rightarrow> u32 \<Rightarrow> rpc_packet \<Rightarrow> bytes \<Rightarrow> error_kind option option \<Rightarrow> rpc_packet" where
  "response_packet lib me pid packet body err =
     \<lparr>rp_from_peer = me, rp_to_peer = pid, rp_transaction_id = rp_transaction_id packet,
      rp_descriptor = rp_descriptor packet,
      rp_body = encode_rpc_response lib \<lparr>rr_response = body, rr_error = err, rr_runtime_us = 0\<rparr>,
      rp_is_request = False, rp_total_pieces = 1, rp_piece_idx = 0,
      rp_trace_id = rp_trace_id packet, rp_compression_info = Some no_compression\<rparr>"

definition core_handle_request ::
  "('x, 'y) rpc_lib \<Rightarrow> string \<Rightarrow> u32 \<Rightarrow> bytes \<Rightarrow> u64 \<Rightarrow> (('x, 'y) rpc_core, bytes) op" where
  "core_handle_request lib network pid payload now_ms =
     mbind (mlift (decode_rpc_packet lib payload)) (\<lambda>packet.
     mbind (mtry (validate_envelope packet network pid True)) (\<lambda>_.
     mbind (merge_packet network pid packet now_ms) (\<lambda>merged.
     case merged of
       None \<Rightarrow> mret [0]
     | Some packet \<Rightarrow>
         mbind (mlift (validate_compression packet)) (\<lambda>_.
         mbind (mlift (ok_or (Err ''RPC request is missing its descriptor'') (rp_descriptor packet))) (\<lambda>d.
         mbind (mlift (decode_rpc_request lib (rp_body packet))) (\<lambda>req.
         mbind (call_service lib now_ms network pid d (rq_request req)) (\<lambda>(body, err, result).
         mbind (mget core_server_peer_id) (\<lambda>me.
         mret (result # encode_rpc_packet lib (response_packet lib me pid packet body err)))))))))) "

definition core_handle_response ::
  "('x, 'y) rpc_lib \<Rightarrow> string \<Rightarrow> u32 \<Rightarrow> bytes \<Rightarrow> u64 \<Rightarrow> (('x, 'y) rpc_core, bool) op" where
  "core_handle_response lib network pid payload now_ms =
     mbind (mlift (decode_rpc_packet lib payload)) (\<lambda>packet.
     mbind (mtry (validate_envelope packet network pid False)) (\<lambda>_.
     let key = rpc_key_for network pid (rp_transaction_id packet) False
     in
     mbind (mtry (\<lambda>c. ok_or (Err ''RPC response does not match an outstanding transaction'')
                        (m_get (outstanding_routes c) key))) (\<lambda>route.
     if deadline_ms route < now_ms
     then mbind (mmod (\<lambda>c. c\<lparr>outstanding_routes := m_del key (outstanding_routes c)\<rparr>)) (\<lambda>_.
          mraise (Err ''RPC response arrived after its transaction deadline''))
     else
       mbind (merge_packet network pid packet now_ms) (\<lambda>merged.
       case merged of
         None \<Rightarrow> mret False
       | Some packet \<Rightarrow>
           mbind (mlift (validate_compression packet)) (\<lambda>_.
           mbind (mlift (ok_or (Err ''RPC response is missing its descriptor'') (rp_descriptor packet))) (\<lambda>d.
           if \<not> is_service d ''OspfRouteRpc'' \<or> method_index d \<noteq> 1
           then mraise (Err ''RPC response descriptor does not match the route request'')
           else
             mbind (mlift (decode_rpc_response lib (rp_body packet))) (\<lambda>resp.
             if rr_error resp \<noteq> None
             then mraise (Err ''peer rejected the route synchronization RPC'')
             else
               mbind (mlift (decode_sync_response lib (rr_response resp))) (\<lambda>sync.
               if sr_error sync \<noteq> None
               then mraise (Err ''peer returned route synchronization error'')
               else
                 mbind (mtry (\<lambda>c. ok_or (Err ''route synchronization transaction disappeared'')
                                    (m_get (outstanding_routes c) key))) (\<lambda>outstanding.
                 mbind (mmod (\<lambda>c. c\<lparr>outstanding_routes := m_del key (outstanding_routes c)\<rparr>)) (\<lambda>_.
                 mbind (mget (\<lambda>c. case m_get (peer_initiator c) (network, pid) of None \<Rightarrow> True | Some b \<Rightarrow> b)) (\<lambda>initiator.
                 mbind (on_routes (on_route_session_ack (route_codecs lib) now_ms network pid (sr_session_id sync) initiator)) (\<lambda>_.
                 mbind (on_routes (commit_route_update (route_codecs lib) now_ms network pid
                          (or_peer_info_versions outstanding) (or_topology_version outstanding))) (\<lambda>_.
                 mret True)))))))))))))"

definition route_packet ::
  "('x, 'y) rpc_lib \<Rightarrow> u32 \<Rightarrow> string \<Rightarrow> u32 \<Rightarrow> 64 word \<Rightarrow> bytes \<Rightarrow> rpc_packet" where
  "route_packet lib me network pid tid payload =
     \<lparr>rp_from_peer = me, rp_to_peer = pid, rp_transaction_id = tid,
      rp_descriptor = Some \<lparr>domain_name = network, proto_name = ''OspfRouteRpc'',
        service_name = ''OspfRouteRpc'', method_index = 1\<rparr>,
      rp_body = encode_rpc_request lib \<lparr>rq_descriptor = None, rq_request = payload, rq_timeout_ms = 3000\<rparr>,
      rp_is_request = True, rp_total_pieces = 1, rp_piece_idx = 0, rp_trace_id = 0,
      rp_compression_info = Some no_compression\<rparr>"

definition core_build_route_update ::
  "('x, 'y) rpc_lib \<Rightarrow> string \<Rightarrow> u32 \<Rightarrow> u64 \<Rightarrow> bool \<Rightarrow> u64 \<Rightarrow> (('x, 'y) rpc_core, bytes) op" where
  "core_build_route_update lib network pid session_id force_full now_ms =
     mbind (mmod (clean_rpc_state now_ms)) (\<lambda>_.
     mbind (mget (\<lambda>c. case m_get (peer_initiator c) (network, pid) of None \<Rightarrow> True | Some b \<Rightarrow> b)) (\<lambda>initiator.
     mbind (on_routes (build_sync_route_info_request (route_codecs lib) now_ms network pid session_id initiator force_full)) (\<lambda>upd.
     mbind (next_transaction_id lib network pid) (\<lambda>tid.
     mbind (mmod (\<lambda>c. c\<lparr>outstanding_routes := m_put (rpc_key_for network pid tid False)
                          \<lparr>deadline_ms = sat_add now_ms ROUTE_RPC_TIMEOUT_MS,
                           or_peer_info_versions = ru_peer_info_versions upd,
                           or_topology_version = ru_topology_version upd\<rparr> (outstanding_routes c)\<rparr>)) (\<lambda>_.
     mbind (mget core_server_peer_id) (\<lambda>me.
     mret (encode_rpc_packet lib (route_packet lib me network pid tid (ru_payload upd)))))))))"

subsection \<open>Sums over maps\<close>

definition m_sum :: "('v \<Rightarrow> nat) \<Rightarrow> ('k, 'v) jsmap \<Rightarrow> nat" where
  "m_sum f m = sum_list (map f (m_values m))"

lemma m_sum_del: "m_ok m \<Longrightarrow> m_get m k = Some v \<Longrightarrow> m_sum f m = f v + m_sum f (m_del k m)"
proof (induction m)
  case (Cons p m)
  have "m_get m (fst p) = None" using Cons.prems(1) by (simp add: map_of_eq_None_iff)
  then have "m_del (fst p) m = m" by (simp add: delete_notin_dom map_of_eq_None_iff)
  with Cons show ?case by (cases p) (auto simp: m_sum_def)
qed simp

lemma m_sum_del_None: "m_get m k = None \<Longrightarrow> m_del k m = m"
  by (simp add: map_of_eq_None_iff)

lemma m_del_put [simp]: "m_ok m \<Longrightarrow> m_del k (m_put k v m) = m_del k m"
  by (induction m) (auto simp: map_of_eq_None_iff)

lemma m_sum_put: "m_ok m \<Longrightarrow> m_sum f (m_put k v m) = f v + m_sum f (m_del k m)"
  using m_sum_del [of "m_put k v m" k v f] by (simp add: m_get_put)

lemma m_sum_ge: "m_ok m \<Longrightarrow> m_get m k = Some v \<Longrightarrow> f v \<le> m_sum f m"
  by (simp add: m_sum_del)

definition m_count :: "('k \<Rightarrow> bool) \<Rightarrow> ('k, 'v) jsmap \<Rightarrow> nat" where
  "m_count P m = length (filter P (m_keys m))"

lemma m_count_del: "m_count P (m_del k m) \<le> m_count P m"
  by (induction m) (auto simp: m_count_def)

lemma m_count_put: "m_count P (m_put k v m) = m_count P m + (if m_get m k = None \<and> P k then 1 else 0)"
  by (induction m) (auto simp: m_count_def)

subsection \<open>What is pending\<close>

definition piece_bytes :: "bytes option \<Rightarrow> nat" where
  "piece_bytes x = (case x of None \<Rightarrow> 0 | Some b \<Rightarrow> length b)"

text \<open>A transaction, complete or not.\<close>

definition pending_wf :: "pending_rpc \<Rightarrow> bool" where
  "pending_wf p \<longleftrightarrow> length (pd_pieces p) = unat (pd_total_pieces p) \<and> 2 \<le> unat (pd_total_pieces p)
     \<and> pd_received_pieces p = length (filter (\<lambda>x. x \<noteq> None) (pd_pieces p))
     \<and> pd_body_bytes p = sum_list (map piece_bytes (pd_pieces p))
     \<and> (pd_first p = None \<longleftrightarrow> pd_pieces p ! 0 = None)"

definition incomplete :: "pending_rpc \<Rightarrow> bool" where
  "incomplete p \<longleftrightarrow> pd_received_pieces p < unat (pd_total_pieces p)"

definition of_peer :: "string \<Rightarrow> u32 \<Rightarrow> rpc_key \<Rightarrow> bool" where
  "of_peer network pid k \<longleftrightarrow> rk_network k = network \<and> rk_peer_id k = pid"

definition pending_ok :: "('x, 'y) rpc_core \<Rightarrow> bool" where
  "pending_ok c \<longleftrightarrow> m_ok (pending c)
     \<and> list_all (\<lambda>(_, p). pending_wf p \<and> incomplete p) (pending c)
     \<and> pending_bytes c = m_sum pd_body_bytes (pending c)
     \<and> pending_pieces c = m_sum (\<lambda>p. unat (pd_total_pieces p)) (pending c)
     \<and> pending_bytes c \<le> MAX_PENDING_BYTES \<and> pending_pieces c \<le> MAX_PENDING_PIECES
     \<and> (\<forall>n p. m_count (of_peer n p) (pending c) \<le> MAX_PENDING_TRANSACTIONS_PER_PEER)"

lemma pending_ok_cong:
  "pending c' = pending c \<Longrightarrow> pending_bytes c' = pending_bytes c \<Longrightarrow> pending_pieces c' = pending_pieces c \<Longrightarrow>
     pending_ok c' = pending_ok c"
  by (simp add: pending_ok_def)

lemma pending_ok_get: "pending_ok c \<Longrightarrow> m_get (pending c) k = Some p \<Longrightarrow> pending_wf p \<and> incomplete p"
  by (auto simp: pending_ok_def list_all_iff dest: map_of_SomeD)

text \<open>Deleting a transaction, with the counters.\<close>

lemma pending_ok_del:
  assumes "pending_ok c" and "m_get (pending c) k = Some p"
  shows "pending_ok (c\<lparr>pending := m_del k (pending c), pending_bytes := pending_bytes c - pd_body_bytes p,
                        pending_pieces := pending_pieces c - unat (pd_total_pieces p)\<rparr>)"
proof -
  have "m_count (of_peer n q) (m_del k (pending c)) \<le> MAX_PENDING_TRANSACTIONS_PER_PEER" for n q
    using assms(1) m_count_del [of "of_peer n q" k "pending c"] unfolding pending_ok_def by (meson le_trans)
  with assms show ?thesis
    using m_sum_del [of "pending c" k p pd_body_bytes] m_sum_del [of "pending c" k p "\<lambda>p. unat (pd_total_pieces p)"]
    by (simp add: pending_ok_def list_all_m_del)
qed

lemma pending_ok_remove [simp]: "pending_ok c \<Longrightarrow> pending_ok (remove_pending k c)"
  by (simp add: remove_pending_def pending_ok_del split: option.split)

lemma pending_ok_fold: "pending_ok c \<Longrightarrow> pending_ok (fold remove_pending ks c)"
  by (induction ks arbitrary: c) simp_all

lemma pending_ok_clean [simp]: "pending_ok c \<Longrightarrow> pending_ok (clean_pending now_ms c)"
  by (simp add: clean_pending_def pending_ok_fold)

lemma usize_add_le: "usize_add a b \<le> n \<Longrightarrow> n < 2 ^ 32 - 1 \<Longrightarrow> usize_add a b = a + b"
  by (simp add: usize_add_def min_def split: if_splits)

lemma new_pending_wf: "2 \<le> unat total_pieces \<Longrightarrow> pending_wf (new_pending now_ms total_pieces) \<and> incomplete (new_pending now_ms total_pieces)"
  by (simp add: pending_wf_def incomplete_def new_pending_def piece_bytes_def)

lemma open_pending_cases:
  obtains e where "open_pending now_ms key total_pieces c = (Inl e, c)" "m_get (pending c) key = None"
  | "open_pending now_ms key total_pieces c = (Inr (), c)" "m_get (pending c) key \<noteq> None"
  | "open_pending now_ms key total_pieces c = (Inr (), c\<lparr>pending := m_put key (new_pending now_ms total_pieces) (pending c),
        pending_pieces := pending_pieces c + unat total_pieces\<rparr>)" "m_get (pending c) key = None"
      "m_count (of_peer (rk_network key) (rk_peer_id key)) (pending c) < MAX_PENDING_TRANSACTIONS_PER_PEER"
      "pending_pieces c + unat total_pieces \<le> MAX_PENDING_PIECES"
proof (cases "m_get (pending c) key")
  case None
  have "usize_add (pending_pieces c) (unat total_pieces) \<le> MAX_PENDING_PIECES \<Longrightarrow>
      pending_pieces c + unat total_pieces \<le> MAX_PENDING_PIECES"
    using usize_add_le [of "pending_pieces c" "unat total_pieces" MAX_PENDING_PIECES] by (simp add: MAX_PENDING_PIECES_def)
  moreover have "length (filter (\<lambda>k. rk_network k = rk_network key \<and> rk_peer_id k = rk_peer_id key) (m_keys (pending c)))
      = m_count (of_peer (rk_network key) (rk_peer_id key)) (pending c)"
    by (simp add: m_count_def of_peer_def [abs_def])
  then have "open_pending now_ms key total_pieces c =
      (if MAX_PENDING_TRANSACTIONS_PER_PEER \<le> m_count (of_peer (rk_network key) (rk_peer_id key)) (pending c)
       then (Inl (Err ''too many pending fragmented RPC transactions''), c)
       else if MAX_PENDING_PIECES < usize_add (pending_pieces c) (unat total_pieces)
       then (Inl (Err ''pending fragmented RPC piece limit exceeded''), c)
       else (Inr (), c\<lparr>pending := m_put key (new_pending now_ms total_pieces) (pending c),
                        pending_pieces := pending_pieces c + unat total_pieces\<rparr>))"
    using None by (simp add: open_pending_def op_defs)
  ultimately show thesis
    using that(1) [OF _ None] that(3) [OF _ None] unfolding not_less [symmetric] by metis
qed (use that(2) in \<open>simp add: open_pending_def op_defs\<close>)

lemma pending_ok_open:
  assumes "pending_ok c" and "2 \<le> unat total_pieces"
  shows "pending_ok (snd (open_pending now_ms key total_pieces c))"
proof (cases rule: open_pending_cases [of now_ms key total_pieces c])
  case 3
  have "m_count (of_peer n q) (m_put key (new_pending now_ms total_pieces) (pending c)) \<le> MAX_PENDING_TRANSACTIONS_PER_PEER" for n q
    using assms(1) 3 by (auto simp: pending_ok_def m_count_put of_peer_def)
  with assms 3 show ?thesis
    by (simp add: pending_ok_def list_all_m_put new_pending_wf m_sum_put m_sum_del_None)
       (simp add: new_pending_def)
qed (use assms in simp_all)

subsection \<open>One more piece\<close>

lemma sum_list_map_update:
  "i < length xs \<Longrightarrow> sum_list (map f (xs[i := x])) + f (xs ! i) = sum_list (map f xs) + (f x :: nat)"
  by (induction xs arbitrary: i) (auto split: nat.splits)

lemma count_update:
  assumes "i < length xs"
  shows "length (filter P (xs[i := x])) + (if P (xs ! i) then 1 else 0) =
     length (filter P xs) + (if P x then 1 else 0)"
proof -
  have "length (filter P ys) = sum_list (map (\<lambda>x. if P x then 1 else 0) ys)" for ys
    by (induction ys) auto
  then show ?thesis
    using assms sum_list_map_update [of i xs "\<lambda>x. if P x then 1 else 0" x] by simp
qed

lemma store_piece_sel:
  "pd_total_pieces (store_piece now_ms packet prev p) = pd_total_pieces p"
  "pd_pieces (store_piece now_ms packet prev p) = (pd_pieces p)[unat (rp_piece_idx packet) := Some (rp_body packet)]"
  "pd_body_bytes (store_piece now_ms packet prev p) = usize_add (pd_body_bytes p - prev) (length (rp_body packet))"
  "pd_updated_at_ms (store_piece now_ms packet prev p) = now_ms"
  "pd_received_pieces (store_piece now_ms packet prev p) =
     pd_received_pieces p + (if pd_pieces p ! unat (rp_piece_idx packet) = None then 1 else 0)"
  "pd_first (store_piece now_ms packet prev p) = (if unat (rp_piece_idx packet) = 0 then Some packet else pd_first p)"
  by (simp_all add: store_piece_def Let_def)

lemma pending_wf_store:
  assumes "pending_wf p" and "unat (rp_piece_idx packet) < unat (pd_total_pieces p)"
    and "prev = piece_bytes (pd_pieces p ! unat (rp_piece_idx packet))"
    and "pd_body_bytes p - prev + length (rp_body packet) < 2 ^ 32 - 1"
  shows "pending_wf (store_piece now_ms packet prev p)"
    and "pd_body_bytes (store_piece now_ms packet prev p) = pd_body_bytes p - prev + length (rp_body packet)"
    and "prev \<le> pd_body_bytes p"
proof -
  let ?i = "unat (rp_piece_idx packet)" and ?x = "Some (rp_body packet)"
  have i: "?i < length (pd_pieces p)" using assms by (simp add: pending_wf_def)
  have b: "usize_add (pd_body_bytes p - prev) (length (rp_body packet)) = pd_body_bytes p - prev + length (rp_body packet)"
    using assms(4) by (simp add: usize_add_def)
  have "piece_bytes (pd_pieces p ! ?i) \<le> sum_list (map piece_bytes (pd_pieces p))"
    using i by (intro member_le_sum_list) auto
  with sum_list_map_update [OF i, of piece_bytes ?x] assms(1,3)
  have "pd_body_bytes p - prev + length (rp_body packet) = sum_list (map piece_bytes ((pd_pieces p)[?i := ?x]))"
    by (simp add: pending_wf_def piece_bytes_def)
  moreover have "(pd_pieces p)[?i := ?x] ! 0 = None \<longleftrightarrow> ?i \<noteq> 0 \<and> pd_pieces p ! 0 = None"
    using i by (auto simp: nth_list_update)
  moreover have "pd_received_pieces p + (if pd_pieces p ! ?i = None then 1 else 0) =
      length (filter (\<lambda>x. x \<noteq> None) ((pd_pieces p)[?i := ?x]))"
    using assms(1) count_update [OF i, of "\<lambda>x. x \<noteq> None" ?x] by (auto simp: pending_wf_def split: if_splits)
  ultimately show "pending_wf (store_piece now_ms packet prev p)"
    using assms(1) unfolding pending_wf_def store_piece_sel b by simp
  show "pd_body_bytes (store_piece now_ms packet prev p) = pd_body_bytes p - prev + length (rp_body packet)"
    by (simp add: store_piece_sel b)
  show "prev \<le> pd_body_bytes p"
    using \<open>piece_bytes (pd_pieces p ! ?i) \<le> _\<close> assms(1,3) by (simp add: pending_wf_def)
qed

lemma complete_pieces:
  assumes "pending_wf p" and "pd_received_pieces p = unat (pd_total_pieces p)"
  shows "None \<notin> set (pd_pieces p)" and "pd_first p \<noteq> None"
proof -
  have "length (filter (\<lambda>x. x \<noteq> None) (pd_pieces p)) = length (pd_pieces p)"
    using assms by (simp add: pending_wf_def)
  then show "None \<notin> set (pd_pieces p)"
    by (metis (mono_tags, lifting) filter_id_conv length_filter_less less_irrefl)
  moreover have "pd_pieces p ! 0 \<in> set (pd_pieces p)" using assms(1) by (simp add: pending_wf_def)
  ultimately show "pd_first p \<noteq> None" using assms(1) unfolding pending_wf_def by metis
qed

definition completed_packet :: "pending_rpc \<Rightarrow> rpc_packet" where
  "completed_packet p = (the (pd_first p))\<lparr>rp_body := concat (map the (pd_pieces p)),
     rp_total_pieces := 1, rp_piece_idx := 0\<rparr>"

text \<open>What happens to a piece: too many bytes, one of several, or the last one.\<close>

lemma add_piece_cases:
  fixes now_ms :: u64
  assumes ok: "pending_ok c" and p: "m_get (pending c) key = Some p"
    and total: "pd_total_pieces p = rp_total_pieces packet" and i: "rp_piece_idx packet < rp_total_pieces packet"
  defines "prev \<equiv> piece_bytes (pd_pieces p ! unat (rp_piece_idx packet))"
  defines "p' \<equiv> store_piece now_ms packet prev p"
  obtains e where "add_piece now_ms key packet c = (Inl e, remove_pending key c)"
      "MAX_PENDING_BYTES < usize_add (pending_bytes c - prev) (length (rp_body packet))"
  | "add_piece now_ms key packet c = (Inr None, c\<lparr>pending := m_put key p' (pending c),
        pending_bytes := pending_bytes c - prev + length (rp_body packet)\<rparr>)"
      "pending_wf p'" "incomplete p'" "pending_bytes c - prev + length (rp_body packet) \<le> MAX_PENDING_BYTES"
      "pd_body_bytes p' = pd_body_bytes p - prev + length (rp_body packet)" "prev \<le> pd_body_bytes p"
  | c' where "add_piece now_ms key packet c = (Inr (Some (completed_packet p')), c')"
      "c' = remove_pending key c" "pending_wf p'" "pd_received_pieces p' = unat (rp_total_pieces packet)"
proof -
  note wf = pending_ok_get [OF ok p]
  have i': "unat (rp_piece_idx packet) < unat (pd_total_pieces p)"
    using i total by (simp add: word_less_nat_alt)
  have prev: "(case pd_pieces p ! unat (rp_piece_idx packet) of None \<Rightarrow> 0 | Some b \<Rightarrow> length b) = prev"
    by (simp add: prev_def piece_bytes_def)
  have le: "pd_body_bytes p \<le> pending_bytes c"
    using ok p m_sum_ge [of "pending c" key p pd_body_bytes] by (simp add: pending_ok_def)
  let ?next = "usize_add (pending_bytes c - prev) (length (rp_body packet))"
  show thesis
  proof (cases "MAX_PENDING_BYTES < ?next")
    case True
    with that(1) p prev show thesis by (simp add: add_piece_def op_defs Let_def)
  next
    case False
    then have next_eq: "?next = pending_bytes c - prev + length (rp_body packet)"
      using usize_add_le [of "pending_bytes c - prev" "length (rp_body packet)" MAX_PENDING_BYTES]
      by (simp add: MAX_PENDING_BYTES_def)
    then have small: "pd_body_bytes p - prev + length (rp_body packet) < 2 ^ 32 - 1"
      using False le by (simp add: MAX_PENDING_BYTES_def)
    note store = pending_wf_store(1,2) [OF conjunct1 [OF wf] i' meta_eq_to_obj_eq [OF prev_def] small,
        where now_ms = now_ms, folded p'_def]
      pending_wf_store(3) [OF conjunct1 [OF wf] i' meta_eq_to_obj_eq [OF prev_def] small]
    have p'_total: "pd_total_pieces p' = rp_total_pieces packet" by (simp add: p'_def store_piece_sel total)
    show thesis
    proof (cases "pd_received_pieces p' = unat (rp_total_pieces packet)")
      case True
      have compl: "None \<notin> set (pd_pieces p')" "pd_first p' \<noteq> None"
        using complete_pieces store(1) True p'_total by simp_all
      then obtain f where f: "pd_first p' = Some f" by auto
      have "pending_bytes c - prev + length (rp_body packet) - pd_body_bytes p' = pending_bytes c - pd_body_bytes p"
        using store(2,3) le by simp
      moreover have "m_ok (pending c)" using ok by (simp add: pending_ok_def)
      ultimately show thesis
        using that(3) [OF _ refl store(1) True] False p True compl f
        by (simp add: add_piece_def op_defs Let_def prev p'_def [symmetric] next_eq finish_pending_def m_get_put
            completed_packet_def remove_pending_def p'_total total)
    next
      case neq: False
      have "pd_received_pieces p' \<le> unat (pd_total_pieces p')"
        using store(1) length_filter_le [of "\<lambda>x. x \<noteq> None" "pd_pieces p'"] by (simp add: pending_wf_def)
      with neq have "incomplete p'" by (simp add: incomplete_def p'_total)
      with that(2) [OF _ store(1) _ _ store(2,3)] False p neq show thesis
        by (simp add: add_piece_def op_defs Let_def prev p'_def [symmetric] next_eq)
    qed
  qed
qed

lemma pending_ok_add_piece:
  assumes ok: "pending_ok c" and p: "m_get (pending c) key = Some p"
    and total: "pd_total_pieces p = rp_total_pieces packet" and i: "rp_piece_idx packet < rp_total_pieces packet"
  shows "pending_ok (snd (add_piece now_ms key packet c))"
proof (cases rule: add_piece_cases [OF assms, where now_ms = now_ms])
  case 2
  let ?prev = "piece_bytes (pd_pieces p ! unat (rp_piece_idx packet))"
  have "pd_total_pieces (store_piece now_ms packet ?prev p) = pd_total_pieces p" by (simp add: store_piece_sel)
  with 2 ok p m_sum_del [of "pending c" key p pd_body_bytes] m_sum_del [of "pending c" key p "\<lambda>p. unat (pd_total_pieces p)"]
  show ?thesis
    by (simp add: pending_ok_def list_all_m_put m_sum_put m_count_put)
qed (simp_all add: ok)

lemma unat_ge_2:
  fixes w :: u32
  assumes "w \<noteq> 0" and "w \<noteq> 1"
  shows "2 \<le> unat w"
proof -
  have "unat w \<noteq> 0" using assms(1) by (simp add: unat_eq_zero)
  moreover have "unat w \<noteq> 1"
  proof
    assume "unat w = 1"
    then have "(of_nat (unat w) :: u32) = 1" by simp
    with assms(2) show False by simp
  qed
  ultimately show ?thesis by simp
qed

lemma remove_pending_get: "m_get (pending (remove_pending a c)) k = Some p \<Longrightarrow> m_get (pending c) k = Some p"
  by (auto simp: remove_pending_def m_get_del split: option.splits if_splits)

lemma clean_pending_get:
  assumes "m_get (pending (clean_pending now_ms c)) k = Some p"
  shows "m_get (pending c) k = Some p"
proof -
  have "m_get (pending (fold remove_pending ks c)) k = Some p \<Longrightarrow> m_get (pending c) k = Some p" for ks
    by (induction ks arbitrary: c) (auto dest!: remove_pending_get)
  with assms show ?thesis by (simp add: clean_pending_def)
qed

lemma keeps_merge_packet: "keeps pending_ok (merge_packet network pid packet now_ms)"
proof (rule keepsI)
  fix c :: "('a, 'b) rpc_core"
  assume "pending_ok c"
  let ?c = "clean_pending now_ms c" and ?total = "rp_total_pieces packet"
  let ?key = "rpc_key_for network pid (rp_transaction_id packet) (rp_is_request packet)"
  have ok: "pending_ok ?c" by (simp add: \<open>pending_ok c\<close>)
  show "pending_ok (snd (merge_packet network pid packet now_ms c))"
  proof (cases "?total = 0 \<or> MAX_RPC_PIECES < ?total \<or> ?total \<le> rp_piece_idx packet \<or> ?total = 1
      \<or> (rp_piece_idx packet = 0 \<and> rp_descriptor packet = None)")
    case True
    then show ?thesis using \<open>pending_ok c\<close> by (auto simp: merge_packet_def op_defs Let_def)
  next
    case False
    then have i: "rp_piece_idx packet < ?total" and two: "2 \<le> unat ?total"
      using unat_ge_2 [of ?total] by auto
    show ?thesis
    proof (cases "case m_get (pending ?c) ?key of Some p \<Rightarrow> pd_total_pieces p \<noteq> ?total | None \<Rightarrow> False")
      case True
      with False ok show ?thesis by (auto simp: merge_packet_def op_defs Let_def)
    next
      case same: False
      have eq: "merge_packet network pid packet now_ms c =
          (case open_pending now_ms ?key ?total ?c of (Inl e, c) \<Rightarrow> (Inl e, c)
           | (Inr _, c) \<Rightarrow> add_piece now_ms ?key packet c)"
        using False same by (auto simp: merge_packet_def op_defs Let_def simp del: not_None_eq split: prod.split sum.split)
      have after: "pending_ok (snd (open_pending now_ms ?key ?total ?c))" using pending_ok_open [OF ok two] .
      show ?thesis
      proof (cases rule: open_pending_cases [of now_ms ?key ?total ?c])
        case (1 e)
        with ok show ?thesis by (simp add: eq)
      next
        case 2
        then obtain p where "m_get (pending ?c) ?key = Some p" by auto
        with same have "pending_ok (snd (add_piece now_ms ?key packet ?c))"
          by (intro pending_ok_add_piece [OF ok _ _ i]) auto
        with 2 show ?thesis by (simp add: eq)
      next
        case 3
        have "pd_total_pieces (new_pending now_ms ?total) = ?total" by (simp add: new_pending_def)
        moreover have "m_get (pending (snd (open_pending now_ms ?key ?total ?c))) ?key = Some (new_pending now_ms ?total)"
          by (simp add: 3 m_get_put)
        ultimately have "pending_ok (snd (add_piece now_ms ?key packet (snd (open_pending now_ms ?key ?total ?c))))"
          by (intro pending_ok_add_piece [OF after _ _ i])
        then show ?thesis by (simp add: eq 3(1))
      qed
    qed
  qed
qed

subsection \<open>The invariant of the core\<close>

definition core_ok :: "('x, 'y) rpc_lib \<Rightarrow> u32 \<Rightarrow> ('x, 'y) rpc_core \<Rightarrow> bool" where
  "core_ok lib me c \<longleftrightarrow> pending_ok c \<and> route_ok me (core_routes c) \<and> pc_ok (center_codecs lib) (core_center c)
     \<and> core_server_peer_id c = me \<and> length (core_public_key c) = 32"

lemma remove_pending_sel [simp]:
  "core_routes (remove_pending k c) = core_routes c" "core_center (remove_pending k c) = core_center c"
  "core_server_peer_id (remove_pending k c) = core_server_peer_id c"
  "core_public_key (remove_pending k c) = core_public_key c" "outstanding_routes (remove_pending k c) = outstanding_routes c"
  "configured_groups (remove_pending k c) = configured_groups c" "core_hostname (remove_pending k c) = core_hostname c"
  by (simp_all add: remove_pending_def split: option.split)

lemma fold_remove_sel [simp]:
  "core_routes (fold remove_pending ks c) = core_routes c" "core_center (fold remove_pending ks c) = core_center c"
  "core_server_peer_id (fold remove_pending ks c) = core_server_peer_id c"
  "core_public_key (fold remove_pending ks c) = core_public_key c"
  "outstanding_routes (fold remove_pending ks c) = outstanding_routes c"
  "configured_groups (fold remove_pending ks c) = configured_groups c" "core_hostname (fold remove_pending ks c) = core_hostname c"
  by (induction ks arbitrary: c) simp_all

lemma clean_pending_sel [simp]:
  "core_routes (clean_pending t c) = core_routes c" "core_center (clean_pending t c) = core_center c"
  "core_server_peer_id (clean_pending t c) = core_server_peer_id c" "core_public_key (clean_pending t c) = core_public_key c"
  "outstanding_routes (clean_pending t c) = outstanding_routes c"
  "configured_groups (clean_pending t c) = configured_groups c" "core_hostname (clean_pending t c) = core_hostname c"
  by (simp_all add: clean_pending_def)

text \<open>Merging touches only what is pending.\<close>

definition same_services :: "('x, 'y) rpc_core \<Rightarrow> ('x, 'y) rpc_core \<Rightarrow> bool" where
  "same_services c c' \<longleftrightarrow> core_routes c' = core_routes c \<and> core_center c' = core_center c
     \<and> core_server_peer_id c' = core_server_peer_id c \<and> core_public_key c' = core_public_key c
     \<and> outstanding_routes c' = outstanding_routes c"

lemma merge_packet_services: "keeps (same_services c) (merge_packet network pid packet now_ms)"
  unfolding merge_packet_def open_pending_def add_piece_def finish_pending_def
  by (intro pres keeps_mod; simp add: same_services_def)

lemma keeps_merge_core: "keeps (core_ok lib me) (merge_packet network pid packet now_ms)"
proof (rule keepsI)
  fix c :: "('a, 'b) rpc_core"
  assume "core_ok lib me c"
  moreover have "same_services c (snd (merge_packet network pid packet now_ms c))"
    by (rule keepsD [OF merge_packet_services]) (simp add: same_services_def)
  ultimately show "core_ok lib me (snd (merge_packet network pid packet now_ms c))"
    using keepsD [OF keeps_merge_packet] by (auto simp: core_ok_def same_services_def)
qed

lemma keeps_on_routes: "keeps (route_ok me) m \<Longrightarrow> keeps (core_ok lib me) (on_routes m)"
  by (auto simp: keeps_def on_routes_def core_ok_def case_prod_unfold cong: pending_ok_cong)

lemma keeps_on_center: "keeps (pc_ok (center_codecs lib)) m \<Longrightarrow> keeps (core_ok lib me) (on_center m)"
  by (auto simp: keeps_def on_center_def core_ok_def case_prod_unfold cong: pending_ok_cong)

lemma core_ok_frame [simp]:
  "core_ok lib me (c\<lparr>peer_initiator := x\<rparr>) = core_ok lib me c"
  "core_ok lib me (c\<lparr>outstanding_routes := y\<rparr>) = core_ok lib me c"
  "core_ok lib me (c\<lparr>configured_groups := z\<rparr>) = core_ok lib me c"
  "core_ok lib me (c\<lparr>core_draws := n\<rparr>) = core_ok lib me c"
  by (simp_all add: core_ok_def pending_ok_def)

lemma core_ok_fold_remove: "core_ok lib me c \<Longrightarrow> core_ok lib me (fold remove_pending ks c)"
  by (simp add: core_ok_def pending_ok_fold)

lemma core_ok_clean: "core_ok lib me c \<Longrightarrow> core_ok lib me (clean_rpc_state t c)"
  unfolding clean_rpc_state_def Let_def by simp (simp add: core_ok_def)

lemma core_ok_clean_expired: "core_ok lib me c \<Longrightarrow> core_ok lib me (core_clean_expired lib t c)"
  using core_ok_clean [of lib me c t]
  by (simp add: core_clean_expired_def Let_def core_ok_def pc_ok_clean cong: pending_ok_cong)

lemma keeps_core_add_peer: "pid \<noteq> me \<Longrightarrow> keeps (core_ok lib me) (core_add_peer lib network pid k)"
  unfolding core_add_peer_def
  by (intro pres keeps_mod keeps_on_routes keeps_route_add_peer keeps_set_my_info_field
      keeps_set_my_noise_public_key; simp)

lemma core_ok_remove_peer: "pid \<noteq> me \<Longrightarrow> core_ok lib me c \<Longrightarrow> core_ok lib me (core_remove_peer lib network pid c)"
  unfolding core_remove_peer_def Let_def
  by (simp, rule core_ok_fold_remove)
     (simp add: core_ok_def route_ok_remove pc_ok_remove cong: pending_ok_cong)

lemma keeps_call_service: "keeps (core_ok lib me) (call_service lib now_ms network pid d req)"
  unfolding call_service_def
  by (intro pres keeps_mod keeps_on_routes keeps_on_center keeps_handle_sync keeps_report_peers
      keeps_get_global_peer_map; simp)

lemma keeps_core_handle_request: "keeps (core_ok lib me) (core_handle_request lib network pid payload now_ms)"
  unfolding core_handle_request_def by (intro pres keeps_merge_core keeps_call_service)

lemma keeps_core_handle_response: "keeps (core_ok lib me) (core_handle_response lib network pid payload now_ms)"
  unfolding core_handle_response_def
  by (intro pres keeps_mod keeps_merge_core keeps_on_routes keeps_on_route_session_ack keeps_commit_route_update
      keeps_let; simp)

lemma keeps_next_transaction_id: "keeps (core_ok lib me) (next_transaction_id lib network pid)"
proof -
  have "keeps (core_ok lib me) (next_transaction_id_loop lib network pid n)" for n
    by (induction n) (auto intro!: pres keeps_run simp: Let_def)
  then show ?thesis by (simp add: next_transaction_id_def)
qed

lemma mbind_mmod: "mbind (mmod g) f s = f () (g s)"
  and mbind_mget: "mbind (mget h) k s = k (h s) s"
  by (simp_all add: op_defs)

lemma keeps_bind_pre: "I (snd (m s)) \<Longrightarrow> (\<And>a. keeps I (f a)) \<Longrightarrow> I (snd (mbind m f s))"
  by (auto simp: mbind_def keeps_def split: prod.split sum.split)

definition core_member :: "('x, 'y) rpc_lib \<Rightarrow> ('x, 'y) rpc_core \<Rightarrow> string \<Rightarrow> u32 \<Rightarrow> bool" where
  "core_member lib c network pid \<longleftrightarrow> pid \<in> set (peers (group_of (route_codecs lib) network (core_routes c)))"

lemma core_ok_build:
  assumes "core_ok lib me c" and "core_member lib c network pid"
  shows "core_ok lib me (snd (core_build_route_update lib network pid sid full now_ms c))"
proof -
  let ?c = "clean_rpc_state now_ms c"
  have ok: "core_ok lib me ?c" using assms(1) by (rule core_ok_clean)
  have "core_routes ?c = core_routes c" by (simp add: clean_rpc_state_def Let_def)
  with assms(2) ok have built: "core_ok lib me (snd (on_routes (build_sync_route_info_request (route_codecs lib) now_ms network pid sid b full) ?c))"
    for b using route_ok_build [of me "core_routes ?c" pid "route_codecs lib" network now_ms sid b full]
    by (auto simp: on_routes_def core_ok_def core_member_def case_prod_unfold cong: pending_ok_cong)
  show ?thesis
    unfolding core_build_route_update_def mbind_mmod [of "clean_rpc_state now_ms"]
      mbind_mget [of "\<lambda>c. case m_get (peer_initiator c) (network, pid) of None \<Rightarrow> True | Some b \<Rightarrow> b"]
    by (rule keeps_bind_pre [where I = "core_ok lib me"], rule built) (intro pres keeps_mod keeps_next_transaction_id; simp)
qed

text \<open>The states of the core, for clients that are not the server and updates for members.\<close>

inductive core_reachable :: "('x, 'y) rpc_lib \<Rightarrow> u32 \<Rightarrow> ('x, 'y) rpc_core \<Rightarrow> bool" for lib me where
  core_start: "core_new k hostname me = Inr c \<Longrightarrow> core_reachable lib me c"
| core_added: "core_reachable lib me c \<Longrightarrow> pid \<noteq> me \<Longrightarrow>
    core_reachable lib me (snd (core_add_peer lib network pid k c))"
| core_removed: "core_reachable lib me c \<Longrightarrow> pid \<noteq> me \<Longrightarrow>
    core_reachable lib me (core_remove_peer lib network pid c)"
| core_requested: "core_reachable lib me c \<Longrightarrow>
    core_reachable lib me (snd (core_handle_request lib network pid payload now_ms c))"
| core_answered: "core_reachable lib me c \<Longrightarrow>
    core_reachable lib me (snd (core_handle_response lib network pid payload now_ms c))"
| core_updated: "core_reachable lib me c \<Longrightarrow> core_member lib c network pid \<Longrightarrow>
    core_reachable lib me (snd (core_build_route_update lib network pid sid full now_ms c))"
| core_cleaned: "core_reachable lib me c \<Longrightarrow> core_reachable lib me (core_clean_expired lib now_ms c)"

lemma core_reachable_ok: "core_reachable lib me c \<Longrightarrow> core_ok lib me c"
proof (induction rule: core_reachable.induct)
  case (core_start k hostname c)
  then have "c = \<lparr>core_routes = route_new me, core_center = [], configured_groups = [], peer_initiator = [],
      pending = [], pending_bytes = 0, pending_pieces = 0, outstanding_routes = [], core_public_key = k,
      core_hostname = hostname, core_server_peer_id = me, core_draws = 0\<rparr>" "length k = 32"
    by (auto simp: core_new_def split: if_splits)
  then show ?case
    using route_reachable_ok [OF route_start] by (simp add: core_ok_def pending_ok_def pc_ok_def m_sum_def m_count_def)
qed (simp_all add: keepsD [OF keeps_core_add_peer] core_ok_remove_peer keepsD [OF keeps_core_handle_request]
    keepsD [OF keeps_core_handle_response] core_ok_build core_ok_clean_expired)

text \<open>C11: What clients can make the server hold of unfinished messages is bounded and accounted for
  exactly: in every reachable state the two counters are the sums over what is pending, all pending
  pieces together take at most 32 MiB and 32768 slots, every peer has at most 64 unfinished
  transactions, and nothing complete is ever left behind.\<close>

theorem pending_fragments_are_bounded:
  assumes "core_reachable lib me c"
  shows "pending_bytes c = sum_list (map (\<lambda>p. sum_list (map piece_bytes (pd_pieces p))) (m_values (pending c)))
    \<and> pending_pieces c = sum_list (map (length \<circ> pd_pieces) (m_values (pending c)))
    \<and> pending_bytes c \<le> 32 * 1024 * 1024 \<and> pending_pieces c \<le> 32768
    \<and> length (filter (\<lambda>k. rk_network k = network \<and> rk_peer_id k = pid) (m_keys (pending c))) \<le> 64
    \<and> list_all (\<lambda>p. None \<in> set (pd_pieces p)) (m_values (pending c))"
proof -
  have ok: "pending_ok c" using core_reachable_ok [OF assms] by (simp add: core_ok_def)
  then have wf: "\<forall>p \<in> set (m_values (pending c)). pending_wf p \<and> incomplete p"
    by (auto simp: pending_ok_def list_all_iff)
  have "None \<in> set (pd_pieces p)" if "pending_wf p" "incomplete p" for p
  proof (rule ccontr)
    assume "None \<notin> set (pd_pieces p)"
    then have "filter (\<lambda>x. x \<noteq> None) (pd_pieces p) = pd_pieces p" by (intro filter_True ballI notI) simp
    with that show False by (simp add: pending_wf_def incomplete_def)
  qed
  moreover have "m_sum pd_body_bytes (pending c) =
      sum_list (map (\<lambda>p. sum_list (map piece_bytes (pd_pieces p))) (m_values (pending c)))"
    unfolding m_sum_def using wf by (intro arg_cong [where f = sum_list] map_cong) (auto simp: pending_wf_def)
  moreover have "m_sum (\<lambda>p. unat (pd_total_pieces p)) (pending c) =
      sum_list (map (length \<circ> pd_pieces) (m_values (pending c)))"
    unfolding m_sum_def using wf by (intro arg_cong [where f = sum_list] map_cong) (auto simp: pending_wf_def)
  moreover have "m_count (of_peer network pid) (pending c) \<le> 64"
    using ok by (simp add: pending_ok_def MAX_PENDING_TRANSACTIONS_PER_PEER_def)
  ultimately show ?thesis
    using ok wf
    by (simp add: pending_ok_def MAX_PENDING_BYTES_def MAX_PENDING_PIECES_def m_count_def of_peer_def [abs_def] list_all_iff)
qed

text \<open>A core with a route codec and two pieces of a message on the wire, for the concrete examples.\<close>

definition toy_packet :: rpc_packet where
  "toy_packet = \<lparr>rp_from_peer = 1, rp_to_peer = 100, rp_transaction_id = 9,
     rp_descriptor = Some \<lparr>domain_name = ''a'', proto_name = ''PeerCenterRpc'', service_name = ''PeerCenterRpc'', method_index = 1\<rparr>,
     rp_body = [], rp_is_request = True, rp_total_pieces = 2, rp_piece_idx = 0, rp_trace_id = 0,
     rp_compression_info = None\<rparr>"

definition toy_rpc_lib :: "(unit, unit) rpc_lib" where
  "toy_rpc_lib = \<lparr>route_codecs = toy_route_lib, center_codecs = toy_pc_lib,
     decode_rpc_packet = (\<lambda>bs. Inr (toy_packet\<lparr>rp_body := bs, rp_piece_idx := (if bs = [] then 1 else 0)\<rparr>)),
     encode_rpc_packet = rp_body,
     decode_rpc_request = (\<lambda>bs. Inr \<lparr>rq_descriptor = None, rq_request = bs, rq_timeout_ms = 0\<rparr>),
     encode_rpc_request = rq_request,
     decode_rpc_response = (\<lambda>bs. Inr \<lparr>rr_response = bs, rr_error = None, rr_runtime_us = 0\<rparr>),
     encode_rpc_response = rr_response,
     decode_sync_response = (\<lambda>bs. Inr \<lparr>sr_is_initiator = True, sr_session_id = 4, sr_error = None\<rparr>),
     random_i64 = (\<lambda>k. Inr (of_nat (k + 5)))\<rparr>"

definition toy_core :: "(unit, unit) rpc_core" where
  "toy_core = \<lparr>core_routes = route_new 100, core_center = [], configured_groups = [], peer_initiator = [],
     pending = [], pending_bytes = 0, pending_pieces = 0, outstanding_routes = [],
     core_public_key = replicate 32 3, core_hostname = ''relay'', core_server_peer_id = 100, core_draws = 0\<rparr>"

lemma toy_core_reachable: "core_reachable toy_rpc_lib 100 toy_core"
  by (rule core_start [where k = "replicate 32 3" and hostname = "''relay''"]) (simp add: core_new_def toy_core_def)

definition toy_pending :: "(unit, unit) rpc_core" where
  "toy_pending = snd (core_handle_request toy_rpc_lib ''a'' 1 [7, 8] 50 toy_core)"

lemma replicate_2: "replicate 2 x = [x, x]"
  by (simp add: eval_nat_numeral)

lemma toy_pending_eq:
  "toy_pending = toy_core\<lparr>
     pending := [(rpc_key_for ''a'' 1 9 True, \<lparr>pd_total_pieces = 2, pd_pieces = [Some [7, 8], None],
       pd_first = Some (toy_packet\<lparr>rp_body := [7, 8]\<rparr>), pd_received_pieces = 1, pd_body_bytes = 2, pd_updated_at_ms = 50\<rparr>)],
     pending_bytes := 2, pending_pieces := 2\<rparr>"
  by (simp add: toy_pending_def core_handle_request_def op_defs toy_rpc_lib_def toy_packet_def validate_envelope_def
      toy_core_def merge_packet_def Let_def MAX_RPC_PIECES_def clean_pending_def open_pending_def add_piece_def
      MAX_PENDING_TRANSACTIONS_PER_PEER_def MAX_PENDING_PIECES_def usize_add_def new_pending_def replicate_2
      MAX_PENDING_BYTES_def store_piece_def)

theorem pending_fragments_are_bounded_witness:
  "pending_bytes toy_pending = 2 \<and> list_all (\<lambda>p. None \<in> set (pd_pieces p)) (m_values (pending toy_pending))
   \<and> sum_list (map (\<lambda>p. sum_list (map piece_bytes (pd_pieces p))) (m_values (pending toy_pending))) = 2"
proof -
  have "core_reachable toy_rpc_lib 100 toy_pending"
    unfolding toy_pending_def by (intro core_requested toy_core_reachable)
  from pending_fragments_are_bounded [OF this, of "''a''" 1] show ?thesis
    by (simp add: toy_pending_eq)
qed

end
