(* ===== verification/Reassembly.thy ===== *)
theory Reassembly
  imports Rpc_Core
begin

text \<open>
  How fragmented messages come together again in \<open>merge_packet\<close> of \<open>cloudflare/wasm/src/rpc.rs\<close>, and what
  becomes of the answers to route updates.  The state while a message is arriving says which pieces
  have come (\<open>arrived\<close>) and that the rest fits the limits (\<open>arriving\<close>).
\<close>

subsection \<open>Pieces\<close>

text \<open>Packets that arrive one after the other, each at its time.\<close>

fun deliver ::
  "string \<Rightarrow> u32 \<Rightarrow> (rpc_packet \<times> u64) list \<Rightarrow> ('x, 'y) rpc_core \<Rightarrow>
     (error + merged_packet) list \<times> ('x, 'y) rpc_core" where
  "deliver network pid [] c = ([], c)"
| "deliver network pid ((packet, now_ms) # packets) c =
     (case merge_packet network pid packet now_ms c of (r, c) \<Rightarrow>
        (case deliver network pid packets c of (rs, c) \<Rightarrow> (r # rs, c)))"

text \<open>Piece \<open>i\<close> of a message whose body is cut into \<open>bodies\<close>.\<close>

definition piece_of :: "rpc_packet \<Rightarrow> bytes list \<Rightarrow> nat \<Rightarrow> rpc_packet" where
  "piece_of base bodies i =
     base\<lparr>rp_body := bodies ! i, rp_total_pieces := of_nat (length bodies), rp_piece_idx := of_nat i\<rparr>"

text \<open>The pieces in \<open>D\<close>, and only they, have arrived, the last one now.\<close>

definition arrived :: "rpc_packet \<Rightarrow> bytes list \<Rightarrow> u64 \<Rightarrow> nat set \<Rightarrow> pending_rpc \<Rightarrow> bool" where
  "arrived base bodies t D p \<longleftrightarrow> pd_total_pieces p = of_nat (length bodies)
     \<and> pd_pieces p = map (\<lambda>i. if i \<in> D then Some (bodies ! i) else None) [0..<length bodies]
     \<and> (0 \<in> D \<longrightarrow> pd_first p = Some (piece_of base bodies 0)) \<and> pd_updated_at_ms p = t"

lemma fold_remove_get:
  "k \<notin> set ks \<Longrightarrow> m_get (pending (fold remove_pending ks c)) k = m_get (pending c) k"
proof (induction ks arbitrary: c)
  case (Cons a ks)
  then show ?case by (simp add: remove_pending_def m_get_del split: option.split)
qed simp

lemma clean_pending_keeps:
  assumes "m_ok (pending c)" and "m_get (pending c) k = Some p" and "\<not> pending_expired t p"
  shows "m_get (pending (clean_pending t c)) k = Some p"
proof -
  have "k \<notin> set (map fst (filter (\<lambda>(_, p). pending_expired t p) (pending c)))"
    using assms by (auto dest: eq_key_imp_eq_value)
  then show ?thesis using assms(2) unfolding clean_pending_def by (subst fold_remove_get)
qed

lemma remove_pending_le:
  "pending_bytes (remove_pending k c) \<le> pending_bytes c" "pending_pieces (remove_pending k c) \<le> pending_pieces c"
  "m_count P (pending (remove_pending k c)) \<le> m_count P (pending c)"
  using m_count_del [of P k "pending c"] by (simp_all add: remove_pending_def split: option.split)

lemma clean_pending_le:
  "pending_bytes (clean_pending t c) \<le> pending_bytes c" "pending_pieces (clean_pending t c) \<le> pending_pieces c"
  "m_count P (pending (clean_pending t c)) \<le> m_count P (pending c)"
proof -
  have "pending_bytes (fold remove_pending ks c) \<le> pending_bytes c
      \<and> pending_pieces (fold remove_pending ks c) \<le> pending_pieces c
      \<and> m_count P (pending (fold remove_pending ks c)) \<le> m_count P (pending c)" for ks
  proof (induction ks arbitrary: c)
    case (Cons a ks)
    from Cons [of "remove_pending a c"] remove_pending_le(1,2) [of a c] remove_pending_le(3) [where P = P and k = a and c = c] show ?case
      by (simp only: fold_simps) (meson le_trans)
  qed simp
  then show "pending_bytes (clean_pending t c) \<le> pending_bytes c" "pending_pieces (clean_pending t c) \<le> pending_pieces c"
    "m_count P (pending (clean_pending t c)) \<le> m_count P (pending c)"
    by (simp_all only: clean_pending_def)
qed

lemma unat_of_nat_small: "n < 2 ^ 32 \<Longrightarrow> unat (of_nat n :: u32) = n"
  by (simp add: unsigned_of_nat take_bit_nat_eq_self)

text \<open>The bytes of the pieces that have not arrived.\<close>

definition missing_bytes :: "bytes list \<Rightarrow> nat set \<Rightarrow> nat" where
  "missing_bytes bodies D = (\<Sum>i \<in> {..<length bodies} - D. length (bodies ! i))"

lemma missing_bytes_insert:
  "i < length bodies \<Longrightarrow> i \<notin> D \<Longrightarrow> missing_bytes bodies D = length (bodies ! i) + missing_bytes bodies (insert i D)"
  unfolding missing_bytes_def
  by (subst sum.remove [of _ i]) (auto simp: Diff_insert2 [symmetric] intro!: sum.cong)

lemma arrived_received:
  assumes "pending_wf p" and "arrived base bodies t D p" and "D \<subseteq> {..<length bodies}"
  shows "pd_received_pieces p = card D"
proof -
  let ?x = "\<lambda>i. if i \<in> D then Some (bodies ! i) else None"
  have "filter (\<lambda>x. x \<noteq> None) (map ?x [0..<length bodies]) = map ?x (filter (\<lambda>i. i \<in> D) [0..<length bodies])"
    by (simp add: filter_map comp_def)
  moreover have "length (filter (\<lambda>i. i \<in> D) [0..<length bodies]) = card D"
    using assms(3) by (subst distinct_card [symmetric]) (auto intro!: arg_cong [where f = card])
  ultimately show ?thesis using assms(1,2) by (simp add: pending_wf_def arrived_def)
qed

lemma arrived_store:
  assumes "arrived base bodies t D p" and "i < length bodies" and "length bodies < 2 ^ 32"
  shows "arrived base bodies now_ms (insert i D) (store_piece now_ms (piece_of base bodies i) prev p)"
proof -
  have i: "unat (of_nat i :: u32) = i" using assms(2,3) by (intro unat_of_nat_small) simp
  have "(pd_pieces p)[i := Some (bodies ! i)] =
      map (\<lambda>j. if j \<in> insert i D then Some (bodies ! j) else None) [0..<length bodies]"
    using assms(1,2) by (intro nth_equalityI) (auto simp: arrived_def nth_list_update)
  moreover have "unat (rp_piece_idx (piece_of base bodies i)) = i" "rp_body (piece_of base bodies i) = bodies ! i"
    using i by (simp_all add: piece_of_def)
  ultimately show ?thesis using assms(1) by (simp add: arrived_def store_piece_sel)
qed

text \<open>A piece that has not arrived, into its open transaction.\<close>

lemma add_missing_piece:
  fixes now_ms :: u64
  assumes ok: "pending_ok c" and p: "m_get (pending c) key = Some p" and a: "arrived base bodies t D p"
    and n: "length bodies < 2 ^ 32" and i: "i < length bodies" "i \<notin> D" and D: "D \<subseteq> {..<length bodies}"
    and budget: "pending_bytes c + missing_bytes bodies D \<le> MAX_PENDING_BYTES"
  defines "p' \<equiv> store_piece now_ms (piece_of base bodies i) 0 p"
  shows "add_piece now_ms key (piece_of base bodies i) c =
    (if insert i D = {..<length bodies} then (Inr (Some (completed_packet p')), remove_pending key c)
     else (Inr None, c\<lparr>pending := m_put key p' (pending c), pending_bytes := pending_bytes c + length (bodies ! i)\<rparr>))"
    and "arrived base bodies now_ms (insert i D) p'"
proof -
  have len: "unat (of_nat (length bodies) :: u32) = length bodies" using n by (intro unat_of_nat_small) simp
  have ui: "unat (of_nat i :: u32) = i" using i n by (intro unat_of_nat_small) simp
  have lt: "rp_piece_idx (piece_of base bodies i) < rp_total_pieces (piece_of base bodies i)"
    using i by (simp add: piece_of_def word_less_nat_alt len ui)
  have total: "pd_total_pieces p = rp_total_pieces (piece_of base bodies i)"
    using a by (simp add: arrived_def piece_of_def)
  have prev: "piece_bytes (pd_pieces p ! unat (rp_piece_idx (piece_of base bodies i))) = 0"
    using a i by (simp add: arrived_def piece_of_def ui piece_bytes_def)
  show arr: "arrived base bodies now_ms (insert i D) p'"
    unfolding p'_def using a i(1) n by (rule arrived_store)
  have sub: "insert i D \<subseteq> {..<length bodies}" using i D by simp
  have small: "pending_bytes c + length (bodies ! i) \<le> MAX_PENDING_BYTES"
    using budget missing_bytes_insert [OF i] by linarith
  have full: "card (insert i D) = length bodies \<longleftrightarrow> insert i D = {..<length bodies}"
  proof
    assume "card (insert i D) = length bodies"
    then show "insert i D = {..<length bodies}" by (intro card_subset_eq [OF _ sub]) simp_all
  qed (simp only: card_lessThan)
  show "add_piece now_ms key (piece_of base bodies i) c =
    (if insert i D = {..<length bodies} then (Inr (Some (completed_packet p')), remove_pending key c)
     else (Inr None, c\<lparr>pending := m_put key p' (pending c), pending_bytes := pending_bytes c + length (bodies ! i)\<rparr>))"
  proof (cases rule: add_piece_cases [OF ok p total lt, where now_ms = now_ms, unfolded prev, folded p'_def])
    case (1 e)
    then show ?thesis using small by (simp add: usize_add_def piece_of_def MAX_PENDING_BYTES_def)
  next
    case 2
    then have "pd_received_pieces p' = card (insert i D)" using arrived_received [OF _ arr sub] by simp
    moreover have "pd_received_pieces p' < length bodies"
      using 2(3) arr by (simp add: incomplete_def arrived_def len)
    ultimately show ?thesis using 2(1) full by (simp add: piece_of_def)
  next
    case (3 c')
    then have "pd_received_pieces p' = card (insert i D)" using arrived_received [OF _ arr sub] by simp
    with 3 full show ?thesis by (simp add: piece_of_def len)
  qed
qed

lemma completed_arrived:
  assumes "arrived base bodies t {..<length bodies} p" and "bodies \<noteq> []"
  shows "completed_packet p = base\<lparr>rp_body := concat bodies, rp_total_pieces := 1, rp_piece_idx := 0\<rparr>"
proof -
  have "map the (pd_pieces p) = bodies" using assms(1) by (intro nth_equalityI) (auto simp: arrived_def)
  with assms show ?thesis by (simp add: completed_packet_def arrived_def piece_of_def)
qed

text \<open>The state while a message is arriving: what has come, and room for the rest.\<close>

definition arriving ::
  "rpc_key \<Rightarrow> rpc_packet \<Rightarrow> bytes list \<Rightarrow> u64 \<Rightarrow> nat set \<Rightarrow> ('x, 'y) rpc_core \<Rightarrow> bool" where
  "arriving key base bodies t D c \<longleftrightarrow> pending_ok c \<and> D \<subseteq> {..<length bodies}
     \<and> pending_bytes c + missing_bytes bodies D \<le> MAX_PENDING_BYTES
     \<and> (if D = {} then m_get (pending c) key = None
          \<and> m_count (of_peer (rk_network key) (rk_peer_id key)) (pending c) < MAX_PENDING_TRANSACTIONS_PER_PEER
          \<and> pending_pieces c + length bodies \<le> MAX_PENDING_PIECES
        else \<exists>p. m_get (pending c) key = Some p \<and> arrived base bodies t D p)"

lemma add_piece_arriving:
  assumes ok: "pending_ok c" and p: "m_get (pending c) key = Some p" and a: "arrived base bodies t0 D p"
    and n: "2 \<le> length bodies" "length bodies \<le> 32768" and i: "i < length bodies" "i \<notin> D" and D: "D \<subseteq> {..<length bodies}"
    and budget: "pending_bytes c + missing_bytes bodies D \<le> MAX_PENDING_BYTES"
  obtains "insert i D = {..<length bodies}"
      "fst (add_piece t key (piece_of base bodies i) c) =
         Inr (Some (base\<lparr>rp_body := concat bodies, rp_total_pieces := 1, rp_piece_idx := 0\<rparr>))"
  | c' where "insert i D \<noteq> {..<length bodies}" "add_piece t key (piece_of base bodies i) c = (Inr None, c')"
      "arriving key base bodies t (insert i D) c'"
proof (cases "insert i D = {..<length bodies}")
  case True
  then have "arrived base bodies t {..<length bodies} (store_piece t (piece_of base bodies i) 0 p)"
    using add_missing_piece(2) [OF ok p a _ i D budget, where now_ms = t] n by simp
  from completed_arrived [OF this] have "completed_packet (store_piece t (piece_of base bodies i) 0 p) =
      base\<lparr>rp_body := concat bodies, rp_total_pieces := 1, rp_piece_idx := 0\<rparr>"
    using n by fastforce
  with True add_missing_piece(1) [OF ok p a _ i D budget, where now_ms = t] n show thesis
    by (intro that(1)) simp_all
next
  case False
  define c' where "c' = c\<lparr>pending := m_put key (store_piece t (piece_of base bodies i) 0 p) (pending c),
    pending_bytes := pending_bytes c + length (bodies ! i)\<rparr>"
  have add: "add_piece t key (piece_of base bodies i) c = (Inr None, c')"
    "arrived base bodies t (insert i D) (store_piece t (piece_of base bodies i) 0 p)"
    using add_missing_piece [OF ok p a _ i D budget, where now_ms = t] n False by (simp_all add: c'_def)
  have "rp_piece_idx (piece_of base bodies i) < rp_total_pieces (piece_of base bodies i)"
    using i n by (simp add: piece_of_def word_less_nat_alt unat_of_nat_small)
  moreover have "pd_total_pieces p = rp_total_pieces (piece_of base bodies i)"
    using a by (simp add: arrived_def piece_of_def)
  ultimately have "pending_ok c'"
    using pending_ok_add_piece [OF ok p, of "piece_of base bodies i" t] by (simp add: add(1))
  then have "arriving key base bodies t (insert i D) c'"
    using i D budget add(2) missing_bytes_insert [OF i] by (simp add: arriving_def c'_def m_get_put)
  with that(2) [OF False add(1)] show thesis by simp
qed

text \<open>A piece that has arrived before, again.\<close>

lemma add_repeated_piece:
  assumes ok: "pending_ok c" and p: "m_get (pending c) key = Some p" and a: "arrived base bodies t0 D p"
    and n: "2 \<le> length bodies" "length bodies \<le> 32768" and i: "i \<in> D" and D: "D \<subset> {..<length bodies}"
  obtains c' p' where "add_piece t key (piece_of base bodies i) c = (Inr None, c')" "pending_ok c'"
    "m_get (pending c') key = Some p'" "arrived base bodies t D p'" "pending_bytes c' = pending_bytes c"
proof -
  let ?pk = "piece_of base bodies i" and ?prev = "length (bodies ! i)"
  define p' where "p' = store_piece t ?pk ?prev p"
  have il: "i < length bodies" and sub: "D \<subseteq> {..<length bodies}" using i D by auto
  have ui: "unat (of_nat i :: u32) = i" "unat (of_nat (length bodies) :: u32) = length bodies"
    using il n by (simp_all add: unat_of_nat_small)
  have lt: "rp_piece_idx ?pk < rp_total_pieces ?pk" using il by (simp add: piece_of_def word_less_nat_alt ui)
  have total: "pd_total_pieces p = rp_total_pieces ?pk" using a by (simp add: arrived_def piece_of_def)
  have prev: "piece_bytes (pd_pieces p ! unat (rp_piece_idx ?pk)) = ?prev"
    using a i il by (simp add: arrived_def piece_of_def ui piece_bytes_def)
  have arr: "arrived base bodies t D p'"
    using arrived_store [OF a il, where now_ms = t and prev = ?prev] n i by (simp add: p'_def insert_absorb)
  have wf: "pending_wf p" using pending_ok_get [OF ok p] by simp
  have "?prev \<le> pd_body_bytes p"
  proof -
    have "?prev \<in> set (map piece_bytes (pd_pieces p))"
      using a i il unfolding arrived_def by (auto simp: piece_bytes_def image_iff intro!: bexI [of _ i])
    then show ?thesis using wf member_le_sum_list [of ?prev "map piece_bytes (pd_pieces p)"] by (simp add: pending_wf_def)
  qed
  also have "pd_body_bytes p \<le> pending_bytes c"
    using ok p m_sum_ge [of "pending c" key p pd_body_bytes] by (simp add: pending_ok_def)
  finally have same: "pending_bytes c - ?prev + length (rp_body ?pk) = pending_bytes c" by (simp add: piece_of_def)
  have max: "pending_bytes c \<le> MAX_PENDING_BYTES" using ok by (simp add: pending_ok_def)
  let ?c = "c\<lparr>pending := m_put key p' (pending c), pending_bytes := pending_bytes c\<rparr>"
  have "add_piece t key ?pk c = (Inr None, ?c)"
  proof (cases rule: add_piece_cases [OF ok p total lt, where now_ms = t, unfolded prev, folded p'_def])
    case (1 e)
    then show ?thesis using same max by (simp add: usize_add_def MAX_PENDING_BYTES_def)
  next
    case 2
    then show ?thesis using same by simp
  next
    case (3 c')
    then have "card D = length bodies" using arrived_received [OF _ arr sub] by (simp add: piece_of_def ui)
    then show ?thesis using card_subset_eq [OF _ sub] D by simp
  qed
  moreover from this have "pending_ok ?c" using pending_ok_add_piece [OF ok p total lt, where now_ms = t] by simp
  ultimately show thesis using arr by (intro that [of ?c p']) (simp_all add: m_get_put)
qed

lemma merge_open:
  assumes arr: "arriving key base bodies t0 D c" and gap: "sat_sub t t0 < RPC_FRAGMENT_TTL_MS" and D: "D \<noteq> {}"
    and i: "i < length bodies" and n: "2 \<le> length bodies" "length bodies \<le> 32768" and d: "rp_descriptor base \<noteq> None"
    and key: "key = rpc_key_for network pid (rp_transaction_id base) (rp_is_request base)"
  obtains p where "m_get (pending (clean_pending t c)) key = Some p" "arrived base bodies t0 D p"
    "merge_packet network pid (piece_of base bodies i) t c =
       add_piece t key (piece_of base bodies i) (clean_pending t c)"
proof -
  let ?c = "clean_pending t c" and ?pk = "piece_of base bodies i" and ?n = "of_nat (length bodies) :: u32"
  obtain desc where desc: "rp_descriptor base = Some desc" using d by auto
  have len: "unat ?n = length bodies" using n by (simp add: unat_of_nat_small)
  have ui: "unat (of_nat i :: u32) = i" using i n by (simp add: unat_of_nat_small)
  have head: "?n \<noteq> 0" "\<not> MAX_RPC_PIECES < ?n" "\<not> ?n \<le> of_nat i" "?n \<noteq> 1"
    using n i len ui unat_of_nat_small [of "length bodies"]
    by (auto simp: word_le_nat_alt word_less_nat_alt MAX_RPC_PIECES_def dest: arg_cong [where f = unat])
  obtain p where p: "m_get (pending c) key = Some p" "arrived base bodies t0 D p"
    using arr D by (auto simp: arriving_def)
  have "\<not> pending_expired t p"
    using p(2) gap by (simp add: arrived_def pending_expired_def not_le)
  then have p1: "m_get (pending ?c) key = Some p"
    using arr p by (intro clean_pending_keeps) (auto simp: arriving_def pending_ok_def)
  have "open_pending t key ?n ?c = (Inr (), ?c)" using p1 by (simp add: open_pending_def op_defs)
  then have "merge_packet network pid ?pk t c = add_piece t key ?pk ?c"
    using head desc p1 p(2) key by (simp add: merge_packet_def piece_of_def op_defs Let_def arrived_def)
  with p1 p(2) show thesis by (rule that)
qed

lemma merge_repeated:
  assumes arr: "arriving key base bodies t0 D c" and gap: "sat_sub t t0 < RPC_FRAGMENT_TTL_MS"
    and i: "i \<in> D" and D: "D \<subset> {..<length bodies}"
    and n: "2 \<le> length bodies" "length bodies \<le> 32768" and d: "rp_descriptor base \<noteq> None"
    and key: "key = rpc_key_for network pid (rp_transaction_id base) (rp_is_request base)"
  obtains c' where "merge_packet network pid (piece_of base bodies i) t c = (Inr None, c')"
    "arriving key base bodies t D c'"
proof -
  have ne: "D \<noteq> {}" and il: "i < length bodies" using i D by auto
  obtain p where p: "m_get (pending (clean_pending t c)) key = Some p" "arrived base bodies t0 D p"
    and eq: "merge_packet network pid (piece_of base bodies i) t c =
       add_piece t key (piece_of base bodies i) (clean_pending t c)"
    by (rule merge_open [OF arr gap ne il n d key])
  have ok: "pending_ok (clean_pending t c)" using arr by (simp add: arriving_def)
  obtain c' p' where c': "add_piece t key (piece_of base bodies i) (clean_pending t c) = (Inr None, c')" "pending_ok c'"
    "m_get (pending c') key = Some p'" "arrived base bodies t D p'" "pending_bytes c' = pending_bytes (clean_pending t c)"
    by (rule add_repeated_piece [OF ok p n i D])
  have "pending_bytes c' + missing_bytes bodies D \<le> MAX_PENDING_BYTES"
    using arr clean_pending_le(1) [of t c] c'(5) by (simp add: arriving_def)
  with c' ne D have "arriving key base bodies t D c'" by (auto simp: arriving_def)
  with that eq c'(1) show thesis by simp
qed

text \<open>One piece of the message arrives.\<close>

lemma merge_arriving:
  assumes arr: "arriving key base bodies t0 D c" and gap: "D = {} \<or> sat_sub t t0 < RPC_FRAGMENT_TTL_MS" and i: "i < length bodies" "i \<notin> D"
    and n: "2 \<le> length bodies" "length bodies \<le> 32768" and d: "rp_descriptor base \<noteq> None"
    and key: "key = rpc_key_for network pid (rp_transaction_id base) (rp_is_request base)"
  obtains "insert i D = {..<length bodies}" "fst (merge_packet network pid (piece_of base bodies i) t c) =
      Inr (Some (base\<lparr>rp_body := concat bodies, rp_total_pieces := 1, rp_piece_idx := 0\<rparr>))"
  | c' where "insert i D \<noteq> {..<length bodies}" "merge_packet network pid (piece_of base bodies i) t c = (Inr None, c')"
      "arriving key base bodies t (insert i D) c'"
proof -
  let ?c = "clean_pending t c" and ?pk = "piece_of base bodies i" and ?n = "of_nat (length bodies) :: u32"
  obtain desc where desc: "rp_descriptor base = Some desc" using d by auto
  have len: "unat ?n = length bodies" using n by (simp add: unat_of_nat_small)
  have ui: "unat (of_nat i :: u32) = i" using i n by (simp add: unat_of_nat_small)
  have ok: "pending_ok ?c" and D: "D \<subseteq> {..<length bodies}" using arr by (simp_all add: arriving_def)
  have budget: "pending_bytes ?c + missing_bytes bodies D \<le> MAX_PENDING_BYTES"
    using arr clean_pending_le(1) [of t c] by (simp add: arriving_def)
  have head: "?n \<noteq> 0" "\<not> MAX_RPC_PIECES < ?n" "\<not> ?n \<le> of_nat i" "?n \<noteq> 1"
    using n i len ui unat_of_nat_small [of "length bodies"]
    by (auto simp: word_le_nat_alt word_less_nat_alt MAX_RPC_PIECES_def dest: arg_cong [where f = unat])
  show thesis
  proof (cases "D = {}")
    case True
    then have none: "m_get (pending ?c) key = None"
      using arr clean_pending_get [of t c key] by (cases "m_get (pending ?c) key") (auto simp: arriving_def)
    define c1 where "c1 = ?c\<lparr>pending := m_put key (new_pending t ?n) (pending ?c),
      pending_pieces := pending_pieces ?c + unat ?n\<rparr>"
    have count: "m_count (of_peer (rk_network key) (rk_peer_id key)) (pending ?c) < MAX_PENDING_TRANSACTIONS_PER_PEER"
      "pending_pieces ?c + unat ?n \<le> MAX_PENDING_PIECES"
      using arr True clean_pending_le(2) [of t c] clean_pending_le(3) [of "of_peer (rk_network key) (rk_peer_id key)" t c]
      by (simp_all add: arriving_def len)
    have open1: "open_pending t key ?n ?c = (Inr (), c1)"
    proof (cases rule: open_pending_cases [of t key ?n ?c])
      case (1 e)
      have "m_count (of_peer (rk_network key) (rk_peer_id key)) (pending ?c) =
          length (filter (\<lambda>k. rk_network k = rk_network key \<and> rk_peer_id k = rk_peer_id key) (m_keys (pending ?c)))"
        by (simp add: m_count_def of_peer_def [abs_def])
      moreover have "usize_add (pending_pieces ?c) (unat ?n) \<le> MAX_PENDING_PIECES"
        using count(2) by (simp add: usize_add_def)
      ultimately have "open_pending t key ?n ?c = (Inr (), c1)"
        using none count(1) by (simp add: open_pending_def op_defs c1_def)
      then show ?thesis .
    qed (use none in \<open>simp_all add: c1_def\<close>)
    have c1: "pending_ok c1" "m_get (pending c1) key = Some (new_pending t ?n)"
      "pending_bytes c1 + missing_bytes bodies D \<le> MAX_PENDING_BYTES"
      using pending_ok_open [OF ok, of ?n t key] open1 n budget by (simp_all add: len) (simp_all add: c1_def m_get_put)
    have new: "arrived base bodies t D (new_pending t ?n)"
      by (simp add: arrived_def new_pending_def True len map_replicate_const)
    have eq: "merge_packet network pid ?pk t c = add_piece t key ?pk c1"
      using head desc none open1 key by (simp add: merge_packet_def piece_of_def op_defs Let_def)
    show thesis
      by (cases rule: add_piece_arriving [OF c1(1,2) new n i D c1(3)]) (use that eq in auto)
  next
    case False
    with gap have gap': "sat_sub t t0 < RPC_FRAGMENT_TTL_MS" by simp
    obtain p where p: "m_get (pending ?c) key = Some p" "arrived base bodies t0 D p"
      and eq: "merge_packet network pid ?pk t c = add_piece t key ?pk ?c"
      by (rule merge_open [OF arr gap' False i(1) n d key])
    show thesis
      by (cases rule: add_piece_arriving [OF ok p n i D budget]) (use that eq in auto)
  qed
qed

text \<open>Pieces arrive, repeated or not, until the last one, which is the first of its number, completes the message.\<close>

lemma deliver_arriving:
  assumes "arriving key base bodies t0 D c" and "set (map fst xs) \<union> D = {..<length bodies}"
    and "xs \<noteq> []" and "fst (last xs) \<notin> D \<union> set (map fst (butlast xs))"
    and "successively (\<lambda>t t'. sat_sub t' t < RPC_FRAGMENT_TTL_MS) (map snd xs)"
    and "D = {} \<or> sat_sub (snd (hd xs)) t0 < RPC_FRAGMENT_TTL_MS"
    and n: "2 \<le> length bodies" "length bodies \<le> 32768" and d: "rp_descriptor base \<noteq> None"
    and key: "key = rpc_key_for network pid (rp_transaction_id base) (rp_is_request base)"
  shows "fst (deliver network pid (map (\<lambda>(i, t). (piece_of base bodies i, t)) xs) c) =
    replicate (length xs - 1) (Inr None) @
      [Inr (Some (base\<lparr>rp_body := concat bodies, rp_total_pieces := 1, rp_piece_idx := 0\<rparr>))]"
  using assms(1-6)
proof (induction xs arbitrary: t0 D c)
  case (Cons x xs)
  obtain i t where x: "x = (i, t)" by (cases x)
  have i: "i < length bodies" using Cons.prems(2) by (auto simp: x)
  have gap: "D = {} \<or> sat_sub t t0 < RPC_FRAGMENT_TTL_MS" using Cons.prems(6) by (simp add: x)
  show ?case
  proof (cases "xs = []")
    case True
    then have new: "i \<notin> D" and full: "insert i D = {..<length bodies}" using Cons.prems(2,4) by (simp_all add: x)
    show ?thesis
      by (cases rule: merge_arriving [OF Cons.prems(1) gap i new n d key])
         (use full True in \<open>simp_all add: x case_prod_unfold\<close>)
  next
    case False
    have last: "fst (last xs) \<in> set (map fst xs)" using False by simp
    have more: "fst (last xs) \<notin> insert i D" "fst (last xs) < length bodies"
      using Cons.prems(2,4) False last by (auto simp: x)
    obtain c' where c': "merge_packet network pid (piece_of base bodies i) t c = (Inr None, c')"
      "arriving key base bodies t (insert i D) c'"
    proof (cases "i \<in> D")
      case True
      then have "D \<noteq> {}" and "D \<subset> {..<length bodies}" using Cons.prems(2) more by auto
      with True gap show thesis
        using merge_repeated [OF Cons.prems(1) _ True _ n d key] that by (metis insert_absorb)
    next
      case new: False
      have "insert i D \<noteq> {..<length bodies}" using more by auto
      then show thesis
        by (cases rule: merge_arriving [OF Cons.prems(1) gap i new n d key]) (use that in simp_all)
    qed
    have "fst (deliver network pid (map (\<lambda>(i, t). (piece_of base bodies i, t)) xs) c') =
        replicate (length xs - 1) (Inr None) @
          [Inr (Some (base\<lparr>rp_body := concat bodies, rp_total_pieces := 1, rp_piece_idx := 0\<rparr>))]"
      using Cons.prems(2,4,5) False by (intro Cons.IH [OF c'(2)]) (auto simp: x neq_Nil_conv)
    moreover have "length xs = Suc (length xs - 1)" using False by simp
    ultimately show ?thesis
      using c'(1) by (simp add: x case_prod_unfold del: replicate.simps) (metis append_Cons replicate_Suc)
  qed
qed simp

text \<open>C12: Fragments may come in any order and repeatedly: when a message was cut into pieces, which arrive
  in some order, some of them more than once, none more than ten seconds after the one before, and the
  server has room for them, then nothing is delivered before the last missing piece, which yields
  exactly the message, with its body put together in the order of the piece numbers.\<close>

theorem fragments_reassemble_in_any_order:
  assumes "core_reachable lib me c"
    and "key = rpc_key_for network pid (rp_transaction_id base) (rp_is_request base)"
    and "m_get (pending c) key = None"
    and "length (filter (\<lambda>k. rk_network k = network \<and> rk_peer_id k = pid) (m_keys (pending c))) < 64"
    and "pending_pieces c + length bodies \<le> 32768"
    and "pending_bytes c + sum_list (map length bodies) \<le> 32 * 1024 * 1024"
    and "2 \<le> length bodies" and "rp_descriptor base \<noteq> None"
    and "set (map fst order) = {..<length bodies}"
    and "fst (last order) \<notin> set (map fst (butlast order))"
    and "successively (\<lambda>t t'. sat_sub t' t < 10000) (map snd order)"
  shows "fst (deliver network pid (map (\<lambda>(i, t). (piece_of base bodies i, t)) order) c) =
    replicate (length order - 1) (Inr None) @
      [Inr (Some (base\<lparr>rp_body := concat bodies, rp_total_pieces := 1, rp_piece_idx := 0\<rparr>))]"
proof -
  have "missing_bytes bodies {} = sum_list (map length bodies)"
    by (simp add: missing_bytes_def sum_list_sum_nth atLeast0LessThan)
  then have "arriving key base bodies 0 {} c"
    using assms(2-6) core_reachable_ok [OF assms(1)]
    by (simp add: arriving_def core_ok_def m_count_def of_peer_def [abs_def] rpc_key_for_def
        MAX_PENDING_BYTES_def MAX_PENDING_TRANSACTIONS_PER_PEER_def MAX_PENDING_PIECES_def)
  moreover have "order \<noteq> []" using assms(7) arg_cong [OF assms(9), of card] by auto
  moreover have "length bodies \<le> 32768" using assms(5) by simp
  moreover have "successively (\<lambda>t t'. sat_sub t' t < RPC_FRAGMENT_TTL_MS) (map snd order)"
    using assms(11) by (simp only: RPC_FRAGMENT_TTL_MS_def)
  moreover have "set (map fst order) \<union> {} = {..<length bodies}" "fst (last order) \<notin> {} \<union> set (map fst (butlast order))"
    using assms(9,10) by simp_all
  ultimately show ?thesis
    using deliver_arriving [OF _ _ _ _ _ _ assms(7) _ assms(8,2), where D = "{}"] by metis
qed

theorem fragments_reassemble_in_any_order_witness:
  "fst (deliver ''a'' 1 [(piece_of toy_packet [[1, 2], [3], []] 2, 100), (piece_of toy_packet [[1, 2], [3], []] 0, 5000),
      (piece_of toy_packet [[1, 2], [3], []] 2, 6000), (piece_of toy_packet [[1, 2], [3], []] 1, 14000)] toy_core) =
   [Inr None, Inr None, Inr None,
    Inr (Some (toy_packet\<lparr>rp_body := [1, 2, 3], rp_total_pieces := 1, rp_piece_idx := 0\<rparr>))]"
proof -
  have "set (map fst [(2, 100 :: u64), (0, 5000), (2, 6000), (1, 14000)]) = {..<length [[1, 2], [3], [] :: bytes]}"
    by auto
  moreover have "successively (\<lambda>t t'. sat_sub t' t < 10000) (map snd [(2 :: nat, 100 :: u64), (0, 5000), (2, 6000), (1, 14000)])"
    by (simp add: sat_sub_def)
  ultimately show ?thesis
    using fragments_reassemble_in_any_order [OF toy_core_reachable refl, of "''a''" 1 toy_packet
        "[[1, 2], [3], []]" "[(2, 100), (0, 5000), (2, 6000), (1, 14000)]"]
    by (simp add: toy_core_def toy_packet_def rpc_key_for_def numeral_3_eq_3 numeral_2_eq_2)
qed

subsection \<open>Answers to route updates\<close>

lemma merge_same: "merge_packet network pid packet now_ms c = (r, c') \<Longrightarrow> same_services c c'"
  using keepsD [OF merge_packet_services, of c c network pid packet now_ms] by (simp add: same_services_def)

lemma on_routes_frame:
  "on_routes m c = (r, c') \<Longrightarrow> outstanding_routes c' = outstanding_routes c \<and> core_server_peer_id c' = core_server_peer_id c"
  by (auto simp: on_routes_def split: prod.splits)

text \<open>An answer after the deadline is an error, for which the caller closes the connection: the update that
  \<open>cleanExpired\<close> would repeat is then no longer of use.\<close>

lemma late_answer_is_an_error:
  assumes "\<And>key route. m_get (outstanding_routes c) key = Some route \<Longrightarrow> deadline_ms route < now_ms"
  shows "\<exists>e c'. core_handle_response lib network pid payload now_ms c = (Inl e, c')"
proof (cases "core_handle_response lib network pid payload now_ms c")
  case (Pair r c')
  then show ?thesis
    using assms by (cases r) (auto simp: core_handle_response_def op_inv Let_def simp del: map_of_eq_Some_iff split: if_splits)
qed

text \<open>C13: An answer to a route update counts once: \<open>handle_response\<close> accepts it only from the client
  and in the network the update went to, while the transaction is outstanding and within its deadline;
  accepting it closes exactly this transaction, so the same answer, sent again at any later time, is
  rejected.\<close>

theorem answer_counts_once:
  assumes "core_handle_response lib network pid payload now_ms c = (Inr True, c')"
  shows "\<exists>packet route. decode_rpc_packet lib payload = Inr packet
    \<and> rp_from_peer packet = pid \<and> rp_to_peer packet = core_server_peer_id c \<and> \<not> rp_is_request packet
    \<and> m_get (outstanding_routes c) (rpc_key_for network pid (rp_transaction_id packet) False) = Some route
    \<and> now_ms \<le> deadline_ms route
    \<and> outstanding_routes c' = m_del (rpc_key_for network pid (rp_transaction_id packet) False) (outstanding_routes c)
    \<and> core_handle_response lib network pid payload later c' =
        (Inl (Err ''RPC response does not match an outstanding transaction''), c')"
proof -
  obtain packet where packet: "decode_rpc_packet lib payload = Inr packet"
    using assms by (auto simp: core_handle_response_def op_inv)
  have env: "validate_envelope packet network pid False c = Inr ()"
    using assms packet by (auto simp: core_handle_response_def op_inv)
  let ?key = "rpc_key_for network pid (rp_transaction_id packet) False"
  obtain route where route: "m_get (outstanding_routes c) ?key = Some route" "now_ms \<le> deadline_ms route"
    using assms packet env by (auto simp: core_handle_response_def op_inv Let_def split: if_splits)
  obtain merged c1 where merged: "merge_packet network pid packet now_ms c = (Inr (Some merged), c1)"
    using assms packet env route
    by (auto simp: core_handle_response_def op_inv Let_def not_less simp del: map_of_eq_Some_iff split: if_splits option.splits)
  have c1: "outstanding_routes c1 = outstanding_routes c" "core_server_peer_id c1 = core_server_peer_id c"
    using merge_same [OF merged] by (simp_all add: same_services_def)
  have c': "outstanding_routes c' = m_del ?key (outstanding_routes c) \<and> core_server_peer_id c' = core_server_peer_id c"
    using assms packet env route merged c1
    by (auto simp: core_handle_response_def op_inv Let_def not_less simp del: map_of_eq_Some_iff
        dest!: on_routes_frame split: if_splits)
  have "validate_envelope packet network pid False c' = Inr ()"
    using env c' by (simp add: validate_envelope_def)
  then have "core_handle_response lib network pid payload later c' =
      (Inl (Err ''RPC response does not match an outstanding transaction''), c')"
    using packet c' by (simp add: core_handle_response_def op_defs Let_def m_get_del)
  with packet env route c' show ?thesis
    by (auto simp: validate_envelope_def split: if_splits)
qed

definition toy_answer_lib :: "(unit, unit) rpc_lib" where
  "toy_answer_lib = toy_rpc_lib\<lparr>decode_rpc_packet := (\<lambda>bs. Inr (toy_packet\<lparr>rp_transaction_id := 5, rp_is_request := False,
     rp_total_pieces := 1, rp_descriptor := Some \<lparr>domain_name = ''a'', proto_name = ''OspfRouteRpc'',
       service_name = ''OspfRouteRpc'', method_index = 1\<rparr>\<rparr>))\<rparr>"

definition toy_waiting :: "(unit, unit) rpc_core" where
  "toy_waiting = toy_core\<lparr>outstanding_routes := [(rpc_key_for ''a'' 1 5 False,
     \<lparr>deadline_ms = 3050, or_peer_info_versions = [], or_topology_version = None\<rparr>)]\<rparr>"

theorem answer_counts_once_witness:
  "fst (core_handle_response toy_answer_lib ''a'' 1 [] 2000 (snd (core_handle_response toy_answer_lib ''a'' 1 [] 60 toy_waiting)))
     = Inl (Err ''RPC response does not match an outstanding transaction'')"
proof -
  have "fst (core_handle_response toy_answer_lib ''a'' 1 [] 60 toy_waiting) = Inr True"
    by (simp add: core_handle_response_def op_defs toy_answer_lib_def toy_rpc_lib_def toy_packet_def validate_envelope_def
        toy_waiting_def toy_core_def Let_def merge_packet_def MAX_RPC_PIECES_def validate_compression_def is_service_def
        on_routes_def on_route_session_ack_def commit_route_update_def route_new_def with_group_def split: prod.split)
  then have "core_handle_response toy_answer_lib ''a'' 1 [] 60 toy_waiting =
      (Inr True, snd (core_handle_response toy_answer_lib ''a'' 1 [] 60 toy_waiting))"
    by (metis prod.collapse)
  from answer_counts_once [OF this, of 2000] show ?thesis by auto
qed

end
