(* ===== verification/Route_Sync.thy ===== *)
theory Route_Sync
  imports Rpc_Core Connection Rooms Config
begin

text \<open>
  The state of the Durable Object and \<open>cloudflare/src/core/rpc.ts\<close>, which drives the RPC core for the
  connections.

  Connections are objects with identity: a heap \<open>w_conns\<close> from identities to connections, of which
  those below \<open>w_next\<close> have been created.  \<open>connections\<close>, the rooms and the synchronisation states refer
  to them by identity.  A \<open>RouteSyncState\<close> is only reached through its map, so the map holds it by
  value.  Its key, \<open>JSON.stringify([networkName, peerId])\<close>, stands for the pair.

  \<open>Date.now()\<close> does not advance while a handler runs (the platform's documented behaviour), so every
  handler has one \<open>now\<close>.  A method of a \<open>SecurePeer\<close> that was freed throws.
\<close>

record sync_state =
  ss_peer :: cid
  inFlight :: bool
  dirty :: bool
  forceFull :: bool
  sentAt :: nat
  lastCompletedAt :: nat

record ('hs, 'x, 'y) world =
  w_conns :: "cid \<Rightarrow> 'hs connection"
  w_next :: cid
  w_connections :: "cid list"
  w_rooms :: rooms
  w_timer :: bool
  w_core :: "('x, 'y) rpc_core"
  w_sync :: "(string \<times> u32, sync_state) jsmap"
  w_store :: store
  w_draws :: nat

record ('hs, 'x, 'y) server_ctx =
  sx_lib :: "'hs lib"
  sx_rpc :: "('x, 'y) rpc_lib"
  sx_config :: server_config

definition ROUTE_SYNC_TIMEOUT_MS :: int where "ROUTE_SYNC_TIMEOUT_MS = 3000"
definition ROUTE_MAINTENANCE_INTERVAL_MS :: int where "ROUTE_MAINTENANCE_INTERVAL_MS = 10000"

subsection \<open>Reaching the parts of the world\<close>

definition conn_mod ::
  "cid \<Rightarrow> ('hs connection \<Rightarrow> 'hs connection) \<Rightarrow> ('hs, 'x, 'y) world \<Rightarrow> ('hs, 'x, 'y) world" where
  "conn_mod c f w = w\<lparr>w_conns := (w_conns w)(c := f (w_conns w c))\<rparr>"

definition on_conn :: "cid \<Rightarrow> ('hs connection, 'a) op \<Rightarrow> (('hs, 'x, 'y) world, 'a) op" where
  "on_conn c m = (\<lambda>w. case m (w_conns w c) of (r, k) \<Rightarrow> (r, conn_mod c (\<lambda>_. k) w))"

definition on_core :: "(('x, 'y) rpc_core, 'a) op \<Rightarrow> (('hs, 'x, 'y) world, 'a) op" where
  "on_core m = (\<lambda>w. case m (w_core w) of (r, k) \<Rightarrow> (r, w\<lparr>w_core := k\<rparr>))"

definition on_secure :: "cid \<Rightarrow> ('hs sec, 'a) op \<Rightarrow> (('hs, 'x, 'y) world, 'a) op" where
  "on_secure c m = (\<lambda>w. case secure (w_conns w c) of
     None \<Rightarrow> (Inl (Err ''null pointer passed to rust''), w)
   | Some p \<Rightarrow>
       (case m \<lparr>sc_peer = p, sc_store = w_store w, sc_draws = w_draws w\<rparr> of (r, s) \<Rightarrow>
          (r, (conn_mod c (\<lambda>k. k\<lparr>secure := Some (sc_peer s)\<rparr>) w)\<lparr>w_store := sc_store s, w_draws := sc_draws s\<rparr>)))"

definition routeSyncKey :: "'hs connection \<Rightarrow> string \<times> u32" where
  "routeSyncKey k = (networkName k, peerId k)"

definition sync_mod ::
  "string \<times> u32 \<Rightarrow> (sync_state \<Rightarrow> sync_state) \<Rightarrow> ('hs, 'x, 'y) world \<Rightarrow> ('hs, 'x, 'y) world" where
  "sync_mod key f w = (case m_get (w_sync w) key of
     None \<Rightarrow> w | Some st \<Rightarrow> w\<lparr>w_sync := m_put key (f st) (w_sync w)\<rparr>)"

subsection \<open>\<open>EasyTierRpc\<close>\<close>

definition addPeer :: "('hs, 'x, 'y) server_ctx \<Rightarrow> cid \<Rightarrow> (('hs, 'x, 'y) world, unit) op" where
  "addPeer cx c =
     mbind (mget (\<lambda>w. w_conns w c)) (\<lambda>peer.
     mbind (on_core (core_add_peer (sx_rpc cx) (networkName peer) (peerId peer) (remotePublicKey peer))) (\<lambda>_.
     mmod (\<lambda>w. w\<lparr>w_sync := m_del (routeSyncKey peer) (w_sync w)\<rparr>)))"

definition removePeer :: "('hs, 'x, 'y) server_ctx \<Rightarrow> cid \<Rightarrow> (('hs, 'x, 'y) world, unit) op" where
  "removePeer cx c =
     mbind (mget (\<lambda>w. w_conns w c)) (\<lambda>peer.
     mmod (\<lambda>w. w\<lparr>w_core := core_remove_peer (sx_rpc cx) (networkName peer) (peerId peer) (w_core w),
                  w_sync := m_del (routeSyncKey peer) (w_sync w)\<rparr>))"

definition sendControl ::
  "('hs, 'x, 'y) server_ctx \<Rightarrow> nat \<Rightarrow> cid \<Rightarrow> u8 \<Rightarrow> bytes \<Rightarrow> (('hs, 'x, 'y) world, unit) op" where
  "sendControl cx now c packetType payload =
     mbind (mget (\<lambda>w. peerId (w_conns w c))) (\<lambda>pid.
     mbind (mlift (createPacket SERVER_PEER_ID pid packetType payload)) (\<lambda>clear.
     mbind (on_secure c (encrypt_packet (sx_lib cx) (of_nat now) clear)) (\<lambda>sealed.
     on_conn c (sendConnection now sealed))))"

definition flushRouteUpdate ::
  "('hs, 'x, 'y) server_ctx \<Rightarrow> string \<times> u32 \<Rightarrow> nat \<Rightarrow> (('hs, 'x, 'y) world, unit) op" where
  "flushRouteUpdate cx key now =
     mbind (mget (\<lambda>w. m_get (w_sync w) key)) (\<lambda>found.
     case found of
       None \<Rightarrow> mret ()
     | Some st \<Rightarrow>
         if inFlight st \<or> (\<not> dirty st \<and> \<not> forceFull st) then mret ()
         else
           let force = forceFull st
           in
           mbind (mmod (sync_mod key (\<lambda>st. st\<lparr>dirty := False, forceFull := False\<rparr>))) (\<lambda>_.
           mbind (mget (\<lambda>w. w_conns w (ss_peer st))) (\<lambda>peer.
           mbind (on_core (core_build_route_update (sx_rpc cx) (networkName peer) (peerId peer)
                             (serverSessionId peer) force (of_nat now))) (\<lambda>packet.
           mbind (mmod (sync_mod key (\<lambda>st. st\<lparr>inFlight := True, sentAt := now\<rparr>))) (\<lambda>_.
           mcatch (sendControl cx now (ss_peer st) RpcReq packet) (\<lambda>e.
             mbind (mmod (sync_mod key (\<lambda>st. st\<lparr>inFlight := False, dirty := True,
                                                 forceFull := forceFull st \<or> force\<rparr>))) (\<lambda>_.
             mraise e)))))))"

definition new_sync_state :: "cid \<Rightarrow> sync_state" where
  "new_sync_state c = \<lparr>ss_peer = c, inFlight = False, dirty = False, forceFull = False,
     sentAt = 0, lastCompletedAt = 0\<rparr>"

definition sendRouteUpdate ::
  "('hs, 'x, 'y) server_ctx \<Rightarrow> nat \<Rightarrow> cid \<Rightarrow> bool \<Rightarrow> (('hs, 'x, 'y) world, unit) op" where
  "sendRouteUpdate cx now c force =
     mbind (mget (\<lambda>w. routeSyncKey (w_conns w c))) (\<lambda>key.
     mbind (mmod (\<lambda>w. if m_get (w_sync w) key = None
                       then w\<lparr>w_sync := m_put key (new_sync_state c) (w_sync w)\<rparr> else w)) (\<lambda>_.
     mbind (mmod (sync_mod key (\<lambda>st. st\<lparr>ss_peer := c, dirty := True, forceFull := forceFull st \<or> force\<rparr>))) (\<lambda>_.
     flushRouteUpdate cx key now)))"

text \<open>The failures are the connections of the states whose update could not be sent.\<close>

fun retry_states ::
  "('hs, 'x, 'y) server_ctx \<Rightarrow> nat \<Rightarrow> (string \<times> u32) list \<Rightarrow> (('hs, 'x, 'y) world, cid list) op" where
  "retry_states cx now [] = mret []"
| "retry_states cx now (key # keys) =
     mbind (mget (\<lambda>w. m_get (w_sync w) key)) (\<lambda>found.
     case found of
       None \<Rightarrow> retry_states cx now keys
     | Some st \<Rightarrow>
         if \<not> inFlight st \<or> int now - int (sentAt st) \<le> ROUTE_SYNC_TIMEOUT_MS
         then retry_states cx now keys
         else
           mbind (mmod (sync_mod key (\<lambda>st. st\<lparr>inFlight := False, dirty := True, forceFull := True\<rparr>))) (\<lambda>_.
           mbind (mattempt (flushRouteUpdate cx key now)) (\<lambda>r.
           mbind (retry_states cx now keys) (\<lambda>failures.
           mret (case r of Inl _ \<Rightarrow> ss_peer st # failures | Inr _ \<Rightarrow> failures)))))"

definition cleanExpired :: "('hs, 'x, 'y) server_ctx \<Rightarrow> nat \<Rightarrow> (('hs, 'x, 'y) world, cid list) op" where
  "cleanExpired cx now =
     mbind (on_core (mmod (core_clean_expired (sx_rpc cx) (of_nat now)))) (\<lambda>_.
     mbind (mget (\<lambda>w. m_keys (w_sync w))) (retry_states cx now))"

datatype request_result = Handled | Route | Route_Session | Pending_Pieces

definition handleRequest ::
  "('hs, 'x, 'y) server_ctx \<Rightarrow> nat \<Rightarrow> cid \<Rightarrow> bytes \<Rightarrow> (('hs, 'x, 'y) world, request_result) op" where
  "handleRequest cx now c payload =
     mbind (mget (\<lambda>w. w_conns w c)) (\<lambda>peer.
     mbind (on_core (core_handle_request (sx_rpc cx) (networkName peer) (peerId peer) payload (of_nat now))) (\<lambda>result.
     let code = (case result of [] \<Rightarrow> None | b # _ \<Rightarrow> Some b)
     in
     if code = Some 0 then mret Pending_Pieces
     else if length result = 1 then mraise (Err ''WASM RPC core returned an empty response'')
     else
       mbind (sendControl cx now c RpcResp (drop 1 result)) (\<lambda>_.
       if code = Some 2 then mbind (sendRouteUpdate cx now c False) (\<lambda>_. mret Route)
       else if code = Some 3 then mbind (sendRouteUpdate cx now c False) (\<lambda>_. mret Route_Session)
       else if code \<noteq> Some 1 then mraise (Err ''WASM RPC core returned unknown result'')
       else mret Handled)))"

definition handleResponse ::
  "('hs, 'x, 'y) server_ctx \<Rightarrow> nat \<Rightarrow> cid \<Rightarrow> bytes \<Rightarrow> (('hs, 'x, 'y) world, unit) op" where
  "handleResponse cx now c payload =
     mbind (mget (\<lambda>w. w_conns w c)) (\<lambda>peer.
     mbind (on_core (core_handle_response (sx_rpc cx) (networkName peer) (peerId peer) payload (of_nat now))) (\<lambda>complete.
     if \<not> complete then mret ()
     else
       let key = routeSyncKey peer
       in
       mbind (mget (\<lambda>w. m_get (w_sync w) key)) (\<lambda>found.
       case found of
         None \<Rightarrow> mret ()
       | Some st \<Rightarrow>
           mbind (mmod (sync_mod key (\<lambda>st. st\<lparr>inFlight := False, sentAt := 0, lastCompletedAt := now\<rparr>))) (\<lambda>_.
           if dirty st \<or> forceFull st then flushRouteUpdate cx key now else mret ()))))"

definition maintainPeer :: "('hs, 'x, 'y) server_ctx \<Rightarrow> nat \<Rightarrow> cid \<Rightarrow> (('hs, 'x, 'y) world, unit) op" where
  "maintainPeer cx now c =
     mbind (mget (\<lambda>w. m_get (w_sync w) (routeSyncKey (w_conns w c)))) (\<lambda>found.
     case found of
       None \<Rightarrow> mret ()
     | Some st \<Rightarrow>
         if inFlight st \<or> int now - int (lastCompletedAt st) < ROUTE_MAINTENANCE_INTERVAL_MS then mret ()
         else sendRouteUpdate cx now c False)"

end
