(* ===== verification/Server.thy ===== *)
theory Server
  imports Route_Sync
begin

text \<open>
  \<open>cloudflare/src/server.ts\<close>, the Durable Object: the handlers of its sockets and timers over the
  \<open>world\<close>, and \<open>cloudflare/src/index.ts\<close>, the worker in front of it.

  \<open>close\<close>, \<open>removeConnection\<close> and \<open>broadcastRouteUpdate\<close> call each other: closing a connection informs
  the rest of its network, and a client that cannot be informed is closed in turn.  The recursion
  ends because each round first marks a connection as closed.  The model runs it with fuel and takes
  the number of open connections as fuel; \<open>close_unfold\<close> shows that this is enough, the equation being
  the code's own.

  Iterating over a live \<open>Map\<close> while entries are deleted visits the entries not yet deleted; the model
  iterates over the entries at the start and skips what is closed by then, as the code does anyway.
  \<open>console\<close> output is left out.
\<close>

definition MAX_CONNECTIONS :: nat where "MAX_CONNECTIONS = 2048"

text \<open>A JavaScript string as a Rust \<open>&str\<close>: a lone surrogate becomes U+FFFD.\<close>

fun to_rust_str :: "string \<Rightarrow> string" where
  "to_rust_str (a # b # c # s) =
     (if of_char a = (0xED :: nat) \<and> 0xA0 \<le> (of_char b :: nat)
      then char_of (0xEF :: nat) # char_of (0xBF :: nat) # char_of (0xBD :: nat) # to_rust_str s
      else a # to_rust_str (b # c # s))"
| "to_rust_str s = s"

definition set_phase :: "cid \<Rightarrow> connection_phase \<Rightarrow> (('hs, 'x, 'y) world, unit) op" where
  "set_phase c p = mmod (conn_mod c (\<lambda>k. k\<lparr>phase := p\<rparr>))"

definition phase_of :: "cid \<Rightarrow> ('hs, 'x, 'y) world \<Rightarrow> connection_phase" where
  "phase_of c w = phase (w_conns w c)"

subsection \<open>Closing connections\<close>

type_synonym ('hs, 'x, 'y) closer = "cid \<Rightarrow> nat \<Rightarrow> string \<Rightarrow> (('hs, 'x, 'y) world, unit) op"

definition broadcast_with ::
  "('hs, 'x, 'y) server_ctx \<Rightarrow> nat \<Rightarrow> ('hs, 'x, 'y) closer \<Rightarrow> string \<Rightarrow> u32 option \<Rightarrow>
     (('hs, 'x, 'y) world, unit) op" where
  "broadcast_with cx now close name exclude =
     mbind (mget (\<lambda>w. rooms_peers (w_rooms w) name)) (\<lambda>ps.
     mfor ps (\<lambda>c.
       mbind (mget (\<lambda>w. w_conns w c)) (\<lambda>peer.
       if Some (peerId peer) = exclude \<or> phase peer \<noteq> Ready then mret ()
       else mcatch (sendRouteUpdate cx now c False) (\<lambda>e. close c 1011 ''route synchronization failed''))))"

definition remove_with ::
  "('hs, 'x, 'y) server_ctx \<Rightarrow> nat \<Rightarrow> ('hs, 'x, 'y) closer \<Rightarrow> cid \<Rightarrow> (('hs, 'x, 'y) world, unit) op" where
  "remove_with cx now close c =
     mbind (mget (\<lambda>w. w_conns w c)) (\<lambda>k.
     if phase k = Closed then mret ()
     else
       mbind (set_phase c Closed) (\<lambda>_.
       mbind (mmod (\<lambda>w. w\<lparr>w_connections := removeAll c (w_connections w)\<rparr>)) (\<lambda>_.
       mbind (mmod (\<lambda>w. if w_connections w = [] \<and> w_timer w then w\<lparr>w_timer := False\<rparr> else w)) (\<lambda>_.
       mbind (mmod (\<lambda>w. w\<lparr>w_rooms := snd (rooms_delete (networkName k) (peerId k) c (w_rooms w))\<rparr>)) (\<lambda>_.
       mbind (if phase k = Ready
              then mbind (removePeer cx c) (\<lambda>_. broadcast_with cx now close (networkName k) None)
              else mret ()) (\<lambda>_.
       mmod (\<lambda>w. case disposeConnection now (w_conns w c) (w_store w) of (k, store) \<Rightarrow>
                   (conn_mod c (\<lambda>_. k) w)\<lparr>w_store := store\<rparr>)))))))"

primrec close_fuel :: "('hs, 'x, 'y) server_ctx \<Rightarrow> nat \<Rightarrow> nat \<Rightarrow> ('hs, 'x, 'y) closer" where
  "close_fuel cx now 0 c code reason = mret ()"
| "close_fuel cx now (Suc n) c code reason =
     mbind (mget (phase_of c)) (\<lambda>p.
     if p = Closed then mret ()
     else mfinally (on_conn c (on_socket (socket_close code (take 120 reason))))
                   (remove_with cx now (close_fuel cx now n) c))"

text \<open>The connections that are not closed.\<close>

definition live :: "('hs, 'x, 'y) world \<Rightarrow> nat" where
  "live w = length (filter (\<lambda>c. phase_of c w \<noteq> Closed) [0..<w_next w])"

definition close_conn :: "('hs, 'x, 'y) server_ctx \<Rightarrow> nat \<Rightarrow> ('hs, 'x, 'y) closer" where
  "close_conn cx now c code reason = (\<lambda>w. close_fuel cx now (live w) c code reason w)"

definition removeConnection :: "('hs, 'x, 'y) server_ctx \<Rightarrow> nat \<Rightarrow> cid \<Rightarrow> (('hs, 'x, 'y) world, unit) op" where
  "removeConnection cx now c = remove_with cx now (close_conn cx now) c"

definition broadcastRouteUpdate ::
  "('hs, 'x, 'y) server_ctx \<Rightarrow> nat \<Rightarrow> string \<Rightarrow> u32 option \<Rightarrow> (('hs, 'x, 'y) world, unit) op" where
  "broadcastRouteUpdate cx now name exclude = broadcast_with cx now (close_conn cx now) name exclude"

definition failConnection :: "('hs, 'x, 'y) server_ctx \<Rightarrow> nat \<Rightarrow> cid \<Rightarrow> (('hs, 'x, 'y) world, unit) op" where
  "failConnection cx now c = close_conn cx now c 4401 ''EasyTier authentication or protocol error''"

definition findPeer :: "string \<Rightarrow> u32 \<Rightarrow> ('hs, 'x, 'y) world \<Rightarrow> cid option" where
  "findPeer name pid w = rooms_get (w_rooms w) name pid"

subsection \<open>The handshake\<close>

definition handleHandshakeMessage1 ::
  "('hs, 'x, 'y) server_ctx \<Rightarrow> nat \<Rightarrow> cid \<Rightarrow> bytes \<Rightarrow> u8 \<Rightarrow> (('hs, 'x, 'y) world, unit) op" where
  "handleHandshakeMessage1 cx now c frame ptype =
     (if ptype \<noteq> NoiseHandshakeMsg1
      then mraise (Err ''secure_mode rejects legacy or out-of-order handshakes'')
      else
        mbind (on_secure c (read_msg1 (sx_lib cx) frame)) (\<lambda>text.
        mbind (mlift (parseHandshakeInfo text)) (\<lambda>info.
        case m_get (cfg_rooms (sx_config cx)) (hi_networkName info) of
          None \<Rightarrow> close_conn cx now c 4403 ''network is not configured''
        | Some secret \<Rightarrow>
            mbind (mmod (conn_mod c (\<lambda>k. k\<lparr>peerId := hi_peerId info, networkName := hi_networkName info\<rparr>))) (\<lambda>_.
            mbind (on_secure c (build_msg2 (sx_lib cx) (of_nat now) (to_rust_str secret))) (\<lambda>msg2.
            mbind (on_conn c (sendConnection now msg2)) (\<lambda>_.
            set_phase c Msg3))))))"

definition registerConnection :: "('hs, 'x, 'y) server_ctx \<Rightarrow> nat \<Rightarrow> cid \<Rightarrow> (('hs, 'x, 'y) world, unit) op" where
  "registerConnection cx now c =
     mbind (mget (\<lambda>w. w_conns w c)) (\<lambda>k.
     mbind (mrun (\<lambda>w. case rooms_set (networkName k) (peerId k) c (w_rooms w) of (replaced, rooms) \<Rightarrow>
                        (replaced, w\<lparr>w_rooms := rooms\<rparr>))) (\<lambda>replaced.
     mbind (case replaced of
              None \<Rightarrow> mret ()
            | Some old \<Rightarrow> if old \<noteq> c then close_conn cx now old 4000 ''replaced by an authenticated reconnect''
                          else mret ()) (\<lambda>_.
     addPeer cx c)))"

definition handleHandshakeMessage3 ::
  "('hs, 'x, 'y) server_ctx \<Rightarrow> nat \<Rightarrow> cid \<Rightarrow> bytes \<Rightarrow> u8 \<Rightarrow> (('hs, 'x, 'y) world, unit) op" where
  "handleHandshakeMessage3 cx now c frame ptype =
     (if ptype \<noteq> NoiseHandshakeMsg3 then mraise (Err ''expected NoiseHandshakeMsg3'')
      else
        mbind (on_secure c (finish_msg3 (sx_lib cx) (of_nat now) frame)) (\<lambda>text.
        mbind (mlift (parseAuthenticationInfo text)) (\<lambda>auth.
        mbind (mget (\<lambda>w. w_conns w c)) (\<lambda>k.
        if ai_peerId auth \<noteq> peerId k \<or> ai_networkName auth \<noteq> networkName k
        then mraise (Err ''secure handshake identity mismatch'')
        else
          mbind (mmod (conn_mod c (\<lambda>k. k\<lparr>remotePublicKey := ai_remotePublicKey auth\<rparr>))) (\<lambda>_.
          mbind (registerConnection cx now c) (\<lambda>_.
          mbind (mmod (conn_mod c completeHandshake)) (\<lambda>_.
          broadcastRouteUpdate cx now (networkName k) None)))))))"

subsection \<open>Packets of authenticated clients\<close>

definition forwardPacket ::
  "('hs, 'x, 'y) server_ctx \<Rightarrow> nat \<Rightarrow> cid \<Rightarrow> bytes \<Rightarrow> u32 \<Rightarrow> (('hs, 'x, 'y) world, unit) op" where
  "forwardPacket cx now c frame to_peer =
     mbind (mget (\<lambda>w. findPeer (networkName (w_conns w c)) to_peer w)) (\<lambda>found.
     case found of
       None \<Rightarrow> mret ()
     | Some target \<Rightarrow>
         mbind (mget (phase_of target)) (\<lambda>p.
         if p \<noteq> Ready then mret ()
         else
           mbind (mlift (incrementForwardCounter frame)) (\<lambda>forwarded.
           mcatch (on_conn target (sendConnection now forwarded))
                  (\<lambda>e. close_conn cx now target 1013 ''outbound relay capacity exceeded''))))"

definition handleReadyPacket ::
  "('hs, 'x, 'y) server_ctx \<Rightarrow> nat \<Rightarrow> cid \<Rightarrow> bytes \<Rightarrow> packet_header \<Rightarrow> (('hs, 'x, 'y) world, unit) op" where
  "handleReadyPacket cx now c frame header =
     (if to_peer_id header \<noteq> SERVER_PEER_ID then forwardPacket cx now c frame (to_peer_id header)
      else
        mbind (mget (\<lambda>w. w_conns w c)) (\<lambda>k.
        if from_peer_id header \<noteq> peerId k
        then mraise (Err ''direct control packet source does not match the authenticated peer'')
        else if (packet_type header = Ping \<or> packet_type header = Pong) \<and> encrypted header
        then mraise (Err ''EasyTier Ping and Pong packets must remain unencrypted'')
        else if packet_type header = Ping
        then mbind (mlift (createPong frame)) (\<lambda>pong. on_conn c (sendConnection now pong))
        else if packet_type header = Pong then mret ()
        else if packet_type header \<noteq> RpcReq \<and> packet_type header \<noteq> RpcResp then mret ()
        else if \<not> encrypted header
        then mraise (Err ''secure_mode requires encrypted direct RPC packets'')
        else
          mbind (on_secure c (decrypt_packet (sx_lib cx) (of_nat now) frame)) (\<lambda>clear.
          if clear = [] then mret ()
          else
            mbind (mlift (parsePacket clear)) (\<lambda>(clear_header, payload).
            if packet_type header = RpcReq
            then mbind (handleRequest cx now c payload) (\<lambda>result.
                 if result = Route then broadcastRouteUpdate cx now (networkName k) (Some (peerId k))
                 else mret ())
            else handleResponse cx now c payload))))"

definition handleMessage ::
  "('hs, 'x, 'y) server_ctx \<Rightarrow> nat \<Rightarrow> cid \<Rightarrow> ws_data \<Rightarrow> (('hs, 'x, 'y) world, unit) op" where
  "handleMessage cx now c data =
     mbind (mlift (toUint8Array data)) (\<lambda>frame.
     if maxFrameBytes (sx_config cx) < length frame
     then mraise (Err ''EasyTier frame exceeds MAX_FRAME_BYTES'')
     else
       mbind (mlift (parsePacket frame)) (\<lambda>(header, payload).
       mbind (mget (phase_of c)) (\<lambda>p.
       case p of
         Msg1 \<Rightarrow> handleHandshakeMessage1 cx now c frame (packet_type header)
       | Msg3 \<Rightarrow> handleHandshakeMessage3 cx now c frame (packet_type header)
       | Ready \<Rightarrow> handleReadyPacket cx now c frame header
       | Closed \<Rightarrow> mret ())))"

text \<open>The listener of the \<open>message\<close> event.\<close>

definition onMessage ::
  "('hs, 'x, 'y) server_ctx \<Rightarrow> nat \<Rightarrow> cid \<Rightarrow> ws_data \<Rightarrow> (('hs, 'x, 'y) world, unit) op" where
  "onMessage cx now c data = mcatch (handleMessage cx now c data) (\<lambda>e. failConnection cx now c)"

subsection \<open>Maintenance\<close>

definition scheduleMaintenance :: "('hs, 'x, 'y) world \<Rightarrow> ('hs, 'x, 'y) world" where
  "scheduleMaintenance w = (if w_timer w \<or> w_connections w = [] then w else w\<lparr>w_timer := True\<rparr>)"

definition onMaintenance :: "('hs, 'x, 'y) server_ctx \<Rightarrow> nat \<Rightarrow> (('hs, 'x, 'y) world, unit) op" where
  "onMaintenance cx now =
     mbind (mmod (\<lambda>w. w\<lparr>w_timer := False\<rparr>)) (\<lambda>_.
     mbind (cleanExpired cx now) (\<lambda>failures.
     mbind (mfor failures (\<lambda>f.
       mbind (mget (\<lambda>w. findPeer (networkName (w_conns w f)) (peerId (w_conns w f)) w)) (\<lambda>found.
       case found of None \<Rightarrow> mret ()
       | Some c \<Rightarrow> close_conn cx now c 1011 ''route synchronization retry failed''))) (\<lambda>_.
     mbind (mget w_connections) (\<lambda>cs.
     mbind (mfor cs (\<lambda>c.
       mbind (mget (phase_of c)) (\<lambda>p.
       if p \<noteq> Ready then mret ()
       else mcatch (maintainPeer cx now c)
                   (\<lambda>e. close_conn cx now c 1011 ''route synchronization maintenance failed'')))) (\<lambda>_.
     mmod scheduleMaintenance)))))"

text \<open>The callback of a handshake timer.\<close>

definition onHandshakeTimeout ::
  "('hs, 'x, 'y) server_ctx \<Rightarrow> nat \<Rightarrow> cid \<Rightarrow> (('hs, 'x, 'y) world, unit) op" where
  "onHandshakeTimeout cx now c = close_conn cx now c 4408 ''secure handshake timeout''"

subsection \<open>Requests\<close>

text \<open>What the code reads of a \<open>Request\<close>: the method, the path of its URL and the \<open>Upgrade\<close> header.\<close>

record http_request =
  http_method :: string
  pathname :: string
  upgrade_header :: "string option"

datatype http_response =
  Response string nat
| Upgraded cid

definition lower :: "char \<Rightarrow> char" where
  "lower ch = (let k = of_char ch :: nat in if 65 \<le> k \<and> k \<le> 90 then char_of (k + 32) else ch)"

definition wants_websocket :: "http_request \<Rightarrow> bool" where
  "wants_websocket req \<longleftrightarrow> map_option (map lower) (upgrade_header req) = Some ''websocket''"

text \<open>\<open>sock\<close> is the server's end of the new \<open>WebSocketPair\<close> and \<open>words\<close> what \<open>randomU64\<close> draws.\<close>

definition server_fetch ::
  "('hs, 'x, 'y) server_ctx \<Rightarrow> nat \<Rightarrow> u32 \<times> u32 \<Rightarrow> websocket \<Rightarrow> http_request \<Rightarrow>
     ('hs, 'x, 'y) world \<Rightarrow> http_response \<times> ('hs, 'x, 'y) world" where
  "server_fetch cx now words sock req w =
     (if pathname req \<noteq> ''/'' then (Response ''Not found'' 404, w)
      else if \<not> wants_websocket req then (Response ''Expected a WebSocket upgrade'' 426, w)
      else if MAX_CONNECTIONS \<le> length (w_connections w)
      then (Response ''EasyTier connection capacity exceeded'' 503, w)
      else case new_peer (sx_lib cx) (of_nat now) (to_rust_str (localPrivateKey (sx_config cx)))
                  (to_rust_str (localPublicKey (sx_config cx))) SERVER_PEER_ID of
        Inl e \<Rightarrow> (Response ''Server secure-mode configuration is invalid'' 503, w)
      | Inr sec \<Rightarrow>
          let c = w_next w;
              w = w\<lparr>w_conns := (w_conns w)(c := createConnection now words sock sec),
                    w_next := Suc c,
                    w_connections := w_connections w @ [c]\<rparr>
          in (Upgraded c, scheduleMaintenance w))"

text \<open>The constructor of the Durable Object: the context and the state it starts with.\<close>

definition no_connection :: "'hs connection" where
  "no_connection = \<lparr>peerId = 0, networkName = [], serverSessionId = 0, remotePublicKey = [],
     socket = \<lparr>readyState = 3, sent_frames = [], closed_with = None, send_throws = True, close_throws = True\<rparr>,
     secure = None, phase = Closed, handshakeTimer = False, sendWindowStartedAt = 0,
     sentBytesInWindow = 0, sentFramesInWindow = 0\<rparr>"

definition server_new ::
  "'hs lib \<Rightarrow> ('x, 'y) rpc_lib \<Rightarrow> store \<Rightarrow> easytier_env \<Rightarrow>
     error + ('hs, 'x, 'y) server_ctx \<times> ('hs, 'x, 'y) world" where
  "server_new lib rpc store env =
     rbind (readServerConfig env) (\<lambda>config.
     rbind (core_new (localPublicKeyBytes config) (to_rust_str (cfg_hostname config)) SERVER_PEER_ID) (\<lambda>core.
     Inr (\<lparr>sx_lib = lib, sx_rpc = rpc, sx_config = config\<rparr>,
          \<lparr>w_conns = (\<lambda>_. no_connection), w_next = 0, w_connections = [], w_rooms = [], w_timer = False,
           w_core = core, w_sync = [], w_store = store, w_draws = 0\<rparr>)))"

subsection \<open>The worker\<close>

datatype worker_response =
  Health bool nat nat
| Plain string nat
| Redirect string nat
| To_Durable_Object string http_request

definition DURABLE_OBJECT_NAME :: string where "DURABLE_OBJECT_NAME = ''easytier-central-relay''"

definition worker_fetch :: "'hs lib \<Rightarrow> nat \<Rightarrow> easytier_env \<Rightarrow> http_request \<Rightarrow> worker_response" where
  "worker_fetch lib now env req =
     (if pathname req = ''/healthz'' \<and> http_method req = ''GET'' then
        (case rbind (readServerConfig env) (\<lambda>config.
              rbind (new_peer lib (of_nat now) (to_rust_str (localPrivateKey config))
                       (to_rust_str (localPublicKey config)) SERVER_PEER_ID) (\<lambda>_.
              Inr (length (cfg_rooms config)))) of
           Inr networks \<Rightarrow> Health True networks 200
         | Inl e \<Rightarrow> Health False 0 503)
      else if pathname req \<noteq> ''/'' then Plain ''Not found'' 404
      else if \<not> wants_websocket req then
        (if http_method req = ''GET'' \<or> http_method req = ''HEAD''
         then Redirect ''https://blog.lm191549149.me/'' 302
         else Plain ''Not found'' 404)
      else case readServerConfig env of
        Inl e \<Rightarrow> Plain ''Server configuration is invalid'' 503
      | Inr _ \<Rightarrow> To_Durable_Object DURABLE_OBJECT_NAME req)"

end
