(* ===== verification/Members.thy ===== *)
theory Members
  imports Rpc_Core
begin

text \<open>
  Who is a member of a network, as the RPC core knows it: only \<open>add_peer\<close> and \<open>remove_peer\<close> of
  \<open>cloudflare/wasm/src/rpc.rs\<close> change it, and only for the peer and the network they are called with.
\<close>

definition members_of :: "'x route_state \<Rightarrow> string \<Rightarrow> u32 set" where
  "members_of s key = (case m_get (rs_groups s) key of None \<Rightarrow> {} | Some g \<Rightarrow> set (peers g))"

lemma members_group: "set (peers (group_of lib key s)) = members_of s key"
  by (simp add: members_of_def group_of_def ensure_group_def initial_group_def Let_def split: option.split)

definition same_members :: "'x route_state \<Rightarrow> 'x route_state \<Rightarrow> bool" where
  "same_members s s' \<longleftrightarrow> members_of s' = members_of s"

lemma same_membersI: "(\<And>s. same_members s (snd (m s))) \<Longrightarrow> keeps (same_members s0) m"
  by (simp add: keeps_def same_members_def)

definition same_peers :: "u32 set \<Rightarrow> 'x route_group \<Rightarrow> bool" where
  "same_peers P g \<longleftrightarrow> set (peers g) = P"

lemma keeps_same_members:
  assumes "\<And>P. keeps (same_peers P) m"
  shows "keeps (same_members s0) (with_group lib key m)"
proof (rule same_membersI)
  fix s
  have "set (peers (snd (m (group_of lib key s)))) = members_of s key"
    using keepsD [OF assms, of "members_of s key" "group_of lib key s"] by (simp add: same_peers_def members_group)
  then show "same_members s (snd (with_group lib key m s))"
    by (auto simp: same_members_def members_of_def with_group_groups fun_eq_iff)
qed

lemma same_peers_sync_infos: "keeps (same_peers P) (sync_infos now_ms from infos acc)"
proof (induction infos arbitrary: acc)
  case (Cons info infos)
  have "peers (snd (sync_info now_ms from info acc g)) = peers g" for acc g
    by (cases rule: sync_info_cases [of now_ms "from" info acc g]) (auto simp: store_info_def forget_sent_info_def)
  then have "keeps (same_peers P) (sync_info now_ms from info acc)"
    by (intro keepsI) (simp add: same_peers_def)
  with Cons show ?case by (simp add: keeps_bind)
qed (simp add: pres)

lemma same_peers_change: "keeps (same_peers P) (change_my_info f)"
  by (simp add: change_my_info_def keeps_def mmod_def same_peers_def bump_my_info_def)

lemma same_peers_build: "keeps (same_peers P) (build_in_group lib now_ms me target sid init full)"
  by (rule keepsI) (auto simp: build_in_group_state same_peers_def build_conn_info_def op_defs Let_def split: option.split)

lemma same_members_handle_sync: "keeps (same_members s) (handle_sync_route_info_request lib now_ms key from bs)"
  unfolding handle_sync_route_info_request_def
  by (intro pres keeps_same_members same_peers_sync_infos keeps_mod) (simp_all add: same_peers_def)

lemma same_members_ack: "keeps (same_members s) (on_route_session_ack lib now_ms key pid sid b)"
  and same_members_commit: "keeps (same_members s) (commit_route_update lib now_ms key pid vs tv)"
  unfolding on_route_session_ack_def commit_route_update_def
  by (intro keeps_same_members keeps_mod; simp add: same_peers_def)+

lemma same_members_build:
  "keeps (same_members s) (build_sync_route_info_request lib now_ms key target sid init full)"
  unfolding build_sync_route_info_request_def by (intro pres keeps_same_members same_peers_build)

lemma same_members_field: "keeps (same_members s) (set_my_info_field lib key field val)"
  and same_members_key: "keeps (same_members s) (set_my_noise_public_key lib key k)"
  unfolding set_my_info_field_def set_my_noise_public_key_def by (intro pres keeps_same_members same_peers_change)+

lemma members_add:
  "members_of (snd (route_add_peer lib key pid k s)) =
     (if fst (route_add_peer lib key pid k s) = Inr () then (members_of s)(key := insert pid (members_of s key))
      else members_of s)"
proof -
  let ?m = "\<lambda>me. mbind (mget (\<lambda>g. m_get (authenticated_peer_keys g) pid)) (\<lambda>current.
      if current \<noteq> None \<and> current \<noteq> Some k
      then mraise (Err ''peer id is already bound to another authenticated public key'')
      else
        mbind (mget (\<lambda>g. pid \<notin> set (peers g))) (\<lambda>is_new.
        mbind (mmod (\<lambda>g. g\<lparr>authenticated_peer_keys := m_put pid k (authenticated_peer_keys g),
                           peers := bs_insert pid (peers g)\<rparr>)) (\<lambda>_.
        if is_new then mmod (bump_all_conn_versions me) else mret ()))) :: ('a route_group, unit) op"
  have one: "set (peers (snd (?m me g))) = (if fst (?m me g) = Inr () then insert pid (set (peers g)) else set (peers g))"
    for me and g :: "'a route_group"
    by (cases "m_get (authenticated_peer_keys g) pid") (auto simp: op_defs)
  show ?thesis
  proof (cases "length k = 32")
    case True
    then have eq: "route_add_peer lib key pid k s = with_group lib key (?m (rs_my_peer_id s)) s"
      by (simp add: route_add_peer_def mbind_mget)
    show ?thesis
      unfolding eq fst_with_group
      using one [of "rs_my_peer_id s" "group_of lib key s"]
      by (auto simp: members_of_def [of "snd _"] with_group_groups fun_eq_iff members_group) 
         (auto simp: members_of_def)
  qed (simp add: route_add_peer_def op_defs)
qed

lemma members_remove:
  "members_of (route_remove_peer lib key pid s) = (members_of s)(key := members_of s key - {pid})"
proof -
  have "set (peers (remove_from_group me pid g)) = set (peers g) - {pid}" for me and g :: "'a route_group"
    by (simp add: remove_from_group_def Let_def)
  then show ?thesis
    using members_group [of lib key s] ensure_group_groups [of lib key s]
    by (auto simp: route_remove_peer_def case_prod_unfold members_of_def [of "_\<lparr>rs_groups := _\<rparr>"] m_get_put
        group_of_def fun_eq_iff) (simp_all add: members_of_def)
qed

subsection \<open>Members in the RPC core\<close>

definition core_same :: "('x, 'y) rpc_core \<Rightarrow> ('x, 'y) rpc_core \<Rightarrow> bool" where
  "core_same c c' \<longleftrightarrow> same_members (core_routes c) (core_routes c')"

lemma core_member_iff: "core_member lib c network pid \<longleftrightarrow> pid \<in> members_of (core_routes c) network"
  by (simp add: core_member_def members_group)

lemma core_same_member: "core_same c c' \<Longrightarrow> core_member lib c' network pid = core_member lib c network pid"
  by (simp add: core_same_def same_members_def core_member_iff)

lemma core_same_on_routes: "(\<And>s. keeps (same_members s) m) \<Longrightarrow> keeps (core_same c) (on_routes m)"
  by (simp add: keeps_def core_same_def on_routes_def case_prod_unfold)

lemma core_same_on_center: "keeps (core_same c) (on_center m)"
  by (simp add: keeps_def core_same_def on_center_def case_prod_unfold)

lemma core_same_frame [simp]:
  "core_same c (c'\<lparr>peer_initiator := x\<rparr>) = core_same c c'"
  "core_same c (c'\<lparr>outstanding_routes := y\<rparr>) = core_same c c'"
  "core_same c (c'\<lparr>configured_groups := z\<rparr>) = core_same c c'"
  "core_same c (c'\<lparr>core_draws := n\<rparr>) = core_same c c'"
  "core_same c (c'\<lparr>core_center := u\<rparr>) = core_same c c'"
  by (simp_all add: core_same_def)

lemma core_same_merge: "keeps (core_same c) (merge_packet network pid packet now_ms)"
proof (rule keepsI)
  fix s :: "('a, 'b) rpc_core"
  assume "core_same c s"
  moreover have "same_services s (snd (merge_packet network pid packet now_ms s))"
    by (rule keepsD [OF merge_packet_services]) (simp add: same_services_def)
  ultimately show "core_same c (snd (merge_packet network pid packet now_ms s))"
    by (simp add: core_same_def same_services_def)
qed

lemma core_same_clean [simp]: "core_same c (clean_rpc_state t c') = core_same c c'"
  by (simp add: core_same_def clean_rpc_state_def Let_def)

lemma core_same_clean_expired [simp]: "core_same c (core_clean_expired lib t c') = core_same c c'"
  by (simp add: core_clean_expired_def Let_def)

lemma core_same_request: "keeps (core_same c) (core_handle_request lib network pid payload now_ms)"
  unfolding core_handle_request_def call_service_def
  by (intro pres core_same_merge keeps_mod core_same_on_routes core_same_on_center same_members_handle_sync; simp)

lemma core_same_response: "keeps (core_same c) (core_handle_response lib network pid payload now_ms)"
  unfolding core_handle_response_def
  by (intro pres core_same_merge keeps_mod core_same_on_routes same_members_ack same_members_commit keeps_let; simp)

lemma core_same_next_id: "keeps (core_same c) (next_transaction_id lib network pid)"
proof -
  have "keeps (core_same c) (next_transaction_id_loop lib network pid n)" for n
    by (induction n) (auto intro!: pres keeps_run simp: Let_def)
  then show ?thesis by (simp add: next_transaction_id_def)
qed

lemma core_same_build: "keeps (core_same c) (core_build_route_update lib network pid sid full now_ms)"
  unfolding core_build_route_update_def
  by (intro pres keeps_mod core_same_on_routes same_members_build core_same_next_id; simp)

text \<open>Whether or not it succeeds, adding a peer keeps the members there are.\<close>

definition core_grows :: "('x, 'y) rpc_core \<Rightarrow> ('x, 'y) rpc_core \<Rightarrow> bool" where
  "core_grows c c' \<longleftrightarrow> (\<forall>network. members_of (core_routes c) network \<subseteq> members_of (core_routes c') network)"

lemma core_add_grows: "core_grows c (snd (core_add_peer lib network pid k c))"
proof -
  have add: "keeps (core_grows c) (on_routes (route_add_peer l network pid k))" for l
    by (rule keepsI) (auto simp: core_grows_def on_routes_def case_prod_unfold members_add split: if_splits)
  have same: "keeps (core_grows c) (on_routes m)" if "\<And>s. keeps (same_members s) m" for m :: "('a route_state, unit) op"
  proof (rule keepsI)
    fix s assume "core_grows c s"
    moreover have "same_members (core_routes s) (snd (m (core_routes s)))"
      by (rule keepsD [OF that]) (simp add: same_members_def)
    ultimately show "core_grows c (snd (on_routes m s))"
      by (simp add: core_grows_def same_members_def on_routes_def case_prod_unfold)
  qed
  have "keeps (core_grows c) (core_add_peer lib network pid k)"
    unfolding core_add_peer_def
    by (intro pres keeps_mod add same same_members_field same_members_key) (simp_all add: core_grows_def)
  then show ?thesis by (rule keepsD) (simp add: core_grows_def)
qed

lemma core_add_member:
  assumes "core_add_peer lib network pid k c = (Inr u, c')"
  shows "core_member lib c' network pid"
proof -
  obtain c1 where c1: "on_routes (route_add_peer (route_codecs lib) network pid k) c = (Inr (), c1)"
    using assms by (auto simp: core_add_peer_def op_inv)
  then have "pid \<in> members_of (core_routes c1) network"
    using members_add [of "route_codecs lib" network pid k "core_routes c"]
    by (auto simp: on_routes_def split: prod.splits)
  moreover have "core_grows c1 c'"
  proof -
    let ?rest = "mbind (mget (\<lambda>c. network \<notin> set (configured_groups c))) (\<lambda>inserted.
       mbind (if inserted then
         mbind (mmod (\<lambda>c. c\<lparr>configured_groups := configured_groups c @ [network]\<rparr>)) (\<lambda>_.
         mbind (mget core_hostname) (\<lambda>hostname.
         mbind (on_routes (set_my_info_field (route_codecs lib) network ''hostname'' hostname)) (\<lambda>_.
         mbind (mget core_public_key) (\<lambda>public_key.
         on_routes (set_my_noise_public_key (route_codecs lib) network public_key)))))
       else mret ()) (\<lambda>_.
     mmod (\<lambda>c. c\<lparr>peer_initiator := m_put (network, pid) False (peer_initiator c)\<rparr>)))"
    have "core_same c1 (snd (?rest c1))"
      by (rule keepsD [where I = "core_same c1"],
          intro pres keeps_mod core_same_on_routes same_members_field same_members_key)
         (simp_all add: core_same_def same_members_def)
    moreover have "(Inr u, c') = ?rest c1"
      using assms c1 by (simp add: core_add_peer_def mbind_def [of "on_routes (route_add_peer _ _ _ _)"])
    ultimately have "core_same c1 c'" by (metis snd_conv)
    then show ?thesis by (simp add: core_same_def same_members_def core_grows_def)
  qed
  ultimately show ?thesis by (auto simp: core_member_iff core_grows_def)
qed

lemma core_remove_member:
  "core_member lib (core_remove_peer lib network pid c) network' pid' \<longleftrightarrow>
     core_member lib c network' pid' \<and> \<not> (network' = network \<and> pid' = pid)"
  by (auto simp: core_member_iff core_remove_peer_def Let_def members_remove)

end
