(* ===== verification/Server_Frames.thy ===== *)
theory Server_Frames
  imports Server Members
begin

text \<open>
  What the handlers of \<open>cloudflare/src/server.ts\<close> and \<open>cloudflare/src/core/rpc.ts\<close> may touch, stated once.
  The locale \<open>server_invariant\<close> lists the elementary changes of the world that an invariant has to
  survive, for the connections in \<open>S\<close> and the networks in \<open>N\<close>; every operation of the route
  synchronisation on them then keeps it.  \<open>closing_invariant\<close> adds the departure of a connection, and
  \<open>close\<close> keeps it.  Both are interpreted on the predicates the server theories use.
\<close>

subsection \<open>Departure\<close>

text \<open>What \<open>removeConnection\<close> does before it informs the rest of the network, and its last step.\<close>

definition depart :: "('hs, 'x, 'y) server_ctx \<Rightarrow> cid \<Rightarrow> ('hs, 'x, 'y) world \<Rightarrow> ('hs, 'x, 'y) world" where
  "depart cx c w =
     (let k = w_conns w c;
          w = conn_mod c (\<lambda>k. k\<lparr>phase := Closed\<rparr>) w;
          w = w\<lparr>w_connections := removeAll c (w_connections w)\<rparr>;
          w = (if w_connections w = [] \<and> w_timer w then w\<lparr>w_timer := False\<rparr> else w);
          w = w\<lparr>w_rooms := snd (rooms_delete (networkName k) (peerId k) c (w_rooms w))\<rparr>
      in if phase k = Ready
         then w\<lparr>w_core := core_remove_peer (sx_rpc cx) (networkName k) (peerId k) (w_core w),
                w_sync := m_del (routeSyncKey k) (w_sync w)\<rparr>
         else w)"

definition dispose :: "nat \<Rightarrow> cid \<Rightarrow> ('hs, 'x, 'y) world \<Rightarrow> ('hs, 'x, 'y) world" where
  "dispose now c w = (case disposeConnection now (w_conns w c) (w_store w) of (k, store) \<Rightarrow>
     (conn_mod c (\<lambda>_. k) w)\<lparr>w_store := store\<rparr>)"

lemma remove_with_depart:
  "remove_with cx now close c w =
     (if phase_of c w = Closed then (Inr (), w)
      else mbind (if phase_of c w = Ready then broadcast_with cx now close (networkName (w_conns w c)) None
                  else mret ()) (\<lambda>_. mmod (dispose now c)) (depart cx c w))"
proof -
  have dispose_eq: "(\<lambda>w. case disposeConnection now (w_conns w c) (w_store w) of (k, store) \<Rightarrow>
      (conn_mod c (\<lambda>_. k) w)\<lparr>w_store := store\<rparr>) = dispose now c"
    by (simp add: dispose_def fun_eq_iff)
  show ?thesis
    unfolding remove_with_def set_phase_def mbind_mget mbind_mmod dispose_eq
    by (cases "phase (w_conns w c)")
       (simp_all add: phase_of_def mbind_mget mbind_mmod depart_def Let_def removePeer_def conn_mod_def
         routeSyncKey_def mbind_def op_defs)
qed

lemma depart_sel [simp]:
  "w_next (depart cx c w) = w_next w"
  "w_conns (depart cx c w) = (w_conns w)(c := (w_conns w c)\<lparr>phase := Closed\<rparr>)"
  "w_connections (depart cx c w) = removeAll c (w_connections w)"
  "w_rooms (depart cx c w) = snd (rooms_delete (networkName (w_conns w c)) (peerId (w_conns w c)) c (w_rooms w))"
  "w_timer (depart cx c w) = (w_timer w \<and> removeAll c (w_connections w) \<noteq> [])"
  "w_core (depart cx c w) = (if phase_of c w = Ready
     then core_remove_peer (sx_rpc cx) (networkName (w_conns w c)) (peerId (w_conns w c)) (w_core w) else w_core w)"
  "w_sync (depart cx c w) = (if phase_of c w = Ready then m_del (routeSyncKey (w_conns w c)) (w_sync w) else w_sync w)"
  "w_store (depart cx c w) = w_store w" "w_draws (depart cx c w) = w_draws w"
  by (auto simp: depart_def Let_def conn_mod_def phase_of_def)

lemma dispose_sel [simp]:
  "w_next (dispose now c w) = w_next w" "w_connections (dispose now c w) = w_connections w"
  "w_rooms (dispose now c w) = w_rooms w" "w_timer (dispose now c w) = w_timer w"
  "w_core (dispose now c w) = w_core w" "w_sync (dispose now c w) = w_sync w"
  "w_conns (dispose now c w) = (w_conns w)(c := (w_conns w c)\<lparr>handshakeTimer := False, secure := None\<rparr>)"
  by (simp_all add: dispose_def disposeConnection_def conn_mod_def)

lemma phase_of_depart: "phase_of c' (depart cx c w) = (if c' = c then Closed else phase_of c' w)"
  by (simp add: phase_of_def)

lemma phase_of_dispose [simp]: "phase_of c' (dispose now c w) = phase_of c' w"
  by (simp add: phase_of_def)

subsection \<open>The identity of a connection\<close>

definition proved :: "'hs secure_peer \<Rightarrow> u32 option \<times> string option \<times> u32 \<times> bool" where
  "proved p = (peer_id p, network_name p, server_peer_id p, authenticated p)"

text \<open>Everything but the socket, the send window and the traffic keys.\<close>

definition identity ::
  "'hs connection \<Rightarrow> u32 \<times> string \<times> u64 \<times> bytes \<times> connection_phase \<times> bool \<times>
     (u32 option \<times> string option \<times> u32 \<times> bool) option" where
  "identity k = (peerId k, networkName k, serverSessionId k, remotePublicKey k, phase k, handshakeTimer k,
     map_option proved (secure k))"

lemma ext_proved: "ext_field proved"
  using more_fields unfolding ext_field_def proved_def by blast

lemma identity_send: "identity (snd (sendConnection now p k)) = identity k"
  using sendConnection_frame [OF refl, of now p k] by (simp add: identity_def)

lemma identity_socket: "identity (snd (on_socket m k)) = identity k"
  by (simp add: on_socket_def identity_def case_prod_unfold)

lemma identity_secure:
  "secure k = Some p \<Longrightarrow> proved q = proved p \<Longrightarrow> identity (k\<lparr>secure := Some q\<rparr>) = identity k"
  by (simp add: identity_def)

subsection \<open>Invariants of the route synchronisation\<close>

definition sync_members :: "('hs, 'x, 'y) server_ctx \<Rightarrow> ('hs, 'x, 'y) world \<Rightarrow> bool" where
  "sync_members cx w \<longleftrightarrow> (\<forall>key st. m_get (w_sync w) key = Some st \<longrightarrow>
     core_member (sx_rpc cx) (w_core w) (networkName (w_conns w (ss_peer st))) (peerId (w_conns w (ss_peer st))))"

locale server_invariant =
  fixes cx :: "('hs, 'x, 'y) server_ctx" and I :: "('hs, 'x, 'y) world \<Rightarrow> bool"
    and S :: "cid set" and N :: "string set"
  assumes conn: "I w \<Longrightarrow> c \<in> S \<Longrightarrow> identity k = identity (w_conns w c) \<Longrightarrow> I (conn_mod c (\<lambda>_. k) w)"
    and store: "I w \<Longrightarrow> I (w\<lparr>w_store := st, w_draws := d\<rparr>)"
    and core: "I w \<Longrightarrow> core_same (w_core w) r \<Longrightarrow>
      (core_ok (sx_rpc cx) SERVER_PEER_ID (w_core w) \<Longrightarrow> sync_members cx w \<Longrightarrow> core_ok (sx_rpc cx) SERVER_PEER_ID r) \<Longrightarrow>
      I (w\<lparr>w_core := r\<rparr>)"
    and sync: "I w \<Longrightarrow> fst key \<in> N \<Longrightarrow> m_get (w_sync w) key = Some s \<Longrightarrow> ss_peer s' = ss_peer s \<Longrightarrow>
      I (w\<lparr>w_sync := m_put key s' (w_sync w)\<rparr>)"
    and sync_new: "I w \<Longrightarrow> c \<in> S \<Longrightarrow> phase_of c w = Ready \<Longrightarrow> routeSyncKey (w_conns w c) = key \<Longrightarrow> ss_peer s = c \<Longrightarrow>
      I (w\<lparr>w_sync := m_put key s (w_sync w)\<rparr>)"
    and sync_scope: "I w \<Longrightarrow> fst key \<in> N \<Longrightarrow> m_get (w_sync w) key = Some s \<Longrightarrow> ss_peer s \<in> S"
    and name_scope: "I w \<Longrightarrow> c \<in> S \<Longrightarrow> networkName (w_conns w c) \<in> N"
begin

text \<open>The invariant together with a connection being ready is one, too.\<close>

lemma ready: "server_invariant cx (\<lambda>w. I w \<and> phase_of c w = Ready) S N"
proof
  fix w :: "('hs, 'x, 'y) world" and k :: "'hs connection" and c'
  assume "I w \<and> phase_of c w = Ready" "c' \<in> S" "identity k = identity (w_conns w c')"
  then show "I (conn_mod c' (\<lambda>_. k) w) \<and> phase_of c (conn_mod c' (\<lambda>_. k) w) = Ready"
    using conn by (auto simp: phase_of_def conn_mod_def identity_def)
qed (use store core sync sync_new sync_scope name_scope in \<open>auto simp: phase_of_def\<close>)

lemma key_scope: "I w \<Longrightarrow> c \<in> S \<Longrightarrow> fst (routeSyncKey (w_conns w c)) \<in> N"
  by (simp add: routeSyncKey_def name_scope)

lemma keeps_on_conn: "c \<in> S \<Longrightarrow> (\<And>k. identity (snd (m k)) = identity k) \<Longrightarrow> keeps I (on_conn c m)"
  by (auto simp: keeps_def on_conn_def case_prod_unfold intro!: conn)

lemma keeps_send: "c \<in> S \<Longrightarrow> keeps I (on_conn c (sendConnection now p))"
  by (intro keeps_on_conn identity_send)

lemma keeps_on_secure:
  assumes c: "c \<in> S" and "\<And>v. keeps (same proved v) m"
  shows "keeps I (on_secure c m)"
proof (rule keepsI)
  fix w assume I: "I w"
  show "I (snd (on_secure c m w))"
  proof (cases "secure (w_conns w c)")
    case None
    with I show ?thesis by (simp add: on_secure_def)
  next
    case (Some p)
    let ?s = "snd (m \<lparr>sc_peer = p, sc_store = w_store w, sc_draws = w_draws w\<rparr>)"
    have "proved (sc_peer ?s) = proved p"
      using keepsD [OF assms(2), of "proved p" "\<lparr>sc_peer = p, sc_store = w_store w, sc_draws = w_draws w\<rparr>"]
      by (simp add: same_def)
    with Some have "identity ((w_conns w c)\<lparr>secure := Some (sc_peer ?s)\<rparr>) = identity (w_conns w c)"
      by (intro identity_secure)
    from store [OF conn [OF I c this]] Some show ?thesis
      by (simp add: on_secure_def case_prod_unfold conn_mod_def)
  qed
qed

lemma keeps_encrypt: "c \<in> S \<Longrightarrow> keeps I (on_secure c (encrypt_packet lib now p))"
  and keeps_decrypt: "c \<in> S \<Longrightarrow> keeps I (on_secure c (decrypt_packet lib now p))"
  by (intro keeps_on_secure same_encrypt same_decrypt ext_proved; assumption)+

lemma keeps_sendControl: "c \<in> S \<Longrightarrow> keeps I (sendControl cx now c t p)"
  unfolding sendControl_def by (intro pres keeps_encrypt keeps_send)

lemma keeps_on_core:
  assumes "\<And>s. keeps (core_same s) m" and "keeps (core_ok (sx_rpc cx) SERVER_PEER_ID) m"
  shows "keeps I (on_core m)"
proof (rule keepsI)
  fix w assume I: "I w"
  have "core_same (w_core w) (snd (m (w_core w)))"
    by (rule keepsD [OF assms(1)]) (simp add: core_same_def same_members_def)
  from core [OF I this] keepsD [OF assms(2)] show "I (snd (on_core m w))"
    by (simp add: on_core_def case_prod_unfold)
qed

lemma keeps_sync_mod: "fst key \<in> N \<Longrightarrow> (\<And>s. ss_peer (f s) = ss_peer s) \<Longrightarrow> keeps I (mmod (sync_mod key f))"
  by (rule keeps_mod) (auto simp: sync_mod_def split: option.split intro!: sync)

lemma keeps_flush:
  assumes key: "fst key \<in> N"
  shows "keeps I (flushRouteUpdate cx key now)"
proof (rule keepsI)
  fix w assume I: "I w"
  show "I (snd (flushRouteUpdate cx key now w))"
  proof (cases "m_get (w_sync w) key")
    case None
    with I show ?thesis by (simp add: flushRouteUpdate_def op_defs)
  next
    case (Some st)
    let ?f = "\<lambda>st. st\<lparr>dirty := False, forceFull := False\<rparr>"
    let ?peer = "w_conns w (ss_peer st)"
    let ?w1 = "sync_mod key ?f w"
    let ?b = "core_build_route_update (sx_rpc cx) (networkName ?peer) (peerId ?peer) (serverSessionId ?peer)
                (forceFull st) (of_nat now)"
    have peer: "ss_peer st \<in> S" by (rule sync_scope [OF I key Some])
    have I1: "I ?w1" by (rule keepsD [OF keeps_sync_mod [OF key] I, of ?f, unfolded mmod_def snd_conv]) simp
    have sel: "w_conns ?w1 = w_conns w" "w_core ?w1 = w_core w" by (simp_all add: sync_mod_def split: option.split)
    have "I (?w1\<lparr>w_core := snd (?b (w_core ?w1))\<rparr>)"
    proof (rule core [OF I1])
      show "core_same (w_core ?w1) (snd (?b (w_core ?w1)))"
        by (rule keepsD [OF core_same_build]) (simp add: core_same_def same_members_def)
      assume ok: "core_ok (sx_rpc cx) SERVER_PEER_ID (w_core ?w1)" and m: "sync_members cx ?w1"
      have "m_get (w_sync ?w1) key = Some (?f st)" using Some by (simp add: sync_mod_def m_get_put)
      with m have "core_member (sx_rpc cx) (w_core ?w1) (networkName ?peer) (peerId ?peer)"
        unfolding sync_members_def sel by fastforce
      with ok show "core_ok (sx_rpc cx) SERVER_PEER_ID (snd (?b (w_core ?w1)))" by (rule core_ok_build)
    qed
    then have built: "I (snd (on_core ?b ?w1))" by (simp add: on_core_def case_prod_unfold)
    show ?thesis
      using I
      unfolding flushRouteUpdate_def mbind_mget Some Let_def
      by (auto simp: mbind_mmod mbind_mget sel mret_def
        intro!: keeps_bind_pre [where I = I and m = "on_core ?b" and s = ?w1, OF built] pres
          keeps_sync_mod [OF key] keeps_sendControl [OF peer])
  qed
qed

lemma keeps_sendRouteUpdate:
  assumes c: "c \<in> S" and "\<And>w. I w \<Longrightarrow> phase_of c w = Ready"
  shows "keeps I (sendRouteUpdate cx now c force)"
proof (rule keepsI)
  fix w assume I: "I w"
  let ?key = "routeSyncKey (w_conns w c)"
  have key: "fst ?key \<in> N" by (rule key_scope [OF I c])
  define w1 where "w1 = (if m_get (w_sync w) ?key = None
    then w\<lparr>w_sync := m_put ?key (new_sync_state c) (w_sync w)\<rparr> else w)"
  have I1: "I w1" using sync_new [OF I c assms(2) [OF I] refl, of "new_sync_state c"] I
    by (simp add: w1_def new_sync_state_def)
  have "routeSyncKey (w_conns w1 c) = ?key" by (simp add: w1_def)
  from sync_new [OF I1 c assms(2) [OF I1] this]
  have "I (sync_mod ?key (\<lambda>st. st\<lparr>ss_peer := c, dirty := True, forceFull := forceFull st \<or> force\<rparr>) w1)"
    using I1 by (auto simp: sync_mod_def split: option.split)
  from keepsD [OF keeps_flush [OF key] this] show "I (snd (sendRouteUpdate cx now c force w))"
    by (simp add: sendRouteUpdate_def mbind_mget mbind_mmod w1_def)
qed

lemma keeps_retry: "fst ` set keys \<subseteq> N \<Longrightarrow> keeps I (retry_states cx now keys)"
  by (induction keys) (auto intro!: pres keeps_sync_mod keeps_flush)

lemma keeps_cleanExpired: "N = UNIV \<Longrightarrow> keeps I (cleanExpired cx now)"
  unfolding cleanExpired_def
  by (intro pres keeps_on_core keeps_mod keeps_retry) (simp_all add: core_ok_clean_expired)

lemma keeps_handleRequest:
  assumes "c \<in> S" and "\<And>w. I w \<Longrightarrow> phase_of c w = Ready"
  shows "keeps I (handleRequest cx now c payload)"
  unfolding handleRequest_def Let_def
  by (intro pres keeps_on_core keeps_core_handle_request core_same_request keeps_sendControl
      keeps_sendRouteUpdate assms)

lemma keeps_handleResponse:
  assumes c: "c \<in> S"
  shows "keeps I (handleResponse cx now c payload)"
proof (rule keepsI)
  fix w assume I: "I w"
  note key = key_scope [OF I c]
  have "keeps I (mbind (on_core (core_handle_response (sx_rpc cx) (networkName (w_conns w c)) (peerId (w_conns w c)) payload (of_nat now))) (\<lambda>complete.
     if \<not> complete then mret ()
     else
       mbind (mget (\<lambda>w'. m_get (w_sync w') (routeSyncKey (w_conns w c)))) (\<lambda>found.
       case found of
         None \<Rightarrow> mret ()
       | Some st \<Rightarrow>
           mbind (mmod (sync_mod (routeSyncKey (w_conns w c)) (\<lambda>st. st\<lparr>inFlight := False, sentAt := 0, lastCompletedAt := now\<rparr>))) (\<lambda>_.
           if dirty st \<or> forceFull st then flushRouteUpdate cx (routeSyncKey (w_conns w c)) now else mret ()))))"
    by (intro pres keeps_on_core keeps_core_handle_response core_same_response keeps_sync_mod keeps_flush key) simp
  from keepsD [OF this I] show "I (snd (handleResponse cx now c payload w))"
    unfolding handleResponse_def mbind_mget Let_def .
qed

lemma keeps_maintainPeer:
  assumes "c \<in> S" and "\<And>w. I w \<Longrightarrow> phase_of c w = Ready"
  shows "keeps I (maintainPeer cx now c)"
  unfolding maintainPeer_def by (intro pres keeps_sendRouteUpdate assms)

end

subsection \<open>Invariants of closing connections\<close>

locale closing_invariant = server_invariant cx I S N
  for cx :: "('hs, 'x, 'y) server_ctx" and I :: "('hs, 'x, 'y) world \<Rightarrow> bool" and S N +
  assumes depart: "I w \<Longrightarrow> c \<in> S \<Longrightarrow> phase_of c w = Ready \<Longrightarrow> I (depart cx c w)"
    and dispose: "I w \<Longrightarrow> c \<in> S \<Longrightarrow> phase_of c w = Closed \<Longrightarrow> I (dispose now c w)"
    and room_scope: "I w \<Longrightarrow> name \<in> N \<Longrightarrow> set (rooms_peers (w_rooms w) name) \<subseteq> S"
begin

lemma closed: "closing_invariant cx (\<lambda>w. I w \<and> phase_of c w = Closed) S N"
proof unfold_locales
  fix w :: "('hs, 'x, 'y) world" and k :: "'hs connection" and c'
  assume "I w \<and> phase_of c w = Closed" "c' \<in> S" "identity k = identity (w_conns w c')"
  then show "I (conn_mod c' (\<lambda>_. k) w) \<and> phase_of c (conn_mod c' (\<lambda>_. k) w) = Closed"
    using conn by (auto simp: phase_of_def conn_mod_def identity_def)
qed (use store core sync sync_new sync_scope name_scope depart dispose room_scope in
      \<open>auto simp: phase_of_def split: if_splits\<close>)

text \<open>One round of \<open>broadcastRouteUpdate\<close>; it closes ready connections only.\<close>

lemma keeps_inform:
  assumes c: "c \<in> S"
    and close: "\<And>w code reason. I w \<Longrightarrow> phase_of c w = Ready \<Longrightarrow> I (snd (close c code reason w))"
  shows "keeps I (mbind (mget (\<lambda>w. w_conns w c)) (\<lambda>peer.
     if Some (peerId peer) = exclude \<or> phase peer \<noteq> Ready then mret ()
     else mcatch (sendRouteUpdate cx now c False) (\<lambda>e. close c 1011 ''route synchronization failed'')))"
proof (rule keepsI)
  fix w assume I: "I w"
  show "I (snd (mbind (mget (\<lambda>w. w_conns w c)) (\<lambda>peer.
     if Some (peerId peer) = exclude \<or> phase peer \<noteq> Ready then mret ()
     else mcatch (sendRouteUpdate cx now c False) (\<lambda>e. close c 1011 ''route synchronization failed'')) w))"
  proof (cases "phase_of c w = Ready")
    case True
    have "I (snd (sendRouteUpdate cx now c False w)) \<and> phase_of c (snd (sendRouteUpdate cx now c False w)) = Ready"
      using keepsD [OF server_invariant.keeps_sendRouteUpdate [OF ready [of c] c], of w now False] I True by blast
    then have "I (snd (mcatch (sendRouteUpdate cx now c False) (\<lambda>e. close c 1011 ''route synchronization failed'') w))"
      using close by (auto simp: mcatch_def split: prod.split sum.split)
    with I show ?thesis by (simp add: mbind_mget op_defs)
  qed (use I in \<open>simp add: mbind_mget phase_of_def mret_def\<close>)
qed

lemma keeps_broadcast:
  assumes name: "name \<in> N"
    and close: "\<And>w c code reason. I w \<Longrightarrow> c \<in> S \<Longrightarrow> phase_of c w = Ready \<Longrightarrow> I (snd (close c code reason w))"
  shows "keeps I (broadcast_with cx now close name exclude)"
proof (rule keepsI)
  fix w assume I: "I w"
  have "keeps I (mfor (rooms_peers (w_rooms w) name) (\<lambda>c.
       mbind (mget (\<lambda>w. w_conns w c)) (\<lambda>peer.
       if Some (peerId peer) = exclude \<or> phase peer \<noteq> Ready then mret ()
       else mcatch (sendRouteUpdate cx now c False) (\<lambda>e. close c 1011 ''route synchronization failed''))))"
    using room_scope [OF I name] by (intro keeps_for keeps_inform close) auto
  from keepsD [OF this I] show "I (snd (broadcast_with cx now close name exclude w))"
    by (simp add: broadcast_with_def mbind_mget)
qed

end

end
