(* ===== verification/Closing.thy ===== *)
theory Closing
  imports Server_Frames
begin

text \<open>
  \<open>close\<close>, \<open>removeConnection\<close> and \<open>broadcastRouteUpdate\<close> of \<open>cloudflare/src/server.ts\<close> call each other.
  Here: what each invariant survives, and why the recursion ends.  Every round marks one more
  connection as closed before it goes on, so the number of live connections bounds its depth, and any
  fuel of at least this number gives the same result.
\<close>

subsection \<open>Closing keeps the invariants\<close>

lemma snd_mfinally: "snd (mfinally m f s) = snd (f (snd (m s)))"
  by (simp add: mfinally_def split: prod.split sum.split)

text \<open>\<open>close\<close>, as a parameter, for connections that are ready.\<close>

definition closes :: "(('hs, 'x, 'y) world \<Rightarrow> bool) \<Rightarrow> cid set \<Rightarrow> ('hs, 'x, 'y) closer \<Rightarrow> bool" where
  "closes I S close \<longleftrightarrow> (\<forall>w c code reason. I w \<and> c \<in> S \<and> phase_of c w = Ready \<longrightarrow> I (snd (close c code reason w)))"

lemma closesD: "closes I S close \<Longrightarrow> I w \<Longrightarrow> c \<in> S \<Longrightarrow> phase_of c w = Ready \<Longrightarrow> I (snd (close c code reason w))"
  by (simp add: closes_def)

text \<open>After the departure, whatever the phase of the connection was.\<close>

lemma after_depart:
  assumes I: "closing_invariant cx I S N" and close: "\<And>J. closing_invariant cx J S N \<Longrightarrow> closes J S close"
    and c: "c \<in> S"
    and w: "phase_of c w \<noteq> Closed \<Longrightarrow> I (depart cx c w)" "phase_of c w = Closed \<Longrightarrow> I w"
  shows "I (snd (remove_with cx now close c w)) \<and> phase_of c (snd (remove_with cx now close c w)) = Closed"
proof (cases "phase_of c w = Closed")
  case False
  let ?J = "\<lambda>w. I w \<and> phase_of c w = Closed"
  have J: "closing_invariant cx ?J S N" using I by (rule closing_invariant.closed)
  have name: "networkName (w_conns w c) \<in> N"
    using server_invariant.name_scope [OF closing_invariant.axioms(1) [OF I] w(1) [OF False] c] by simp
  have "keeps ?J (mbind (if b then broadcast_with cx now close (networkName (w_conns w c)) None else mret ())
      (\<lambda>_. mmod (dispose now c)))" for b
    by (intro pres closing_invariant.keeps_broadcast [OF J name] closesD [OF close [OF J]] keeps_mod)
       (auto intro: closing_invariant.dispose [OF I _ c])
  from keepsD [OF this, of "depart cx c w"] w False show ?thesis
    by (auto simp: remove_with_depart phase_of_depart)
qed (use w in \<open>simp add: remove_with_depart\<close>)

lemma closes_close_fuel: "closing_invariant cx I S N \<Longrightarrow> closes I S (close_fuel cx now n)"
proof (induction n arbitrary: I)
  case (Suc n)
  let ?I = "\<lambda>c w. I w \<and> phase_of c w = Ready"
  have "I (snd (close_fuel cx now (Suc n) c code reason w))" if w: "?I c w" and c: "c \<in> S" for c code reason w
  proof -
    let ?sock = "on_conn c (on_socket (socket_close code (take 120 reason)))"
    have "keeps (?I c) ?sock"
      by (intro server_invariant.keeps_on_conn [OF server_invariant.ready [OF closing_invariant.axioms(1) [OF Suc.prems]]]
          identity_socket c)
    from keepsD [OF this w] have s: "I (snd (?sock w))" "phase_of c (snd (?sock w)) = Ready" by simp_all
    have "I (depart cx c (snd (?sock w)))" by (rule closing_invariant.depart [OF Suc.prems s(1) c s(2)])
    from after_depart [OF Suc.prems Suc.IH c this s(1)] w show ?thesis
      by (simp add: mbind_mget snd_mfinally)
  qed
  then show ?case by (simp add: closes_def)
qed (simp add: closes_def mret_def)

lemma closes_close_conn: "closing_invariant cx I S N \<Longrightarrow> closes I S (close_conn cx now)"
  using closes_close_fuel unfolding closes_def close_conn_def by blast

lemma keeps_broadcastRouteUpdate:
  "closing_invariant cx I S N \<Longrightarrow> name \<in> N \<Longrightarrow> keeps I (broadcastRouteUpdate cx now name exclude)"
  unfolding broadcastRouteUpdate_def
  by (rule closing_invariant.keeps_broadcast) (auto intro: closesD [OF closes_close_conn])

text \<open>Closing a connection in whatever phase, when its own departure is accounted for.\<close>

lemma close_keeps:
  assumes I: "closing_invariant cx I S N" and w: "I w" and c: "c \<in> S"
    and "\<And>w. I w \<Longrightarrow> phase_of c w \<noteq> Closed \<Longrightarrow> I (depart cx c w)"
  shows "I (snd (close_conn cx now c code reason w))"
proof (cases "live w")
  case (Suc n)
  have "I (snd (on_conn c (on_socket m) w))" for m :: "(websocket, unit) op"
    by (rule keepsD [OF server_invariant.keeps_on_conn [OF closing_invariant.axioms(1) [OF I] c identity_socket] w])
  with assms(4) after_depart [OF I closes_close_fuel c] w show ?thesis
    by (simp add: close_conn_def Suc mbind_mget snd_mfinally mret_def)
qed (use w in \<open>simp add: close_conn_def mret_def\<close>)

lemma removeConnection_keeps:
  assumes "closing_invariant cx I S N" and "c \<in> S"
    and "phase_of c w \<noteq> Closed \<Longrightarrow> I (depart cx c w)" "phase_of c w = Closed \<Longrightarrow> I w"
  shows "I (snd (removeConnection cx now c w))"
  using after_depart [OF assms(1) closes_close_conn assms(2-4)] by (simp add: removeConnection_def)

subsection \<open>Live connections\<close>

definition heap_ok :: "('hs, 'x, 'y) world \<Rightarrow> bool" where
  "heap_ok w \<longleftrightarrow> (\<forall>c. w_next w \<le> c \<longrightarrow> phase_of c w = Closed)"

definition few :: "nat \<Rightarrow> ('hs, 'x, 'y) world \<Rightarrow> bool" where
  "few n w \<longleftrightarrow> heap_ok w \<and> live w \<le> n"

lemma live_card: "heap_ok w \<Longrightarrow> live w = card {c. phase_of c w \<noteq> Closed} \<and> finite {c. phase_of c w \<noteq> Closed}"
proof -
  assume h: "heap_ok w"
  have "set (filter (\<lambda>c. phase_of c w \<noteq> Closed) [0..<w_next w]) = {c. phase_of c w \<noteq> Closed}"
    using h by (auto simp: heap_ok_def not_le [symmetric])
  then show ?thesis
    unfolding live_def by (metis List.finite_set distinct_card distinct_filter distinct_upt)
qed

lemma live_cong: "w_next w' = w_next w \<Longrightarrow> (\<And>c. phase_of c w' = phase_of c w) \<Longrightarrow> few n w' = few n w"
  by (simp add: few_def heap_ok_def live_def)

lemma heap_ok_depart: "heap_ok w \<Longrightarrow> heap_ok (depart cx c w)"
  by (simp add: heap_ok_def phase_of_depart)

lemma live_depart: "heap_ok w \<Longrightarrow> phase_of c w \<noteq> Closed \<Longrightarrow> live w = Suc (live (depart cx c w))"
proof -
  assume h: "heap_ok w" and c: "phase_of c w \<noteq> Closed"
  have "{d. phase_of d (depart cx c w) \<noteq> Closed} = {d. phase_of d w \<noteq> Closed} - {c}"
    by (auto simp: phase_of_depart)
  moreover have "card {d. phase_of d w \<noteq> Closed} = Suc (card ({d. phase_of d w \<noteq> Closed} - {c}))"
    using live_card [OF h] c by (intro card.remove) simp_all
  ultimately show ?thesis
    using live_card [OF h] live_card [OF heap_ok_depart [OF h], of cx c] by (simp only:)
qed

interpretation few: closing_invariant cx "few n" UNIV UNIV for cx n
proof unfold_locales
  fix w :: "('a, 'b, 'c) world" and k :: "'a connection" and c
  assume "few n w" "identity k = identity (w_conns w c)"
  then show "few n (conn_mod c (\<lambda>_. k) w)"
    by (subst live_cong [of _ w]) (auto simp: conn_mod_def phase_of_def identity_def)
next
  fix w :: "('a, 'b, 'c) world" and c
  assume "few n w" "phase_of c w = Ready"
  then show "few n (depart cx c w)"
    using live_depart [of w c cx] heap_ok_depart [of w cx c] by (simp add: few_def)
next
  fix w :: "('a, 'b, 'c) world" and c now
  assume "few n w"
  then show "few n (dispose now c w)" by (subst live_cong [of _ w]) simp_all
qed (auto simp: few_def heap_ok_def live_def phase_of_def)

subsection \<open>Enough fuel\<close>

definition agree :: "('s \<Rightarrow> bool) \<Rightarrow> ('s, 'a) op \<Rightarrow> ('s, 'a) op \<Rightarrow> bool" where
  "agree I m m' \<longleftrightarrow> (\<forall>s. I s \<longrightarrow> m s = m' s)"

lemma agree_refl: "agree I m m"
  by (simp add: agree_def)

lemma agree_bind:
  "agree I m m' \<Longrightarrow> keeps I m' \<Longrightarrow> (\<And>a. agree I (f a) (f' a)) \<Longrightarrow> agree I (mbind m f) (mbind m' f')"
  by (auto simp: agree_def keeps_def mbind_def split: prod.split sum.split)

lemma agree_catch:
  "agree I m m' \<Longrightarrow> keeps I m' \<Longrightarrow> (\<And>e. agree I (h e) (h' e)) \<Longrightarrow> agree I (mcatch m h) (mcatch m' h')"
  by (auto simp: agree_def keeps_def mcatch_def split: prod.split sum.split)

lemma agree_finally:
  "agree I m m' \<Longrightarrow> keeps I m' \<Longrightarrow> agree I f f' \<Longrightarrow> agree I (mfinally m f) (mfinally m' f')"
  by (auto simp: agree_def keeps_def mfinally_def split: prod.split sum.split)

lemma agree_for:
  "(\<And>x. agree I (f x) (f' x)) \<Longrightarrow> (\<And>x. keeps I (f' x)) \<Longrightarrow> agree I (mfor xs f) (mfor xs f')"
  by (induction xs) (auto intro: agree_refl agree_bind)

lemma agree_if: "(b \<Longrightarrow> agree I m m') \<Longrightarrow> (\<not> b \<Longrightarrow> agree I k k') \<Longrightarrow> agree I (if b then m else k) (if b then m' else k')"
  by simp

lemma agree_broadcast:
  assumes I: "closing_invariant cx I UNIV UNIV"
    and close: "\<And>c code reason. agree I (close c code reason) (close' c code reason)"
    and keeps: "closes I UNIV close'"
  shows "agree I (broadcast_with cx now close name exclude) (broadcast_with cx now close' name exclude)"
proof -
  let ?item = "\<lambda>close c. mbind (mget (\<lambda>w. w_conns w c)) (\<lambda>peer.
     if Some (peerId peer) = exclude \<or> phase peer \<noteq> Ready then mret ()
     else mcatch (sendRouteUpdate cx now c False) (\<lambda>e. close c 1011 ''route synchronization failed''))"
  have item: "agree I (?item close c) (?item close' c)" for c
    unfolding agree_def
  proof (intro allI impI)
    fix w assume w: "I w"
    show "?item close c w = ?item close' c w"
    proof (cases "phase_of c w = Ready")
      case True
      have "I (snd (sendRouteUpdate cx now c False w))"
        using w True keepsD [OF server_invariant.keeps_sendRouteUpdate
            [OF server_invariant.ready [OF closing_invariant.axioms(1) [OF I]] UNIV_I, of c c], of w now False]
        by blast
      then have "mcatch (sendRouteUpdate cx now c False) (\<lambda>e. close c 1011 ''route synchronization failed'') w =
          mcatch (sendRouteUpdate cx now c False) (\<lambda>e. close' c 1011 ''route synchronization failed'') w"
        using close by (auto simp: agree_def mcatch_def split: prod.split sum.split)
      then show ?thesis by (simp add: mbind_mget)
    qed (simp add: mbind_mget phase_of_def)
  qed
  show ?thesis
    unfolding broadcast_with_def
    by (rule agree_bind, rule agree_refl, rule keeps_get, rule agree_for, rule item,
        rule closing_invariant.keeps_inform [OF I UNIV_I], erule closesD [OF keeps _ UNIV_I])
qed

lemma agree_remove_with:
  assumes close: "\<And>c code reason. agree (few n) (close c code reason) (close' c code reason)"
    and keeps: "closes (few n) UNIV close'"
  shows "agree (few (Suc n)) (remove_with cx now close c) (remove_with cx now close' c)"
  unfolding agree_def
proof (intro allI impI)
  fix w :: "('a, 'b, 'c) world"
  assume w: "few (Suc n) w"
  let ?b = "\<lambda>close. if phase_of c w = Ready then broadcast_with cx now close (networkName (w_conns w c)) None else mret ()"
  show "remove_with cx now close c w = remove_with cx now close' c w"
  proof (cases "phase_of c w = Closed")
    case False
    then have "few n (depart cx c w)"
      using w live_depart [of w c cx] heap_ok_depart [of w cx c] by (simp add: few_def)
    moreover have "agree (few n) (?b close) (?b close')"
      by (intro agree_if agree_refl agree_broadcast [OF few.closing_invariant_axioms] close keeps)
    ultimately have "?b close (depart cx c w) = ?b close' (depart cx c w)"
      by (simp only: agree_def)
    with False show ?thesis by (simp add: remove_with_depart mbind_def)
  qed (simp add: remove_with_depart)
qed

lemma close_fuel_Suc: "agree (few n) (close_fuel cx now n c code reason) (close_fuel cx now (Suc n) c code reason)"
proof (induction n arbitrary: c code reason)
  case 0
  show ?case
    unfolding agree_def
  proof (intro allI impI)
    fix w :: "('a, 'b, 'c) world"
    assume "few 0 w"
    then have "phase_of c w = Closed" using live_card [of w] by (auto simp: few_def)
    then show "close_fuel cx now 0 c code reason w = close_fuel cx now (Suc 0) c code reason w"
      by (simp add: mbind_mget mret_def)
  qed
next
  case (Suc n)
  have "keeps (few (Suc n)) (on_conn c (on_socket m))" for m :: "(websocket, unit) op"
    by (intro few.keeps_on_conn UNIV_I identity_socket)
  moreover have "agree (few (Suc n)) (remove_with cx now (close_fuel cx now n) c) (remove_with cx now (close_fuel cx now (Suc n)) c)"
    by (intro agree_remove_with Suc.IH closes_close_fuel [OF few.closing_invariant_axioms])
  ultimately show ?case
    unfolding close_fuel.simps(2) [of cx now n] close_fuel.simps(2) [of cx now "Suc n"]
    by (intro agree_bind agree_if agree_refl agree_finally pres)
qed

lemma close_fuel_enough:
  assumes "heap_ok w" and "live w \<le> n"
  shows "close_fuel cx now n c code reason w = close_conn cx now c code reason w"
  using assms(2)
proof (induction rule: dec_induct)
  case (step m)
  have "few m w" using assms(1) step.hyps by (simp add: few_def)
  then show ?case using close_fuel_Suc [of m cx now c code reason] step.IH by (simp add: agree_def)
qed (simp add: close_conn_def)

interpretation any: closing_invariant cx "\<lambda>_. True" UNIV UNIV for cx
  by unfold_locales simp_all

lemmas closed_invariant = closing_invariant.closed [OF any.closing_invariant_axioms, simplified]

text \<open>The equation of the code.\<close>

lemma close_unfold:
  assumes "heap_ok w"
  shows "close_conn cx now c code reason w =
    (if phase_of c w = Closed then (Inr (), w)
     else mfinally (on_conn c (on_socket (socket_close code (take 120 reason)))) (removeConnection cx now c) w)"
proof (cases "phase_of c w = Closed")
  case False
  let ?sock = "on_conn c (on_socket (socket_close code (take 120 reason)))"
  obtain n where n: "live w = Suc n" using live_depart [OF assms False] by blast
  then have few: "few (Suc n) w" using assms by (simp add: few_def)
  have "agree (few n) (close_fuel cx now n c code reason) (close_conn cx now c code reason)" for c code reason
    by (simp add: agree_def few_def close_fuel_enough)
  then have "agree (few (Suc n)) (remove_with cx now (close_fuel cx now n) c) (removeConnection cx now c)"
    unfolding removeConnection_def by (intro agree_remove_with closes_close_conn [OF few.closing_invariant_axioms])
  then have "agree (few (Suc n)) (mfinally ?sock (remove_with cx now (close_fuel cx now n) c))
      (mfinally ?sock (removeConnection cx now c))"
    by (intro agree_finally agree_refl few.keeps_on_conn UNIV_I identity_socket)
  with few have "mfinally ?sock (remove_with cx now (close_fuel cx now n) c) w =
      mfinally ?sock (removeConnection cx now c) w"
    by (simp add: agree_def)
  with False show ?thesis by (simp add: close_conn_def n mbind_mget)
qed (cases "live w"; simp add: close_conn_def mbind_mget mret_def)

lemma close_closes:
  assumes "heap_ok w"
  shows "phase_of c (snd (close_conn cx now c code reason w)) = Closed"
proof -
  have "phase_of c (snd (remove_with cx now (close_conn cx now) c w')) = Closed" for w'
    by (rule conjunct2 [OF after_depart [OF any.closing_invariant_axioms]]) (simp_all add: closes_close_conn)
  then show ?thesis by (simp add: close_unfold [OF assms] snd_mfinally removeConnection_def)
qed

text \<open>C8: Closing a connection ends, however many clients have to be closed in turn: the bounded recursion
  of the model satisfies the code's own equation, in which \<open>close\<close> calls \<open>removeConnection\<close>, this
  informs the network and closes whoever cannot be informed.  Whatever fails on the way, the connection
  is closed afterwards, and no closed connection is opened again.\<close>

theorem closing_ends:
  assumes "heap_ok w"
  shows "close_conn cx now c code reason w =
      (if phase_of c w = Closed then (Inr (), w)
       else mfinally (on_conn c (on_socket (socket_close code (take 120 reason)))) (removeConnection cx now c) w)
    \<and> phase_of c (snd (close_conn cx now c code reason w)) = Closed
    \<and> (\<forall>d. phase_of d w = Closed \<longrightarrow> phase_of d (snd (close_conn cx now c code reason w)) = Closed)"
  using assms close_keeps [OF closed_invariant _ UNIV_I, of _ w c cx now code reason]
  by (intro conjI close_unfold close_closes) (auto simp: phase_of_depart)


definition toy_cx :: "(nat, unit, unit) server_ctx" where
  "toy_cx = \<lparr>sx_lib = toy_lib, sx_rpc = toy_rpc_lib, sx_config = sample_config\<rparr>"

definition one_connection :: "(nat, unit, unit) world" where
  "one_connection = \<lparr>w_conns = (\<lambda>_. no_connection)(0 := createConnection 1000 (0, 5) open_socket Secure_Session.toy_pending),
     w_next = 1, w_connections = [0], w_rooms = [], w_timer = True, w_core = toy_core, w_sync = [], w_store = [], w_draws = 0\<rparr>"

theorem closing_ends_witness:
  "phase_of 0 one_connection = Msg1 \<and> phase_of 0 (snd (close_conn toy_cx 1000 0 4401 ''bye'' one_connection)) = Closed"
proof -
  have "heap_ok one_connection" by (simp add: heap_ok_def one_connection_def phase_of_def no_connection_def)
  then have "phase_of 0 (snd (close_conn toy_cx 1000 0 4401 ''bye'' one_connection)) = Closed"
    using closing_ends by blast
  moreover have "phase_of 0 one_connection = Msg1" by (simp add: phase_of_def one_connection_def createConnection_def)
  ultimately show ?thesis by blast
qed

end
