(* ===== verification/Server_Invariant.thy ===== *)
theory Server_Invariant
  imports Closing
begin

text \<open>
  The invariant of the Durable Object, \<open>cloudflare/src/server.ts\<close>: which connections are open, registered,
  authenticated and known to the RPC core, in every state between two events.  \<open>world_ok X R\<close> exempts
  the connection a handler is working on: those in \<open>X\<close> need not be in the state their phase says, those
  in \<open>R\<close> may be registered before they are ready.
\<close>

subsection \<open>The identity in the secure peer\<close>

definition id_ok :: "'hs secure_peer \<Rightarrow> bool" where
  "id_ok p \<longleftrightarrow> server_peer_id p = SERVER_PEER_ID \<and> peer_id p \<noteq> Some SERVER_PEER_ID"

lemma id_ok_proved: "proved p = proved q \<Longrightarrow> id_ok p = id_ok q"
  by (simp add: proved_def id_ok_def)

lemma same_proved_build_msg2: "keeps (same proved v) (build_msg2 lib t secret)"
  unfolding build_msg2_def Let_def random_uuid_def write_handshake_def attach_session_def
  by (intro pres same_mod same_load ext_proved; simp add: proved_def)

lemma keeps_server_id:
  "keeps (\<lambda>s. id_ok (sc_peer s)) (f SERVER_PEER_ID) \<Longrightarrow>
     keeps (\<lambda>s. id_ok (sc_peer s)) (mbind (peer_get server_peer_id) f)"
  by (auto simp: keeps_def id_ok_def peer_get_def mbind_mget)

lemma id_ok_read_msg1: "keeps (\<lambda>s. id_ok (sc_peer s)) (read_msg1 lib packet)"
  unfolding read_msg1_def
  by (intro keeps_server_id pres) (auto simp: keeps_def peer_mod_def mmod_def id_ok_def)

text \<open>What the server reads back of the JSON that \<open>finish_msg3\<close> wrote.\<close>

lemma auth_info_read:
  assumes "json_writer (to_json lib)" and "to_json lib (auth_info lib pid name remote) = Inr text"
    and "parseAuthenticationInfo text = Inr a"
  shows "ai_peerId a = pid \<and> ai_networkName a = name \<and> name \<noteq> [] \<and> length (ai_remotePublicKey a) = 32"
proof -
  have "writable (auth_info lib pid name remote)" by (simp add: auth_info_def)
  then have "JSON_parse text = Some (auth_info lib pid name remote)"
    using json_writer.write_parse assms(1,2) by blast
  then show ?thesis
    using assms(3) readPeerId_json_u32 [of pid "''peer_id''"] readPeerId_Inr_nonzero
    by (cases "pid = 0")
       (auto simp: parseAuthenticationInfo_def rbind_Inr_iff parseObject_Inr auth_info_def readString_Inr
         decodePublicKey_Inr json_u32_def readPeerId_def double_of_int)
qed

lemma finish_msg3_proved:
  assumes "json_writer (to_json lib)" and "finish_msg3 lib t b s = (Inr text, s')"
    and "parseAuthenticationInfo text = Inr a"
  shows "proved (sc_peer s') = (Some (ai_peerId a), Some (ai_networkName a), server_peer_id (sc_peer s), True)
    \<and> peer_id (sc_peer s) = Some (ai_peerId a) \<and> length (ai_remotePublicKey a) = 32"
proof -
  obtain pid remote s1 where s1: "msg3_checked lib t b s = (Inr (pid, remote), s1)"
    and s': "s' = s1\<lparr>sc_peer := (sc_peer s1)\<lparr>authenticated := True\<rparr>\<rparr>"
    and json: "to_json lib (auth_info lib pid (case network_name (sc_peer s1) of None \<Rightarrow> [] | Some n \<Rightarrow> n) remote) = Inr text"
    using assms(2) by (auto simp: finish_msg3_def op_inv)
  have p: "peer_id (sc_peer s) = Some pid" "sc_peer s1 = (sc_peer s)\<lparr>handshake := None\<rparr>"
    using msg3_checked_Inr [OF s1] by (metis sec.ext_inject sec.surjective sec.update_convs(1) sec.select_convs(1) sec.update_convs(2))+
  from auth_info_read [OF assms(1) json assms(3)] show ?thesis
    by (cases "network_name (sc_peer s)") (auto simp: proved_def s' p)
qed

subsection \<open>The invariant\<close>

definition configured :: "('hs, 'x, 'y) server_ctx \<Rightarrow> string \<Rightarrow> bool" where
  "configured cx name \<longleftrightarrow> m_get (cfg_rooms (sx_config cx)) name \<noteq> None"

definition conn_ok :: "('hs, 'x, 'y) server_ctx \<Rightarrow> 'hs connection \<Rightarrow> bool" where
  "conn_ok cx k \<longleftrightarrow> phase k = Closed \<or>
     (case map_option proved (secure k) of None \<Rightarrow> False
      | Some (pid, name, server, auth) \<Rightarrow>
          server = SERVER_PEER_ID \<and> pid \<noteq> Some SERVER_PEER_ID \<and> auth = (phase k = Ready)
        \<and> (phase k \<noteq> Msg1 \<longrightarrow> configured cx (networkName k))
        \<and> (phase k = Ready \<longrightarrow> pid = Some (peerId k) \<and> name = Some (networkName k) \<and> length (remotePublicKey k) = 32))"

lemma conn_ok_identity: "identity k = identity k' \<Longrightarrow> conn_ok cx k = conn_ok cx k'"
proof -
  assume "identity k = identity k'"
  then have "phase k = phase k'" "peerId k = peerId k'" "networkName k = networkName k'"
    "remotePublicKey k = remotePublicKey k'" "map_option proved (secure k) = map_option proved (secure k')"
    by (simp_all add: identity_def)
  then show ?thesis by (simp only: conn_ok_def)
qed

lemma conn_ok_closed [simp]: "phase k = Closed \<Longrightarrow> conn_ok cx k"
  by (simp add: conn_ok_def)

lemma conn_ok_ready_id: "conn_ok cx k \<Longrightarrow> phase k = Ready \<Longrightarrow> peerId k \<noteq> SERVER_PEER_ID"
  by (auto simp: conn_ok_def split: option.splits)

definition open_ids :: "('hs, 'x, 'y) world \<Rightarrow> cid list" where
  "open_ids w = filter (\<lambda>c. phase_of c w \<noteq> Closed) [0..<w_next w]"

definition registered_ok :: "cid set \<Rightarrow> ('hs, 'x, 'y) world \<Rightarrow> bool" where
  "registered_ok R w \<longleftrightarrow> rooms_wf (w_rooms w)
     \<and> (\<forall>n p c. rooms_get (w_rooms w) n p = Some c \<longrightarrow>
          routeSyncKey (w_conns w c) = (n, p) \<and> (phase_of c w = Ready \<or> c \<in> R \<and> phase_of c w \<noteq> Closed))
     \<and> (\<forall>c. phase_of c w = Ready \<longrightarrow>
          rooms_get (w_rooms w) (networkName (w_conns w c)) (peerId (w_conns w c)) = Some c)"

definition sync_ok :: "('hs, 'x, 'y) world \<Rightarrow> bool" where
  "sync_ok w \<longleftrightarrow> m_ok (w_sync w) \<and> (\<forall>key st. m_get (w_sync w) key = Some st \<longrightarrow>
     phase_of (ss_peer st) w = Ready \<and> routeSyncKey (w_conns w (ss_peer st)) = key)"

definition core_members_ok :: "('hs, 'x, 'y) server_ctx \<Rightarrow> ('hs, 'x, 'y) world \<Rightarrow> bool" where
  "core_members_ok cx w \<longleftrightarrow> core_ok (sx_rpc cx) SERVER_PEER_ID (w_core w)
     \<and> (\<forall>c. phase_of c w = Ready \<longrightarrow>
          core_member (sx_rpc cx) (w_core w) (networkName (w_conns w c)) (peerId (w_conns w c)))"

definition world_ok :: "('hs, 'x, 'y) server_ctx \<Rightarrow> cid set \<Rightarrow> cid set \<Rightarrow> ('hs, 'x, 'y) world \<Rightarrow> bool" where
  "world_ok cx X R w \<longleftrightarrow> heap_ok w
     \<and> w_connections w = open_ids w \<and> length (open_ids w) \<le> MAX_CONNECTIONS
     \<and> (w_timer w \<longrightarrow> open_ids w \<noteq> [])
     \<and> (\<forall>c. c \<notin> X \<or> phase_of c w = Ready \<longrightarrow> conn_ok cx (w_conns w c))
     \<and> registered_ok R w \<and> sync_ok w \<and> core_members_ok cx w"

lemma world_ok_mono: "world_ok cx X R w \<Longrightarrow> X \<subseteq> X' \<Longrightarrow> R \<subseteq> R' \<Longrightarrow> world_ok cx X' R' w"
  unfolding world_ok_def registered_ok_def by blast

lemma sync_members: "world_ok cx X R w \<Longrightarrow> sync_members cx w"
  by (auto simp: world_ok_def sync_ok_def core_members_ok_def sync_members_def)

text \<open>A departure, of a ready connection or of one the handler works on.\<close>

lemma open_ids_depart: "open_ids (depart cx c w) = removeAll c (open_ids w)"
  by (auto simp: open_ids_def phase_of_depart removeAll_filter_not_eq intro!: filter_cong)

lemma registered_ready:
  "registered_ok R w \<Longrightarrow> phase_of c w = Ready \<Longrightarrow>
     rooms_get (w_rooms w) (networkName (w_conns w c)) (peerId (w_conns w c)) = Some c"
  by (simp add: registered_ok_def)

lemma registered_get:
  "registered_ok R w \<Longrightarrow> rooms_get (w_rooms w) n p = Some c \<Longrightarrow>
     networkName (w_conns w c) = n \<and> peerId (w_conns w c) = p \<and> (phase_of c w = Ready \<or> c \<in> R \<and> phase_of c w \<noteq> Closed)"
  by (simp add: registered_ok_def routeSyncKey_def)

lemma same_key:
  assumes "registered_ok R w" "phase_of c w = Ready" "phase_of d w = Ready"
    and "networkName (w_conns w c) = networkName (w_conns w d)" "peerId (w_conns w c) = peerId (w_conns w d)"
  shows "c = d"
proof -
  have "rooms_get (w_rooms w) (networkName (w_conns w d)) (peerId (w_conns w d)) = Some c"
    using registered_ready [OF assms(1,2)] unfolding assms(4,5) .
  with registered_ready [OF assms(1,3)] show ?thesis by simp
qed

lemma registered_depart:
  assumes reg: "registered_ok R w"
  shows "registered_ok (R - {c}) (depart cx c w)"
proof -
  let ?n = "networkName (w_conns w c)" and ?p = "peerId (w_conns w c)"
  have 1: "d \<noteq> c \<and> rooms_get (w_rooms w) n p = Some d" if "rooms_get (w_rooms (depart cx c w)) n p = Some d" for n p d
  proof -
    have get: "rooms_get (w_rooms w) n p = Some d" "\<not> (n = ?n \<and> p = ?p \<and> rooms_get (w_rooms w) ?n ?p = Some c)"
      using that by (simp_all split: if_splits)
    moreover from get registered_get [OF reg get(1)] have "d \<noteq> c" by blast
    ultimately show ?thesis by simp
  qed
  have 2: "rooms_get (w_rooms (depart cx c w)) (networkName (w_conns w d)) (peerId (w_conns w d)) = Some d"
    if "phase_of d w = Ready" "d \<noteq> c" for d
    using registered_ready [OF reg that(1)] that(2) by (simp, metis option.inject)
  have "rooms_wf (w_rooms (depart cx c w))" using reg by (simp add: registered_ok_def)
  moreover have "routeSyncKey (w_conns (depart cx c w) d) = (n, p)
      \<and> (phase_of d (depart cx c w) = Ready \<or> d \<in> R - {c} \<and> phase_of d (depart cx c w) \<noteq> Closed)"
    if "rooms_get (w_rooms (depart cx c w)) n p = Some d" for n p d
    using 1 [OF that] registered_get [OF reg, of n p d] by (simp add: phase_of_depart routeSyncKey_def)
  moreover have "rooms_get (w_rooms (depart cx c w)) (networkName (w_conns (depart cx c w) d)) (peerId (w_conns (depart cx c w) d)) = Some d"
    if "phase_of d (depart cx c w) = Ready" for d
    using that 2 [of d] by (simp add: phase_of_depart del: depart_sel(4) split: if_splits)
  ultimately show ?thesis unfolding registered_ok_def by blast
qed

lemma sync_depart:
  assumes reg: "registered_ok R w" and sync: "sync_ok w"
  shows "sync_ok (depart cx c w)"
proof -
  have "phase_of (ss_peer st) (depart cx c w) = Ready \<and> routeSyncKey (w_conns (depart cx c w) (ss_peer st)) = key"
    if "m_get (w_sync (depart cx c w)) key = Some st" for key st
  proof -
    have st: "m_get (w_sync w) key = Some st" "phase_of c w = Ready \<longrightarrow> key \<noteq> routeSyncKey (w_conns w c)"
      using that by (auto simp: m_get_del simp del: map_of_eq_Some_iff split: if_splits)
    then have "phase_of (ss_peer st) w = Ready" "routeSyncKey (w_conns w (ss_peer st)) = key"
      using sync unfolding sync_ok_def by blast+
    with st(2) show ?thesis by (cases "ss_peer st = c") (auto simp: phase_of_depart)
  qed
  then show ?thesis using sync by (simp add: sync_ok_def del: map_of_eq_Some_iff)
qed

lemma core_members_depart:
  assumes reg: "registered_ok R w" and core: "core_members_ok cx w"
    and id: "phase_of c w = Ready \<Longrightarrow> peerId (w_conns w c) \<noteq> SERVER_PEER_ID"
  shows "core_members_ok cx (depart cx c w)"
proof (cases "phase_of c w = Ready")
  case True
  have "\<not> (networkName (w_conns w d) = networkName (w_conns w c) \<and> peerId (w_conns w d) = peerId (w_conns w c))"
    if "phase_of d w = Ready" "d \<noteq> c" for d
    using same_key [OF reg that(1) True] that(2) by blast
  with True core id show ?thesis
    by (auto simp: core_members_ok_def phase_of_depart core_remove_member core_ok_remove_peer split: if_splits)
next
  case False
  with core show ?thesis by (auto simp: core_members_ok_def phase_of_depart split: if_splits)
qed

lemma world_ok_depart:
  assumes w: "world_ok cx X R w"
  shows "world_ok cx (X - {c}) (R - {c}) (depart cx c w)"
proof -
  have id: "phase_of c w = Ready \<Longrightarrow> peerId (w_conns w c) \<noteq> SERVER_PEER_ID"
    using w conn_ok_ready_id [of cx "w_conns w c"] by (simp add: world_ok_def phase_of_def)
  have "length (open_ids w) \<le> MAX_CONNECTIONS" using w by (simp add: world_ok_def)
  then have "length (removeAll c (open_ids w)) \<le> MAX_CONNECTIONS" by (rule order_trans [OF length_removeAll_less_eq])
  moreover have "conn_ok cx (w_conns (depart cx c w) d)" if "d \<notin> X - {c} \<or> phase_of d (depart cx c w) = Ready" for d
    using that w by (auto simp: world_ok_def phase_of_depart split: if_splits)
  ultimately show ?thesis
    using w registered_depart [of R w c cx] sync_depart [of R w cx c] core_members_depart [of R w cx c] id
      heap_ok_depart [of w cx c]
    by (auto simp: world_ok_def open_ids_depart)
qed

text \<open>Changes that leave the identities alone.\<close>

lemma world_ok_identities:
  assumes w: "world_ok cx X R w"
    and id: "\<And>c. identity (w_conns w' c) = identity (w_conns w c)"
    and same: "w_next w' = w_next w" "w_connections w' = w_connections w" "w_rooms w' = w_rooms w"
      "w_timer w' = w_timer w" "w_sync w' = w_sync w" "w_core w' = w_core w"
  shows "world_ok cx X R w'"
proof -
  have ph: "phase_of c w' = phase_of c w" "networkName (w_conns w' c) = networkName (w_conns w c)"
    "peerId (w_conns w' c) = peerId (w_conns w c)" for c
    using id [of c] by (simp_all add: identity_def phase_of_def)
  have ok: "conn_ok cx (w_conns w' c) = conn_ok cx (w_conns w c)" for c
    using id by (rule conn_ok_identity)
  show ?thesis
    using w
    unfolding world_ok_def heap_ok_def open_ids_def registered_ok_def sync_ok_def core_members_ok_def
      routeSyncKey_def ph ok same .
qed

lemma world_ok_core:
  assumes "world_ok cx X R w" and "core_ok (sx_rpc cx) SERVER_PEER_ID k"
    and "\<And>n p. core_member (sx_rpc cx) (w_core w) n p \<Longrightarrow> core_member (sx_rpc cx) k n p"
  shows "world_ok cx X R (w\<lparr>w_core := k\<rparr>)"
  using assms by (simp add: world_ok_def heap_ok_def open_ids_def registered_ok_def sync_ok_def core_members_ok_def phase_of_def)

lemma world_ok_sync:
  assumes "world_ok cx X R w" and "sync_ok (w\<lparr>w_sync := m\<rparr>)"
  shows "world_ok cx X R (w\<lparr>w_sync := m\<rparr>)"
  using assms by (simp add: world_ok_def heap_ok_def open_ids_def registered_ok_def core_members_ok_def phase_of_def)

lemma sync_ok_put:
  assumes "sync_ok w" and "phase_of (ss_peer st) w = Ready" and "routeSyncKey (w_conns w (ss_peer st)) = key"
  shows "sync_ok (w\<lparr>w_sync := m_put key st (w_sync w)\<rparr>)"
proof -
  have "phase_of (ss_peer st') w = Ready \<and> routeSyncKey (w_conns w (ss_peer st')) = key'"
    if "m_get (m_put key st (w_sync w)) key' = Some st'" for key' st'
    using that assms unfolding m_get_put sync_ok_def by (auto simp del: map_of_eq_Some_iff split: if_splits; blast)
  then show ?thesis using assms(1) by (simp add: sync_ok_def phase_of_def del: map_of_eq_Some_iff)
qed

lemma sync_ok_get: "sync_ok w \<Longrightarrow> m_get (w_sync w) key = Some st \<Longrightarrow>
    phase_of (ss_peer st) w = Ready \<and> routeSyncKey (w_conns w (ss_peer st)) = key"
  unfolding sync_ok_def by blast

lemma sync_ok_del: "sync_ok w \<Longrightarrow> sync_ok (w\<lparr>w_sync := m_del key (w_sync w)\<rparr>)"
  unfolding sync_ok_def by (auto simp: m_get_del phase_of_def simp del: map_of_eq_Some_iff split: if_splits; blast)

interpretation wok: closing_invariant cx "world_ok cx X R" UNIV UNIV for cx X R
proof unfold_locales
  fix w :: "('a, 'b, 'c) world" and k :: "'a connection" and c
  assume "world_ok cx X R w" "identity k = identity (w_conns w c)"
  then show "world_ok cx X R (conn_mod c (\<lambda>_. k) w)"
    by - (rule world_ok_identities [of cx X R w], simp_all add: conn_mod_def)
next
  fix w :: "('a, 'b, 'c) world" and st d
  assume "world_ok cx X R w"
  then show "world_ok cx X R (w\<lparr>w_store := st, w_draws := d\<rparr>)"
    by - (rule world_ok_identities [of cx X R w], simp_all)
next
  fix w :: "('a, 'b, 'c) world" and r
  assume w: "world_ok cx X R w" and same: "core_same (w_core w) r"
    and "core_ok (sx_rpc cx) SERVER_PEER_ID (w_core w) \<Longrightarrow> sync_members cx w \<Longrightarrow> core_ok (sx_rpc cx) SERVER_PEER_ID r"
  then have "core_ok (sx_rpc cx) SERVER_PEER_ID r"
    using sync_members [OF w] by (simp add: world_ok_def core_members_ok_def)
  with w show "world_ok cx X R (w\<lparr>w_core := r\<rparr>)"
    by (rule world_ok_core) (simp add: core_same_member [OF same])
next
  fix w :: "('a, 'b, 'c) world" and key and s s' :: sync_state
  assume w: "world_ok cx X R w" and s: "m_get (w_sync w) key = Some s" "ss_peer s' = ss_peer s"
  have "sync_ok w" using w by (simp add: world_ok_def)
  from sync_ok_get [OF this s(1)] have "phase_of (ss_peer s') w = Ready" "routeSyncKey (w_conns w (ss_peer s')) = key"
    by (simp_all add: s(2))
  with w show "world_ok cx X R (w\<lparr>w_sync := m_put key s' (w_sync w)\<rparr>)"
    by (intro world_ok_sync sync_ok_put) (simp_all add: world_ok_def)
next
  fix w :: "('a, 'b, 'c) world" and c key and s :: sync_state
  assume "world_ok cx X R w" "phase_of c w = Ready" "routeSyncKey (w_conns w c) = key" "ss_peer s = c"
  then show "world_ok cx X R (w\<lparr>w_sync := m_put key s (w_sync w)\<rparr>)"
    by (intro world_ok_sync sync_ok_put) (simp_all add: world_ok_def)
next
  fix w :: "('a, 'b, 'c) world" and c
  assume "world_ok cx X R w" "phase_of c w = Ready"
  then show "world_ok cx X R (depart cx c w)"
    by (intro world_ok_mono [OF world_ok_depart]) auto
next
  fix w :: "('a, 'b, 'c) world" and c now
  assume w: "world_ok cx X R w" and c: "phase_of c w = Closed"
  have key: "phase_of d (dispose now c w) = phase_of d w" "networkName (w_conns (dispose now c w) d) = networkName (w_conns w d)"
    "peerId (w_conns (dispose now c w) d) = peerId (w_conns w d)" for d
    by simp_all
  have ok: "conn_ok cx (w_conns (dispose now c w) d) = conn_ok cx (w_conns w d)" for d
    using c by (simp add: phase_of_def)
  show "world_ok cx X R (dispose now c w)"
    using w
    unfolding world_ok_def heap_ok_def open_ids_def registered_ok_def sync_ok_def core_members_ok_def
      routeSyncKey_def key ok dispose_sel(1-6) .
qed simp_all

end
