(* ===== verification/Registration.thy ===== *)
theory Registration
  imports Server_Invariant
begin

text \<open>
  The handshake of \<open>cloudflare/src/server.ts\<close>, from the first message to the registration: while a handler
  works on its connection the invariant holds with that connection exempted, and closing the connection
  restores it in full.  The old connection of a reconnecting peer leaves before the new one is added.
\<close>

subsection \<open>The connection a handler works on\<close>

lemma world_ok_done: "world_ok cx {c} {c} w \<Longrightarrow> phase_of c w = Closed \<Longrightarrow> world_ok cx {} {} w"
  unfolding world_ok_def registered_ok_def by (metis (no_types, lifting) conn_ok_closed empty_iff phase_of_def singletonD)

lemma world_ok_own:
  assumes w: "world_ok cx {c} {} w" and c: "phase_of c w \<noteq> Ready" "phase_of c w \<noteq> Closed"
    and k: "phase k \<noteq> Ready" "phase k \<noteq> Closed"
  shows "world_ok cx {c} {} (conn_mod c (\<lambda>_. k) w)"
proof -
  let ?w = "conn_mod c (\<lambda>_. k) w"
  have ph: "phase_of d ?w = (if d = c then phase k else phase_of d w)" for d
    by (simp add: phase_of_def conn_mod_def)
  have sel: "w_next ?w = w_next w" "w_connections ?w = w_connections w" "w_timer ?w = w_timer w"
    "w_rooms ?w = w_rooms w" "w_sync ?w = w_sync w" "w_core ?w = w_core w"
    by (simp_all add: conn_mod_def)
  have other: "w_conns ?w d = w_conns w d" if "d \<noteq> c" for d using that by (simp add: conn_mod_def)
  have ready: "phase_of d ?w = Ready \<longleftrightarrow> phase_of d w = Ready" and closed: "phase_of d ?w = Closed \<longleftrightarrow> phase_of d w = Closed"
    and ne: "phase_of d w = Ready \<Longrightarrow> d \<noteq> c" for d
    using c k by (auto simp: ph)
  have "open_ids ?w = open_ids w" by (simp add: open_ids_def closed sel)
  moreover have "registered_ok {} ?w"
    using w unfolding world_ok_def registered_ok_def sel ready by (metis empty_iff ne other)
  moreover have "sync_ok ?w"
    using w unfolding world_ok_def sync_ok_def sel ready by (metis ne other)
  moreover have "core_members_ok cx ?w"
    using w unfolding world_ok_def core_members_ok_def sel ready by (metis ne other)
  moreover have "heap_ok ?w" using w unfolding world_ok_def heap_ok_def sel closed by blast
  moreover have "conn_ok cx (w_conns ?w d)" if "d \<notin> {c} \<or> phase_of d ?w = Ready" for d
    using that w unfolding world_ok_def ready by (metis ne other singletonI)
  ultimately show ?thesis
    using w unfolding world_ok_def sel by simp
qed

text \<open>\<open>P\<close> is what is known of the connection.\<close>

definition own :: "('hs, 'x, 'y) server_ctx \<Rightarrow> cid \<Rightarrow> ('hs connection \<Rightarrow> bool) \<Rightarrow> ('hs, 'x, 'y) world \<Rightarrow> bool" where
  "own cx c P w \<longleftrightarrow> world_ok cx {c} {} w \<and> phase_of c w \<noteq> Ready \<and> phase_of c w \<noteq> Closed \<and> P (w_conns w c)"

lemma own_weak: "own cx c P w \<Longrightarrow> world_ok cx {c} {c} w"
  using world_ok_mono [of cx "{c}" "{}" w "{c}" "{c}"] by (simp add: own_def)

lemma own_mod:
  assumes "own cx c P w" and "phase (f (w_conns w c)) \<noteq> Ready" "phase (f (w_conns w c)) \<noteq> Closed" "Q (f (w_conns w c))"
  shows "own cx c Q (conn_mod c f w)"
proof -
  have "conn_mod c f w = conn_mod c (\<lambda>_. f (w_conns w c)) w" by (simp add: conn_mod_def)
  then show ?thesis using assms world_ok_own [of cx c w "f (w_conns w c)"] by (simp add: own_def phase_of_def conn_mod_def)
qed

lemma own_on_conn:
  assumes "own cx c P w" and "phase (snd (m (w_conns w c))) = phase (w_conns w c)" and "Q (snd (m (w_conns w c)))"
  shows "own cx c Q (snd (on_conn c m w))"
  using own_mod [OF assms(1), of "\<lambda>_. snd (m (w_conns w c))" Q] assms
  by (simp add: on_conn_def case_prod_unfold own_def phase_of_def)

lemma own_store: "own cx c P w \<Longrightarrow> own cx c P (w\<lparr>w_store := st, w_draws := d\<rparr>)"
  using wok.store [where st = st and d = d and w = w and cx = cx and X = "{c}" and R = "{}"] by (simp add: own_def phase_of_def)

lemma own_on_secure:
  assumes "own cx c P w"
    and "\<And>p. secure (w_conns w c) = Some p \<Longrightarrow> P (w_conns w c) \<Longrightarrow>
      Q ((w_conns w c)\<lparr>secure := Some (sc_peer (snd (m \<lparr>sc_peer = p, sc_store = w_store w, sc_draws = w_draws w\<rparr>)))\<rparr>)"
    and "secure (w_conns w c) = None \<Longrightarrow> P (w_conns w c) \<Longrightarrow> Q (w_conns w c)"
  shows "own cx c Q (snd (on_secure c m w))"
proof (cases "secure (w_conns w c)")
  case None
  with assms show ?thesis by (simp add: on_secure_def own_def)
next
  case (Some p)
  let ?s = "snd (m \<lparr>sc_peer = p, sc_store = w_store w, sc_draws = w_draws w\<rparr>)"
  have "own cx c Q (conn_mod c (\<lambda>k. k\<lparr>secure := Some (sc_peer ?s)\<rparr>) w)"
    using assms(1) assms(2) [OF Some] by (intro own_mod [OF assms(1)]) (auto simp: own_def phase_of_def)
  from own_store [OF this] Some show ?thesis
    by (simp add: on_secure_def case_prod_unfold)
qed

text \<open>Closing it accounts for everything that was open.\<close>

lemma close_own:
  assumes w: "world_ok cx {c} {c} w"
  shows "world_ok cx {} {} (snd (close_conn cx now c code reason w))"
proof (cases "phase_of c w = Closed")
  case True
  then have "close_conn cx now c code reason w = (Inr (), w)"
    using close_unfold [of w cx now c code reason] w by (simp add: world_ok_def)
  with world_ok_done [OF w True] show ?thesis by simp
next
  case False
  let ?w = "snd (on_conn c (on_socket (socket_close code (take 120 reason))) w)"
  have ok: "world_ok cx {c} {c} ?w"
    by (rule keepsD [OF wok.keeps_on_conn [OF UNIV_I identity_socket] w])
  have "world_ok cx {} {} (snd (removeConnection cx now c ?w))"
  proof (rule removeConnection_keeps [OF wok.closing_invariant_axioms UNIV_I])
    show "world_ok cx {} {} (depart cx c ?w)" using world_ok_depart [OF ok, of c] by simp
  qed (rule world_ok_done [OF ok])
  with False w show ?thesis by (simp add: close_unfold world_ok_def snd_mfinally)
qed

lemma remove_own: "world_ok cx {c} {c} w \<Longrightarrow> world_ok cx {} {} (snd (removeConnection cx now c w))"
  using world_ok_depart [of cx "{c}" "{c}" w c]
  by (intro removeConnection_keeps [OF wok.closing_invariant_axioms UNIV_I]) (auto intro: world_ok_done)

subsection \<open>The handshake\<close>

text \<open>A handler that fails may leave its connection half done; the caller closes it.\<close>

definition outcome_ok :: "('hs, 'x, 'y) server_ctx \<Rightarrow> cid \<Rightarrow> (error + 'a) \<times> ('hs, 'x, 'y) world \<Rightarrow> bool" where
  "outcome_ok cx c rw \<longleftrightarrow> (case rw of
     (Inl _, w) \<Rightarrow> world_ok cx {c} {c} w | (Inr _, w) \<Rightarrow> world_ok cx {} {} w)"

lemma outcome_ok_weak: "world_ok cx {} {} (snd rw) \<Longrightarrow> outcome_ok cx c rw"
  using world_ok_mono [of cx "{}" "{}" "snd rw" "{c}" "{c}"]
  by (auto simp: outcome_ok_def split: prod.split sum.split)

lemma outcome_bind:
  assumes "world_ok cx {c} {c} (snd (m w))" and "\<And>a w'. m w = (Inr a, w') \<Longrightarrow> outcome_ok cx c (f a w')"
  shows "outcome_ok cx c (mbind m f w)"
  using assms by (auto simp: mbind_def outcome_ok_def split: prod.split sum.split)

lemma outcome_raise: "world_ok cx {c} {c} w \<Longrightarrow> outcome_ok cx c (mraise e w)"
  by (simp add: outcome_ok_def mraise_def)

text \<open>Not yet authenticated.\<close>

definition pre_auth :: "'hs connection \<Rightarrow> bool" where
  "pre_auth k \<longleftrightarrow> (\<exists>p. secure k = Some p \<and> id_ok p \<and> \<not> authenticated p)"

lemma conn_ok_pre_auth: "conn_ok cx k \<Longrightarrow> phase k \<noteq> Ready \<Longrightarrow> phase k \<noteq> Closed \<Longrightarrow> pre_auth k"
  by (auto simp: conn_ok_def pre_auth_def proved_def id_ok_def split: option.splits)

lemma pre_auth_msg3: "pre_auth k \<Longrightarrow> configured cx (networkName k) \<Longrightarrow> conn_ok cx (k\<lparr>phase := Msg3\<rparr>)"
  by (auto simp: conn_ok_def pre_auth_def proved_def id_ok_def)

lemma world_ok_start: "world_ok cx {} {} w \<Longrightarrow> phase_of c w \<noteq> Ready \<Longrightarrow> phase_of c w \<noteq> Closed \<Longrightarrow>
    own cx c (\<lambda>k. k = w_conns w c \<and> pre_auth k \<and> conn_ok cx k) w"
  using world_ok_mono [of cx "{}" "{}" w "{c}" "{}"] conn_ok_pre_auth [of cx "w_conns w c"]
  by (simp add: own_def world_ok_def phase_of_def)

lemma own_done: "own cx c (conn_ok cx) w \<Longrightarrow> world_ok cx {} {} w"
proof -
  assume own: "own cx c (conn_ok cx) w"
  then have "conn_ok cx (w_conns w d)" for d by (cases "d = c") (auto simp: own_def world_ok_def)
  with own show ?thesis by (simp add: own_def world_ok_def)
qed

lemma handshake1_ok:
  assumes w: "world_ok cx {} {} w" and c: "phase_of c w = Msg1"
  shows "outcome_ok cx c (handleHandshakeMessage1 cx now c frame ptype w)"
proof (cases "ptype = NoiseHandshakeMsg1")
  case True
  have own: "own cx c pre_auth w" using world_ok_start [OF w, of c] c by (simp add: own_def)
  have auth: "\<not> authenticated (sc_peer (snd (m \<lparr>sc_peer = p, sc_store = st, sc_draws = d\<rparr>)))"
    if "keeps (same authenticated False) m" "\<not> authenticated p" for m :: "('a sec, 'd) op" and p st d
    using keepsD [OF that(1), of "\<lparr>sc_peer = p, sc_store = st, sc_draws = d\<rparr>"] that(2) by (simp add: same_def)
  have id: "id_ok (sc_peer (snd (m \<lparr>sc_peer = p, sc_store = st, sc_draws = d\<rparr>)))"
    if "keeps (\<lambda>s. id_ok (sc_peer s)) m" "id_ok p" for m :: "('a sec, 'd) op" and p st d
    using keepsD [OF that(1), of "\<lparr>sc_peer = p, sc_store = st, sc_draws = d\<rparr>"] that(2) by simp
  have id2: "keeps (\<lambda>s. id_ok (sc_peer s)) (build_msg2 (sx_lib cx) t secret)" for t secret
  proof (rule keepsI)
    fix s :: "'a sec" assume s: "id_ok (sc_peer s)"
    have "same proved (proved (sc_peer s)) (snd (build_msg2 (sx_lib cx) t secret s))"
      by (rule keepsD [OF same_proved_build_msg2]) (simp add: same_def)
    with s show "id_ok (sc_peer (snd (build_msg2 (sx_lib cx) t secret s)))"
      using id_ok_proved unfolding same_def by blast
  qed
  have read: "own cx c pre_auth (snd (on_secure c (read_msg1 (sx_lib cx) frame) w))"
    by (rule own_on_secure [OF own])
       (auto simp: pre_auth_def intro!: auth [OF same_auth_read_msg1] id [OF id_ok_read_msg1])
  show ?thesis
    unfolding handleHandshakeMessage1_def if_not_P [OF not_not [THEN iffD2, OF True]]
  proof (rule outcome_bind, rule own_weak, rule read)
    fix json w1
    assume "on_secure c (read_msg1 (sx_lib cx) frame) w = (Inr json, w1)"
    with read have w1: "own cx c pre_auth w1" by simp
    show "outcome_ok cx c (mbind (mlift (parseHandshakeInfo json)) (\<lambda>info.
        case m_get (cfg_rooms (sx_config cx)) (hi_networkName info) of
          None \<Rightarrow> close_conn cx now c 4403 ''network is not configured''
        | Some secret \<Rightarrow>
            mbind (mmod (conn_mod c (\<lambda>k. k\<lparr>peerId := hi_peerId info, networkName := hi_networkName info\<rparr>))) (\<lambda>_.
            mbind (on_secure c (build_msg2 (sx_lib cx) (of_nat now) (to_rust_str secret))) (\<lambda>msg2.
            mbind (on_conn c (sendConnection now msg2)) (\<lambda>_.
            set_phase c Msg3)))) w1)"
    proof (rule outcome_bind)
      fix info w2
      assume "mlift (parseHandshakeInfo json) w1 = (Inr info, w2)"
      then have "w2 = w1" by simp
      show "outcome_ok cx c ((case m_get (cfg_rooms (sx_config cx)) (hi_networkName info) of
          None \<Rightarrow> close_conn cx now c 4403 ''network is not configured''
        | Some secret \<Rightarrow>
            mbind (mmod (conn_mod c (\<lambda>k. k\<lparr>peerId := hi_peerId info, networkName := hi_networkName info\<rparr>))) (\<lambda>_.
            mbind (on_secure c (build_msg2 (sx_lib cx) (of_nat now) (to_rust_str secret))) (\<lambda>msg2.
            mbind (on_conn c (sendConnection now msg2)) (\<lambda>_.
            set_phase c Msg3)))) w2)"
      proof (cases "m_get (cfg_rooms (sx_config cx)) (hi_networkName info)")
        case None
        then show ?thesis
          using close_own [OF own_weak [OF w1]] by (simp add: \<open>w2 = w1\<close> outcome_ok_weak)
      next
        case (Some secret)
        let ?P = "\<lambda>k. pre_auth k \<and> configured cx (networkName k)"
        define w3 where "w3 = conn_mod c (\<lambda>k. k\<lparr>peerId := hi_peerId info, networkName := hi_networkName info\<rparr>) w2"
        have w3: "own cx c ?P w3"
          unfolding w3_def using w1 Some
          by (intro own_mod [OF w1 [folded \<open>w2 = w1\<close>]]) (auto simp: own_def \<open>w2 = w1\<close> phase_of_def pre_auth_def configured_def)
        let ?b = "on_secure c (build_msg2 (sx_lib cx) (of_nat now) (to_rust_str secret))"
        have w4: "own cx c ?P (snd (?b w3))"
          by (rule own_on_secure [OF w3])
             (auto simp: pre_auth_def intro!: auth [OF same_auth_build_msg2] id [OF id2])
        have w5: "own cx c ?P (snd (on_conn c (sendConnection now msg2) u))" if "own cx c ?P u" for msg2 u
          using that sendConnection_frame [OF refl, of now msg2 "w_conns u c"]
          by (intro own_on_conn [OF that]) (auto simp: own_def pre_auth_def)
        have w6: "world_ok cx {} {} (conn_mod c (\<lambda>k. k\<lparr>phase := Msg3\<rparr>) u)" if "own cx c ?P u" for u
          using that by (intro own_done [of cx c] own_mod [OF that]) (auto simp: own_def pre_auth_msg3)
        show ?thesis
          unfolding Some option.case mbind_mmod w3_def [symmetric]
        proof (rule outcome_bind, rule own_weak, rule w4)
          fix msg2 u assume "?b w3 = (Inr msg2, u)"
          with w4 have u: "own cx c ?P u" by simp
          show "outcome_ok cx c (mbind (on_conn c (sendConnection now msg2)) (\<lambda>_. set_phase c Msg3) u)"
          proof (rule outcome_bind, rule own_weak, rule w5, rule u)
            fix a v assume "on_conn c (sendConnection now msg2) u = (Inr a, v)"
            with w5 [OF u, of msg2] have "own cx c ?P v" by simp
            from w6 [OF this] show "outcome_ok cx c (set_phase c Msg3 v)"
              by (intro outcome_ok_weak) (simp add: set_phase_def mmod_def)
          qed
        qed
      qed
    qed (simp add: mlift_def own_weak [OF w1])
  qed
qed (use world_ok_mono [OF w, of "{c}" "{c}"] in \<open>simp add: handleHandshakeMessage1_def outcome_raise\<close>)

subsection \<open>Registration\<close>

text \<open>While \<open>c\<close> is registered but not ready, the rest of the world may change around it.\<close>

definition waiting :: "('hs, 'x, 'y) server_ctx \<Rightarrow> cid \<Rightarrow> 'hs connection \<Rightarrow> ('hs, 'x, 'y) world \<Rightarrow> bool" where
  "waiting cx c k w \<longleftrightarrow> world_ok cx {c} {c} w \<and> identity (w_conns w c) = identity k
     \<and> rooms_get (w_rooms w) (networkName k) (peerId k) = Some c"

lemma waiting_invariant:
  assumes k: "phase k = Msg3"
  shows "closing_invariant cx (waiting cx c k) UNIV UNIV"
proof unfold_locales
  fix w :: "('a, 'b, 'c) world" and k' :: "'a connection" and d
  assume "waiting cx c k w" "identity k' = identity (w_conns w d)"
  then show "waiting cx c k (conn_mod d (\<lambda>_. k') w)"
    using wok.conn [of cx "{c}" "{c}" w d k'] by (auto simp: waiting_def conn_mod_def)
next
  fix w :: "('a, 'b, 'c) world" and d
  assume w: "waiting cx c k w" and d: "phase_of d w = Ready"
  have "phase (w_conns w c) = Msg3" using w k by (simp add: waiting_def identity_def)
  then have "d \<noteq> c" using d by (auto simp: phase_of_def)
  with w d show "waiting cx c k (depart cx d w)"
    using wok.depart [of cx "{c}" "{c}" w d] by (auto simp: waiting_def)
next
  fix w :: "('a, 'b, 'c) world" and d now
  assume w: "waiting cx c k w" and d: "phase_of d w = Closed"
  have "phase (w_conns w c) = Msg3" using w k by (simp add: waiting_def identity_def)
  then have "d \<noteq> c" using d by (auto simp: phase_of_def)
  with w d show "waiting cx c k (dispose now d w)"
    using wok.dispose [of cx "{c}" "{c}" w d now] by (simp add: waiting_def)
next
  fix w :: "('a, 'b, 'c) world" and key and s s' :: sync_state
  assume "waiting cx c k w" "m_get (w_sync w) key = Some s" "ss_peer s' = ss_peer s"
  then show "waiting cx c k (w\<lparr>w_sync := m_put key s' (w_sync w)\<rparr>)"
    using wok.sync [of cx "{c}" "{c}" w, where key = key and s = s and s' = s'] by (simp add: waiting_def del: map_of_eq_Some_iff)
qed (auto simp: waiting_def intro!: wok.store wok.core wok.sync_new [OF _ UNIV_I])

lemma world_ok_register:
  assumes w: "world_ok cx {c} {} w" and c: "phase_of c w = Msg3"
    and free: "rooms_get (w_rooms w) (networkName (w_conns w c)) (peerId (w_conns w c)) = None"
    and wf: "rooms_wf r" and get: "\<And>n p. rooms_get r n p =
      (if n = networkName (w_conns w c) \<and> p = peerId (w_conns w c) then Some c else rooms_get (w_rooms w) n p)"
  shows "world_ok cx {c} {c} (w\<lparr>w_rooms := r\<rparr>)"
proof -
  have reg: "registered_ok {} w" using w by (simp add: world_ok_def)
  have "registered_ok {c} (w\<lparr>w_rooms := r\<rparr>)"
    unfolding registered_ok_def
  proof (intro conjI allI impI)
    fix n p d assume d: "rooms_get (w_rooms (w\<lparr>w_rooms := r\<rparr>)) n p = Some d"
    have "routeSyncKey (w_conns w d) = (n, p) \<and> (phase_of d w = Ready \<or> d = c \<and> phase_of c w \<noteq> Closed)"
    proof (cases "n = networkName (w_conns w c) \<and> p = peerId (w_conns w c)")
      case True
      then have "d = c" using d by (simp add: get)
      with True c show ?thesis by (simp add: routeSyncKey_def)
    next
      case False
      then have "rooms_get (w_rooms w) n p = Some d" using d by (simp add: get split: if_splits)
      from registered_get [OF reg this] show ?thesis by (simp add: routeSyncKey_def)
    qed
    then show "routeSyncKey (w_conns (w\<lparr>w_rooms := r\<rparr>) d) = (n, p)"
      "phase_of d (w\<lparr>w_rooms := r\<rparr>) = Ready \<or> d \<in> {c} \<and> phase_of d (w\<lparr>w_rooms := r\<rparr>) \<noteq> Closed"
      by (auto simp: phase_of_def)
  next
    fix d assume "phase_of d (w\<lparr>w_rooms := r\<rparr>) = Ready"
    then have d: "phase_of d w = Ready" by (simp add: phase_of_def)
    have "\<not> (networkName (w_conns w d) = networkName (w_conns w c) \<and> peerId (w_conns w d) = peerId (w_conns w c))"
    proof
      assume "networkName (w_conns w d) = networkName (w_conns w c) \<and> peerId (w_conns w d) = peerId (w_conns w c)"
      then have "rooms_get (w_rooms w) (networkName (w_conns w d)) (peerId (w_conns w d)) = None" using free by simp
      with registered_ready [OF reg d] show False by simp
    qed
    then show "rooms_get (w_rooms (w\<lparr>w_rooms := r\<rparr>)) (networkName (w_conns (w\<lparr>w_rooms := r\<rparr>) d))
        (peerId (w_conns (w\<lparr>w_rooms := r\<rparr>) d)) = Some d"
      using registered_ready [OF reg d] by (auto simp: get)
  qed (use wf in simp)
  then show ?thesis
    using w by (simp add: world_ok_def heap_ok_def open_ids_def sync_ok_def core_members_ok_def phase_of_def)
qed

text \<open>The old connection of the same peer leaves before the new one is added.\<close>

lemma world_ok_swap:
  assumes w: "world_ok cx {c} {} w" and c: "phase_of c w = Msg3" and k: "identity k' = identity (w_conns w old)"
    and old: "rooms_get (w_rooms w) (networkName (w_conns w c)) (peerId (w_conns w c)) = Some old"
  defines "r \<equiv> snd (rooms_set (networkName (w_conns w c)) (peerId (w_conns w c)) c (w_rooms w))"
  shows "waiting cx c (w_conns w c) (depart cx old (conn_mod old (\<lambda>_. k') (w\<lparr>w_rooms := r\<rparr>)))"
proof -
  let ?n = "networkName (w_conns w c)" and ?p = "peerId (w_conns w c)"
  have reg: "registered_ok {} w" using w by (simp add: world_ok_def)
  from registered_get [OF reg old] have o: "networkName (w_conns w old) = ?n" "peerId (w_conns w old) = ?p" "phase_of old w = Ready"
    by simp_all
  then have ne: "old \<noteq> c" using c by auto
  have k': "networkName k' = ?n" "peerId k' = ?p" "phase k' = Ready"
    using k o by (simp_all add: identity_def phase_of_def)
  let ?u = "depart cx old (conn_mod old (\<lambda>_. k') w)"
  have u: "world_ok cx {c} {} ?u"
    using k' by (intro wok.depart wok.conn w k UNIV_I) (simp add: phase_of_def conn_mod_def)
  have cu: "w_conns ?u c = w_conns w c" using ne by (simp add: conn_mod_def)
  have free: "rooms_get (w_rooms ?u) ?n ?p = None" using old k' by (simp add: conn_mod_def)
  have eq: "depart cx old (conn_mod old (\<lambda>_. k') (w\<lparr>w_rooms := r\<rparr>)) = ?u\<lparr>w_rooms := snd (rooms_delete ?n ?p old r)\<rparr>"
    using k' by (intro world.equality) (simp_all add: conn_mod_def phase_of_def)
  have wf: "rooms_wf (snd (rooms_delete ?n ?p old r))" using reg by (simp add: r_def registered_ok_def)
  have get: "rooms_get (snd (rooms_delete ?n ?p old r)) n p =
      (if n = ?n \<and> p = ?p then Some c else rooms_get (w_rooms ?u) n p)" for n p
    using ne k' by (simp add: r_def conn_mod_def)
  have "world_ok cx {c} {c} (?u\<lparr>w_rooms := snd (rooms_delete ?n ?p old r)\<rparr>)"
  proof (rule world_ok_register [OF u _ _ wf])
    show "phase_of c ?u = Msg3" using c by (simp only: phase_of_def cu)
    show "rooms_get (w_rooms ?u) (networkName (w_conns ?u c)) (peerId (w_conns ?u c)) = None"
      unfolding cu by (rule free)
  qed (unfold cu, rule get)
  moreover have "rooms_get (snd (rooms_delete ?n ?p old r)) ?n ?p = Some c" unfolding get by simp
  ultimately show ?thesis unfolding waiting_def eq using cu by (simp del: rooms_get_delete depart_sel)
qed

lemma world_ok_add:
  assumes w: "waiting cx c k w" and k: "peerId k \<noteq> SERVER_PEER_ID"
  shows "waiting cx c k (snd (addPeer cx c w))"
    and "fst (addPeer cx c w) = Inr u \<Longrightarrow>
      core_member (sx_rpc cx) (w_core (snd (addPeer cx c w))) (networkName k) (peerId k)"
proof -
  let ?k = "w_conns w c"
  let ?m = "core_add_peer (sx_rpc cx) (networkName ?k) (peerId ?k) (remotePublicKey ?k)"
  have id: "networkName ?k = networkName k" "peerId ?k = peerId k"
    using w by (simp_all add: waiting_def identity_def)
  have "core_ok (sx_rpc cx) SERVER_PEER_ID (snd (?m (w_core w)))"
    using w id k by (intro keepsD [OF keeps_core_add_peer]) (simp_all add: waiting_def world_ok_def core_members_ok_def)
  moreover have "core_member (sx_rpc cx) (snd (?m (w_core w))) n p" if "core_member (sx_rpc cx) (w_core w) n p" for n p
    using that core_add_grows [of "w_core w" "sx_rpc cx" "networkName ?k" "peerId ?k" "remotePublicKey ?k"]
    by (auto simp: core_member_iff core_grows_def)
  ultimately have 1: "waiting cx c k (w\<lparr>w_core := snd (?m (w_core w))\<rparr>)"
    using w world_ok_core [of cx "{c}" "{c}" w] by (simp add: waiting_def)
  then have 2: "waiting cx c k (w\<lparr>w_core := snd (?m (w_core w)), w_sync := m_del key (w_sync w)\<rparr>)" for key
    using world_ok_sync [OF _ sync_ok_del, of cx "{c}" "{c}" "w\<lparr>w_core := snd (?m (w_core w))\<rparr>" key]
    by (simp add: waiting_def world_ok_def)
  show "waiting cx c k (snd (addPeer cx c w))"
    using 1 2 [of "routeSyncKey ?k"]
    by (auto simp: addPeer_def mbind_def mget_def on_core_def mmod_def split: prod.split sum.split)
  show "core_member (sx_rpc cx) (w_core (snd (addPeer cx c w))) (networkName k) (peerId k)"
    if "fst (addPeer cx c w) = Inr u"
    using that id core_add_member [of "sx_rpc cx" "networkName ?k" "peerId ?k" "remotePublicKey ?k" "w_core w"]
    by (auto simp: addPeer_def mbind_def mget_def on_core_def mmod_def split: prod.splits sum.splits)
qed

lemma waiting_weak: "waiting cx c k w \<Longrightarrow> world_ok cx {c} {c} w"
  by (simp add: waiting_def)

lemma close_replaced:
  assumes w: "world_ok cx {c} {} w" and c: "phase_of c w = Msg3"
    and old: "rooms_get (w_rooms w) (networkName (w_conns w c)) (peerId (w_conns w c)) = Some old"
  defines "r \<equiv> snd (rooms_set (networkName (w_conns w c)) (peerId (w_conns w c)) c (w_rooms w))"
  shows "waiting cx c (w_conns w c) (snd (close_conn cx now old code reason (w\<lparr>w_rooms := r\<rparr>)))"
proof -
  let ?w = "w\<lparr>w_rooms := r\<rparr>"
  have "registered_ok {} w" using w by (simp add: world_ok_def)
  from registered_get [OF this old] have o: "phase_of old w = Ready" by simp
  have h: "heap_ok ?w" using w by (simp add: world_ok_def heap_ok_def phase_of_def)
  define k' where "k' = snd (on_socket (socket_close code (take 120 reason)) (w_conns w old))"
  have k': "identity k' = identity (w_conns w old)" by (simp add: k'_def identity_socket)
  have sock: "snd (on_conn old (on_socket (socket_close code (take 120 reason))) ?w) = conn_mod old (\<lambda>_. k') ?w"
    by (simp add: on_conn_def case_prod_unfold k'_def)
  have gone: "waiting cx c (w_conns w c) (depart cx old (conn_mod old (\<lambda>_. k') ?w))"
    by (rule world_ok_swap [OF w c k' old, folded r_def])
  have opened: "phase_of old (conn_mod old (\<lambda>_. k') ?w) \<noteq> Closed"
    using k' o by (simp add: phase_of_def conn_mod_def identity_def)
  have "waiting cx c (w_conns w c) (snd (removeConnection cx now old (conn_mod old (\<lambda>_. k') ?w)))"
    by (rule removeConnection_keeps [OF waiting_invariant]) (use c gone opened in \<open>simp_all add: phase_of_def\<close>)
  moreover have "phase_of old ?w \<noteq> Closed" using o by (simp add: phase_of_def)
  ultimately show ?thesis
    by (simp only: close_unfold [OF h] if_False snd_mfinally sock)
qed

lemma mbind_mrun: "mbind (mrun f) k s = (case f s of (a, s') \<Rightarrow> k a s')"
  by (simp add: mbind_def mrun_def split: prod.split)

lemma register_ok:
  assumes w: "world_ok cx {c} {} w" and c: "phase_of c w = Msg3" and id: "peerId (w_conns w c) \<noteq> SERVER_PEER_ID"
  shows "waiting cx c (w_conns w c) (snd (registerConnection cx now c w))"
    and "fst (registerConnection cx now c w) = Inr u \<Longrightarrow>
      core_member (sx_rpc cx) (w_core (snd (registerConnection cx now c w))) (networkName (w_conns w c)) (peerId (w_conns w c))"
proof -
  let ?k = "w_conns w c" and ?n = "networkName (w_conns w c)" and ?p = "peerId (w_conns w c)"
  define r where "r = snd (rooms_set ?n ?p c (w_rooms w))"
  define replace where "replace = (case rooms_get (w_rooms w) ?n ?p of None \<Rightarrow> mret ()
      | Some old \<Rightarrow> if old \<noteq> c then close_conn cx now old 4000 ''replaced by an authenticated reconnect'' else mret ())"
  have reg: "registered_ok {} w" using w by (simp add: world_ok_def)
  have replaced: "waiting cx c ?k (snd (replace (w\<lparr>w_rooms := r\<rparr>)))"
  proof (cases "rooms_get (w_rooms w) ?n ?p")
    case None
    have "world_ok cx {c} {c} (w\<lparr>w_rooms := r\<rparr>)"
      using reg by (intro world_ok_register [OF w c None]) (simp_all add: r_def registered_ok_def)
    then show ?thesis by (simp add: replace_def None mret_def waiting_def) (simp add: r_def)
  next
    case (Some old)
    from registered_get [OF reg Some] c have "old \<noteq> c" by auto
    with close_replaced [OF w c Some, folded r_def] show ?thesis by (simp add: replace_def Some)
  qed
  have eq: "registerConnection cx now c w = mbind replace (\<lambda>_. addPeer cx c) (w\<lparr>w_rooms := r\<rparr>)"
    unfolding registerConnection_def mbind_mget
    by (simp add: mbind_mrun case_prod_unfold r_def replace_def)
  note added = world_ok_add [OF replaced id]
  show "waiting cx c ?k (snd (registerConnection cx now c w))"
    using replaced added(1) unfolding eq by (auto simp: mbind_def split: prod.split sum.split)
  show "core_member (sx_rpc cx) (w_core (snd (registerConnection cx now c w))) ?n ?p"
    if "fst (registerConnection cx now c w) = Inr u"
    using that added(2) unfolding eq by (auto simp: mbind_def split: prod.splits sum.splits)
qed

end
