(* ===== verification/Server_Events.thy ===== *)
theory Server_Events
  imports Registration
begin

text \<open>
  The events of the Durable Object, \<open>cloudflare/src/server.ts\<close>: a request, a message, a closed or failed
  socket, a handshake timeout, the maintenance timer, and what the environment does to sockets.  Every
  event leads from a state that satisfies the invariant to such a state.
\<close>

subsection \<open>The end of the handshake\<close>

lemma world_ok_complete:
  assumes w: "waiting cx c k w" and k: "phase k = Msg3" "conn_ok cx (k\<lparr>handshakeTimer := False, phase := Ready\<rparr>)"
    and member: "core_member (sx_rpc cx) (w_core w) (networkName k) (peerId k)"
  shows "world_ok cx {} {} (conn_mod c completeHandshake w)"
proof -
  let ?w = "conn_mod c completeHandshake w"
  have ok: "world_ok cx {c} {c} w" and reg: "rooms_get (w_rooms w) (networkName k) (peerId k) = Some c"
    and id: "identity (w_conns w c) = identity k"
    using w by (simp_all add: waiting_def)
  have key: "networkName (w_conns w c) = networkName k" "peerId (w_conns w c) = peerId k" "phase (w_conns w c) = Msg3"
    using id k(1) by (simp_all add: identity_def)
  have "identity (completeHandshake (w_conns w c)) = identity (k\<lparr>handshakeTimer := False, phase := Ready\<rparr>)"
    using id by (simp add: identity_def completeHandshake_def)
  from conn_ok_identity [OF this, of cx] k(2) have cok: "conn_ok cx (completeHandshake (w_conns w c))" by simp
  have sel: "w_next ?w = w_next w" "w_connections ?w = w_connections w" "w_timer ?w = w_timer w"
    "w_rooms ?w = w_rooms w" "w_sync ?w = w_sync w" "w_core ?w = w_core w"
    "w_conns ?w c = completeHandshake (w_conns w c)"
    by (simp_all add: conn_mod_def)
  have names: "networkName (w_conns ?w d) = networkName (w_conns w d)" "peerId (w_conns ?w d) = peerId (w_conns w d)" for d
    by (simp_all add: conn_mod_def completeHandshake_def)
  have ph: "phase_of d ?w = (if d = c then Ready else phase_of d w)" for d
    by (simp add: phase_of_def conn_mod_def completeHandshake_def)
  have closed: "phase_of d ?w = Closed \<longleftrightarrow> phase_of d w = Closed" for d using key(3) unfolding ph by (simp add: phase_of_def)
  have "conn_ok cx (w_conns ?w d)" for d
    using ok cok by (cases "d = c") (simp_all add: sel world_ok_def, simp add: conn_mod_def)
  moreover have "registered_ok {} ?w"
    using ok reg key unfolding registered_ok_def world_ok_def routeSyncKey_def names sel
    by (auto simp: ph split: if_splits)
  moreover have "sync_ok ?w"
    using ok unfolding sync_ok_def world_ok_def routeSyncKey_def names sel by (metis ph)
  moreover have "core_members_ok cx ?w"
    using ok member key unfolding core_members_ok_def world_ok_def names sel by (auto simp: ph)
  moreover have "open_ids ?w = open_ids w" by (simp add: open_ids_def closed sel)
  moreover have "heap_ok ?w" using ok unfolding world_ok_def heap_ok_def sel closed by blast
  ultimately show ?thesis using ok unfolding world_ok_def sel by simp
qed

lemma handshake3_ok:
  assumes json: "json_writer (to_json (sx_lib cx))" and w: "world_ok cx {} {} w" and c: "phase_of c w = Msg3"
  shows "outcome_ok cx c (handleHandshakeMessage3 cx now c frame ptype w)"
proof (cases "ptype = NoiseHandshakeMsg3")
  case True
  let ?finish = "on_secure c (finish_msg3 (sx_lib cx) (of_nat now) frame)"
  have start: "own cx c (\<lambda>k. k = w_conns w c \<and> pre_auth k \<and> conn_ok cx k) w"
    using world_ok_start [OF w, of c] c by simp
  then obtain p where p: "secure (w_conns w c) = Some p" "id_ok p" by (auto simp: own_def pre_auth_def)
  have conf: "configured cx (networkName (w_conns w c))"
    using start c by (auto simp: own_def conn_ok_def phase_of_def split: option.splits)
  have w1: "own cx c (\<lambda>k. phase k = Msg3 \<and> peerId k = peerId (w_conns w c) \<and> networkName k = networkName (w_conns w c)) (snd (?finish w))"
    using c by (intro own_on_secure [OF start]) (auto simp: phase_of_def)
  show ?thesis
    unfolding handleHandshakeMessage3_def if_not_P [OF not_not [THEN iffD2, OF True]]
  proof (rule outcome_bind, rule own_weak, rule w1)
    fix text1 w1'
    assume fin: "?finish w = (Inr text1, w1')"
    with w1 have own1: "own cx c (\<lambda>k. phase k = Msg3 \<and> peerId k = peerId (w_conns w c) \<and> networkName k = networkName (w_conns w c)) w1'"
      by simp
    show "outcome_ok cx c (mbind (mlift (parseAuthenticationInfo text1)) (\<lambda>auth.
        mbind (mget (\<lambda>w. w_conns w c)) (\<lambda>k.
        if ai_peerId auth \<noteq> peerId k \<or> ai_networkName auth \<noteq> networkName k
        then mraise (Err ''secure handshake identity mismatch'')
        else
          mbind (mmod (conn_mod c (\<lambda>k. k\<lparr>remotePublicKey := ai_remotePublicKey auth\<rparr>))) (\<lambda>_.
          mbind (registerConnection cx now c) (\<lambda>_.
          mbind (mmod (conn_mod c completeHandshake)) (\<lambda>_.
          broadcastRouteUpdate cx now (networkName k) None))))) w1')"
    proof (rule outcome_bind)
      fix auth w2
      assume auth: "mlift (parseAuthenticationInfo text1) w1' = (Inr auth, w2)"
      let ?k = "w_conns w1' c"
      show "outcome_ok cx c (mbind (mget (\<lambda>w. w_conns w c)) (\<lambda>k.
        if ai_peerId auth \<noteq> peerId k \<or> ai_networkName auth \<noteq> networkName k
        then mraise (Err ''secure handshake identity mismatch'')
        else
          mbind (mmod (conn_mod c (\<lambda>k. k\<lparr>remotePublicKey := ai_remotePublicKey auth\<rparr>))) (\<lambda>_.
          mbind (registerConnection cx now c) (\<lambda>_.
          mbind (mmod (conn_mod c completeHandshake)) (\<lambda>_.
          broadcastRouteUpdate cx now (networkName k) None)))) w2)"
      proof (cases "ai_peerId auth \<noteq> peerId ?k \<or> ai_networkName auth \<noteq> networkName ?k")
        case True
        with auth own_weak [OF own1] show ?thesis by (simp add: mbind_mget outcome_raise)
      next
        case same: False
        obtain s' where s': "finish_msg3 (sx_lib cx) (of_nat now) frame \<lparr>sc_peer = p, sc_store = w_store w, sc_draws = w_draws w\<rparr> = (Inr text1, s')"
          "secure ?k = Some (sc_peer s')"
          using fin p(1) by (auto simp: on_secure_def conn_mod_def split: prod.splits)
        have proved: "proved (sc_peer s') = (Some (peerId ?k), Some (networkName ?k), SERVER_PEER_ID, True)"
          "peer_id p = Some (peerId ?k)" "length (ai_remotePublicKey auth) = 32"
          using finish_msg3_proved [OF json s'(1)] auth same p(2) by (auto simp: id_ok_def)
        then have pid: "peerId ?k \<noteq> SERVER_PEER_ID" using p(2) by (simp add: id_ok_def)
        define w3 where "w3 = conn_mod c (\<lambda>k. k\<lparr>remotePublicKey := ai_remotePublicKey auth\<rparr>) w2"
        have eq: "w2 = w1'" using auth by simp
        have k3: "w_conns w3 c = ?k\<lparr>remotePublicKey := ai_remotePublicKey auth\<rparr>"
          by (simp add: w3_def conn_mod_def eq)
        have "own cx c (\<lambda>_. True) w3"
          unfolding w3_def eq using own1 by (intro own_mod [OF own1]) (simp_all add: own_def)
        then have w3: "world_ok cx {c} {} w3" by (simp add: own_def)
        have ph3: "phase_of c w3 = Msg3" "phase (w_conns w3 c) = Msg3"
          using own1 by (simp_all add: phase_of_def k3 own_def)
        have ready: "conn_ok cx ((w_conns w3 c)\<lparr>handshakeTimer := False, phase := Ready\<rparr>)"
          using proved pid conf own1 s'(2) by (simp add: k3 conn_ok_def own_def)
        have pid3: "peerId (w_conns w3 c) \<noteq> SERVER_PEER_ID" using pid by (simp add: k3)
        note reg = register_ok [OF w3 ph3(1) pid3, where now = now]
        have "outcome_ok cx c (mbind (registerConnection cx now c) (\<lambda>_.
          mbind (mmod (conn_mod c completeHandshake)) (\<lambda>_.
          broadcastRouteUpdate cx now (networkName ?k) None)) w3)"
        proof (rule outcome_bind, rule waiting_weak, rule reg(1))
          fix u w4 assume w4: "registerConnection cx now c w3 = (Inr u, w4)"
          have "world_ok cx {} {} (conn_mod c completeHandshake w4)"
            using reg(1) reg(2) [of u] w4 by (intro world_ok_complete [OF _ ph3(2) ready]) simp_all
          then show "outcome_ok cx c (mbind (mmod (conn_mod c completeHandshake)) (\<lambda>_.
              broadcastRouteUpdate cx now (networkName ?k) None) w4)"
            unfolding mbind_mmod
            by (intro outcome_ok_weak keepsD [OF keeps_broadcastRouteUpdate [OF wok.closing_invariant_axioms UNIV_I]])
        qed
        with same show ?thesis by (simp add: mbind_mget mbind_mmod w3_def eq)
      qed
    qed (simp add: mlift_def own_weak [OF own1])
  qed
qed (use world_ok_mono [OF w, of "{c}" "{c}"] in \<open>simp add: handleHandshakeMessage3_def outcome_raise\<close>)

subsection \<open>Packets\<close>

text \<open>\<open>leads J m I\<close>: from \<open>J\<close>, whether \<open>m\<close> returns or throws, to \<open>I\<close>.\<close>

definition leads :: "('s \<Rightarrow> bool) \<Rightarrow> ('s, 'a) op \<Rightarrow> ('s \<Rightarrow> bool) \<Rightarrow> bool" where
  "leads J m I \<longleftrightarrow> (\<forall>s. J s \<longrightarrow> I (snd (m s)))"

lemma leadsD: "leads J m I \<Longrightarrow> J s \<Longrightarrow> I (snd (m s))"
  by (simp add: leads_def)

lemma leads_keeps: "keeps J m \<Longrightarrow> (\<And>s. J s \<Longrightarrow> I s) \<Longrightarrow> leads J m I"
  and leads_keeps': "keeps I m \<Longrightarrow> (\<And>s. J s \<Longrightarrow> I s) \<Longrightarrow> leads J m I"
  by (auto simp: leads_def keeps_def)

lemma leads_bind: "keeps J m \<Longrightarrow> (\<And>s. J s \<Longrightarrow> I s) \<Longrightarrow> (\<And>a. leads J (f a) I) \<Longrightarrow> leads J (mbind m f) I"
  by (auto simp: leads_def keeps_def mbind_def split: prod.split sum.split)

lemma leads_if: "(b \<Longrightarrow> leads J m I) \<Longrightarrow> (\<not> b \<Longrightarrow> leads J k I) \<Longrightarrow> leads J (if b then m else k) I"
  by simp

lemma leads_case_prod: "(\<And>a b. leads J (f a b) I) \<Longrightarrow> leads J (case p of (a, b) \<Rightarrow> f a b) I"
  by (cases p) simp

definition at_ready :: "('hs, 'x, 'y) server_ctx \<Rightarrow> cid \<Rightarrow> ('hs, 'x, 'y) world \<Rightarrow> bool" where
  "at_ready cx c w \<longleftrightarrow> world_ok cx {} {} w \<and> phase_of c w = Ready"

interpretation atr: server_invariant cx "at_ready cx c" UNIV UNIV for cx c
  unfolding at_ready_def by (rule wok.ready)

lemma at_ready_weak: "at_ready cx c w \<Longrightarrow> world_ok cx {} {} w"
  and at_ready_phase: "at_ready cx c w \<Longrightarrow> phase_of c w = Ready"
  by (simp_all add: at_ready_def)

lemma close_ready: "leads (at_ready cx c) (close_conn cx now c code reason) (world_ok cx {} {})"
  unfolding leads_def at_ready_def using closesD [OF closes_close_conn [OF wok.closing_invariant_axioms] _ UNIV_I] by blast

lemma leads_catch: "keeps J m \<Longrightarrow> (\<And>s. J s \<Longrightarrow> I s) \<Longrightarrow> (\<And>e. leads J (h e) I) \<Longrightarrow> leads J (mcatch m h) I"
  by (auto simp: leads_def keeps_def mcatch_def split: prod.split sum.split)

lemma forward_ok: "keeps (world_ok cx {} {}) (forwardPacket cx now c frame to_peer)"
proof -
  have one: "keeps (world_ok cx {} {}) (mbind (mget (phase_of target)) (\<lambda>p.
         if p \<noteq> Ready then mret ()
         else
           mbind (mlift (incrementForwardCounter frame)) (\<lambda>forwarded.
           mcatch (on_conn target (sendConnection now forwarded))
                  (\<lambda>e. close_conn cx now target 1013 ''outbound relay capacity exceeded''))))" for target
  proof (rule keepsI)
    fix w :: "('a, 'b, 'c) world"
    assume w: "world_ok cx {} {} w"
    have "leads (at_ready cx target) (mbind (mlift (incrementForwardCounter frame)) (\<lambda>forwarded.
           mcatch (on_conn target (sendConnection now forwarded))
                  (\<lambda>e. close_conn cx now target 1013 ''outbound relay capacity exceeded''))) (world_ok cx {} {})"
      by (intro leads_bind leads_catch close_ready atr.keeps_send UNIV_I pres) (rule at_ready_weak, assumption)+
    with w show "world_ok cx {} {} (snd (mbind (mget (phase_of target)) (\<lambda>p.
         if p \<noteq> Ready then mret ()
         else
           mbind (mlift (incrementForwardCounter frame)) (\<lambda>forwarded.
           mcatch (on_conn target (sendConnection now forwarded))
                  (\<lambda>e. close_conn cx now target 1013 ''outbound relay capacity exceeded''))) w))"
      unfolding mbind_mget by (auto simp: at_ready_def leads_def mret_def)
  qed
  show ?thesis
    unfolding forwardPacket_def
    by (rule keeps_bind, rule keeps_get, rule keeps_case_option, rule keeps_ret, rule one)
qed

lemma ready_packet_ok: "leads (at_ready cx c) (handleReadyPacket cx now c frame header) (world_ok cx {} {})"
  unfolding handleReadyPacket_def
  by (intro leads_if leads_bind leads_case_prod leads_keeps' [OF forward_ok]
        leads_keeps' [OF keeps_broadcastRouteUpdate [OF wok.closing_invariant_axioms UNIV_I]]
        UNIV_I atr.keeps_decrypt atr.keeps_handleRequest at_ready_phase pres
        leads_keeps [OF atr.keeps_send [OF UNIV_I]] leads_keeps [OF atr.keeps_handleResponse [OF UNIV_I]]
        leads_keeps [OF keeps_ret] leads_keeps [OF keeps_raise])
     (auto intro: at_ready_weak)

subsection \<open>Events\<close>

lemma message_cases:
  obtains (malformed) e where "handleMessage cx now c data w = (Inl e, w)"
  | (frame) frame header payload where "data = BinaryFrame frame" "length frame \<le> maxFrameBytes (sx_config cx)"
      "parsePacket frame = Inr (header, payload)"
      "handleMessage cx now c data w = (case phase_of c w of
           Msg1 \<Rightarrow> handleHandshakeMessage1 cx now c frame (packet_type header) w
         | Msg3 \<Rightarrow> handleHandshakeMessage3 cx now c frame (packet_type header) w
         | Ready \<Rightarrow> handleReadyPacket cx now c frame header w
         | Closed \<Rightarrow> mret () w)"
proof (cases data)
  case (BinaryFrame b)
  show ?thesis
  proof (cases "maxFrameBytes (sx_config cx) < length b")
    case False
    then show ?thesis
    proof (cases "parsePacket b")
      case (Inr hp)
      with BinaryFrame False show ?thesis
        by (cases hp, intro frame) (auto simp: handleMessage_def mbind_def mlift_def mget_def split: connection_phase.split)
    qed (use BinaryFrame False in \<open>auto simp: handleMessage_def mbind_def mlift_def intro: malformed\<close>)
  qed (use BinaryFrame in \<open>auto simp: handleMessage_def mbind_def mlift_def mraise_def intro: malformed\<close>)
qed (auto simp: handleMessage_def mbind_def mlift_def intro: malformed)

lemma message_ok:
  assumes json: "json_writer (to_json (sx_lib cx))" and w: "world_ok cx {} {} w"
  shows "outcome_ok cx c (handleMessage cx now c data w)"
proof (cases rule: message_cases [where cx = cx and now = now and c = c and data = data and w = w])
  case (malformed e)
  moreover have "world_ok cx {c} {c} w" using w by (rule world_ok_mono) auto
  ultimately show ?thesis by (simp add: outcome_ok_def)
next
  case (frame frame header payload)
  show ?thesis
    unfolding frame(4)
    using handshake1_ok [OF w] handshake3_ok [OF json w] ready_packet_ok [of cx c now frame header] w
    by (cases "phase_of c w") (auto simp: at_ready_def mret_def leads_def intro!: outcome_ok_weak)
qed

text \<open>Whatever a message leads to is followed by \<open>failConnection\<close> or by nothing.\<close>

lemma onMessage_ends:
  assumes "I (snd (handleMessage cx now c data w))" and "\<And>code reason. keeps I (close_conn cx now c code reason)"
  shows "I (snd (onMessage cx now c data w))"
  using assms by (auto simp: onMessage_def mcatch_def failConnection_def keeps_def split: prod.split sum.split)

lemma keeps_onMessage:
  "json_writer (to_json (sx_lib cx)) \<Longrightarrow> keeps (world_ok cx {} {}) (onMessage cx now c data)"
proof (rule keepsI)
  fix w assume json: "json_writer (to_json (sx_lib cx))" and w: "world_ok cx {} {} w"
  from message_ok [OF json w, of c now data] show "world_ok cx {} {} (snd (onMessage cx now c data w))"
    by (auto simp: onMessage_def mcatch_def outcome_ok_def failConnection_def close_own split: prod.split sum.split)
qed

lemma keeps_close_any: "keeps (world_ok cx {} {}) (close_conn cx now c code reason)"
  and keeps_remove_any: "keeps (world_ok cx {} {}) (removeConnection cx now c)"
  by (auto intro!: keepsI close_own remove_own elim: world_ok_mono)

lemma world_ok_timer: "world_ok cx X R w \<Longrightarrow> (t \<longrightarrow> w_connections w \<noteq> []) \<Longrightarrow> world_ok cx X R (w\<lparr>w_timer := t\<rparr>)"
  by (simp add: world_ok_def heap_ok_def open_ids_def registered_ok_def sync_ok_def core_members_ok_def phase_of_def)

lemma schedule_ok: "world_ok cx X R w \<Longrightarrow> world_ok cx X R (scheduleMaintenance w)"
  by (simp add: scheduleMaintenance_def world_ok_timer)

lemma keeps_onMaintenance: "keeps (world_ok cx {} {}) (onMaintenance cx now)"
proof -
  have maintain: "keeps (world_ok cx {} {}) (mbind (mget (phase_of c)) (\<lambda>p.
       if p \<noteq> Ready then mret ()
       else mcatch (maintainPeer cx now c)
                   (\<lambda>e. close_conn cx now c 1011 ''route synchronization maintenance failed'')))" for c
  proof (rule keepsI)
    fix w :: "('a, 'b, 'c) world"
    assume w: "world_ok cx {} {} w"
    have "leads (at_ready cx c) (mcatch (maintainPeer cx now c)
        (\<lambda>e. close_conn cx now c 1011 ''route synchronization maintenance failed'')) (world_ok cx {} {})"
      by (intro leads_catch close_ready atr.keeps_maintainPeer UNIV_I at_ready_phase) (auto intro: at_ready_weak)
    with w show "world_ok cx {} {} (snd (mbind (mget (phase_of c)) (\<lambda>p.
       if p \<noteq> Ready then mret ()
       else mcatch (maintainPeer cx now c)
                   (\<lambda>e. close_conn cx now c 1011 ''route synchronization maintenance failed'')) w))"
      unfolding mbind_mget by (auto simp: at_ready_def leads_def mret_def)
  qed
  have failed: "keeps (world_ok cx {} {}) (mbind (mget (\<lambda>w. findPeer (networkName (w_conns w f)) (peerId (w_conns w f)) w)) (\<lambda>found.
       case found of None \<Rightarrow> mret ()
       | Some c \<Rightarrow> close_conn cx now c 1011 ''route synchronization retry failed''))" for f
    by (intro pres keeps_close_any)
  show ?thesis
    unfolding onMaintenance_def
    by (rule keeps_bind, rule keeps_mod, erule world_ok_timer, simp,
        rule keeps_bind, rule wok.keeps_cleanExpired [OF refl], rule keeps_bind, rule keeps_for, rule failed,
        rule keeps_bind, rule keeps_get, rule keeps_bind, rule keeps_for, rule maintain,
        rule keeps_mod, erule schedule_ok)
qed

text \<open>A connection in its first phase is known to nobody else.\<close>

lemma world_ok_new:
  assumes w: "world_ok cx {} {} w" and n: "length (w_connections w) < MAX_CONNECTIONS"
    and k: "phase k = Msg1" "conn_ok cx k"
  shows "world_ok cx {} {} (w\<lparr>w_conns := (w_conns w)(w_next w := k), w_next := Suc (w_next w),
    w_connections := w_connections w @ [w_next w]\<rparr>)"
proof -
  let ?c = "w_next w"
  define w' where "w' = w\<lparr>w_conns := (w_conns w)(?c := k), w_next := Suc ?c, w_connections := w_connections w @ [?c]\<rparr>"
  have sel: "w_timer w' = w_timer w" "w_rooms w' = w_rooms w" "w_sync w' = w_sync w" "w_core w' = w_core w"
    "w_next w' = Suc ?c" "w_connections w' = w_connections w @ [?c]"
    by (simp_all add: w'_def)
  have c: "phase_of ?c w = Closed" using w by (simp add: world_ok_def heap_ok_def)
  have ph: "phase_of d w' = (if d = ?c then Msg1 else phase_of d w)" for d
    using k(1) by (simp add: phase_of_def w'_def)
  have ready: "phase_of d w' = Ready \<longleftrightarrow> phase_of d w = Ready" for d
    using c by (auto simp: ph)
  have same: "w_conns w' d = w_conns w d" if "phase_of d w = Ready" for d
    using that c by (auto simp: w'_def)
  have "conn_ok cx (w_conns w' d)" for d
    using w k(2) by (simp add: world_ok_def w'_def)
  moreover have "open_ids w' = open_ids w @ [?c]"
    by (auto simp: open_ids_def ph sel intro!: filter_cong)
  moreover have "registered_ok {} w'"
    using w unfolding world_ok_def registered_ok_def sel ready by (metis empty_iff same)
  moreover have "sync_ok w'"
    using w unfolding world_ok_def sync_ok_def sel ready by (metis same)
  moreover have "core_members_ok cx w'"
    using w unfolding world_ok_def core_members_ok_def sel ready by (metis same)
  moreover have "heap_ok w'" using w by (simp add: world_ok_def heap_ok_def ph sel)
  ultimately have "world_ok cx {} {} w'"
    using w n unfolding world_ok_def sel by simp
  then show ?thesis unfolding w'_def .
qed

lemma new_conn_ok:
  "new_peer (sx_lib cx) t priv pub SERVER_PEER_ID = Inr sec \<Longrightarrow> conn_ok cx (createConnection now words sock sec)"
  by (auto simp: new_peer_def rbind_Inr_iff conn_ok_def createConnection_def proved_def split: if_splits)

lemma world_ok_fetch:
  assumes w: "world_ok cx {} {} w"
  shows "world_ok cx {} {} (snd (server_fetch cx now words sock req w))"
proof (cases "pathname req \<noteq> ''/'' \<or> \<not> wants_websocket req \<or> MAX_CONNECTIONS \<le> length (w_connections w)")
  case True
  with w show ?thesis by (auto simp: server_fetch_def)
next
  case False
  then have n: "length (w_connections w) < MAX_CONNECTIONS" by (simp add: not_le)
  show ?thesis
  proof (cases "new_peer (sx_lib cx) (of_nat now) (to_rust_str (localPrivateKey (sx_config cx)))
      (to_rust_str (localPublicKey (sx_config cx))) SERVER_PEER_ID")
    case (Inl e)
    with False w show ?thesis by (simp add: server_fetch_def)
  next
    case (Inr sec)
    have "phase (createConnection now words sock sec) = Msg1" by (simp add: createConnection_def)
    from schedule_ok [OF world_ok_new [OF w n this new_conn_ok [OF Inr]]] False Inr
    show ?thesis by (simp add: server_fetch_def Let_def)
  qed
qed

subsection \<open>Reachable states\<close>

lemma world_ok_server_new:
  assumes "server_new lib rpc store env = Inr (cx, w)"
  shows "world_ok cx {} {} w"
proof -
  from assms obtain key name core where core: "core_new key name SERVER_PEER_ID = Inr core"
    and cx: "sx_rpc cx = rpc" and w: "w = \<lparr>w_conns = (\<lambda>_. no_connection), w_next = 0, w_connections = [],
      w_rooms = [], w_timer = False, w_core = core, w_sync = [], w_store = store, w_draws = 0\<rparr>"
    by (auto simp: server_new_def rbind_Inr_iff)
  have closed: "phase_of c w = Closed" for c by (simp add: phase_of_def w no_connection_def)
  have "core_ok rpc SERVER_PEER_ID core" by (rule core_reachable_ok [OF core_start [OF core]])
  then show ?thesis
    unfolding world_ok_def registered_ok_def sync_ok_def core_members_ok_def
    by (simp add: heap_ok_def open_ids_def closed cx) (simp add: w rooms_get_def no_connection_def)
qed

text \<open>
  The states of the Durable Object: its event handlers run one after the other, each to its end.  The
  environment moves the sockets (a browser closes its end, a send starts to fail), and a timer
  calls back while it is armed.
\<close>

inductive server_reachable :: "('hs, 'x, 'y) server_ctx \<Rightarrow> ('hs, 'x, 'y) world \<Rightarrow> bool" for cx where
  started: "server_new lib rpc store env = Inr (cx, w) \<Longrightarrow> server_reachable cx w"
| requested: "server_reachable cx w \<Longrightarrow> server_reachable cx (snd (server_fetch cx now words sock req w))"
| received: "server_reachable cx w \<Longrightarrow> c < w_next w \<Longrightarrow> server_reachable cx (snd (onMessage cx now c data w))"
| hung_up: "server_reachable cx w \<Longrightarrow> c < w_next w \<Longrightarrow> server_reachable cx (snd (removeConnection cx now c w))"
| timed_out: "server_reachable cx w \<Longrightarrow> handshakeTimer (w_conns w c) \<Longrightarrow>
    server_reachable cx (snd (onHandshakeTimeout cx now c w))"
| maintained: "server_reachable cx w \<Longrightarrow> w_timer w \<Longrightarrow> server_reachable cx (snd (onMaintenance cx now w))"
| moved: "server_reachable cx w \<Longrightarrow> server_reachable cx (conn_mod c (\<lambda>k. k\<lparr>socket := s\<rparr>) w)"

lemma world_ok_socket: "world_ok cx X R w \<Longrightarrow> world_ok cx X R (conn_mod c (\<lambda>k. k\<lparr>socket := s\<rparr>) w)"
  by (erule world_ok_identities) (simp_all add: conn_mod_def identity_def)

lemma reachable_ok:
  assumes "server_reachable cx w" and "json_writer (to_json (sx_lib cx))"
  shows "world_ok cx {} {} w"
  using assms
proof (induction rule: server_reachable.induct)
  case (received w c now data)
  then show ?case using keepsD [OF keeps_onMessage] by blast
qed (simp_all add: world_ok_server_new world_ok_fetch world_ok_socket onHandshakeTimeout_def
      keepsD [OF keeps_remove_any] keepsD [OF keeps_close_any] keepsD [OF keeps_onMaintenance])

end
