(* ===== verification/Isolation.thy ===== *)
theory Isolation
  imports Server_Events
begin

text \<open>
  What a client of the Durable Object, \<open>cloudflare/src/server.ts\<close>, can do to others.  \<open>apart n\<close> relates two
  states that agree on everything outside network \<open>n\<close>; the locales of \<open>Server_Frames\<close>, interpreted on it,
  show that a message of a client of \<open>n\<close> does not reach further.  \<open>only c\<close> relates two states that agree on
  everything but the connection \<open>c\<close>, \<open>sessions_kept\<close> two session stores that agree on every session in use but
  one; together, in \<open>stranger\<close>, they bound what a client can touch before it has proved the secret.
\<close>

subsection \<open>Outside a network\<close>

definition apart :: "string \<Rightarrow> ('hs, 'x, 'y) world \<Rightarrow> ('hs, 'x, 'y) world \<Rightarrow> bool" where
  "apart n w0 w \<longleftrightarrow> (\<forall>d. networkName (w_conns w d) = networkName (w_conns w0 d))
     \<and> (\<forall>d. networkName (w_conns w0 d) \<noteq> n \<longrightarrow> w_conns w d = w_conns w0 d)
     \<and> (\<forall>m p. m \<noteq> n \<longrightarrow> rooms_get (w_rooms w) m p = rooms_get (w_rooms w0) m p)
     \<and> (\<forall>key. fst key \<noteq> n \<longrightarrow> m_get (w_sync w) key = m_get (w_sync w0) key)
     \<and> rooms_wf (w_rooms w)
     \<and> (\<forall>p c. rooms_get (w_rooms w) n p = Some c \<longrightarrow> networkName (w_conns w0 c) = n)
     \<and> (\<forall>key st. m_get (w_sync w) key = Some st \<longrightarrow> fst key = n \<longrightarrow> networkName (w_conns w0 (ss_peer st)) = n)"

abbreviation "of_network n w0 \<equiv> {c. networkName (w_conns w0 c) = n}"

lemma apart_conn:
  "apart n w0 w \<Longrightarrow> c \<in> of_network n w0 \<Longrightarrow> networkName k = networkName (w_conns w c) \<Longrightarrow>
     apart n w0 (conn_mod c (\<lambda>_. k) w)"
  by (auto simp: apart_def conn_mod_def)

lemma apart_frame:
  "w_conns w' = w_conns w \<Longrightarrow> w_rooms w' = w_rooms w \<Longrightarrow> w_sync w' = w_sync w \<Longrightarrow> apart n w0 w' = apart n w0 w"
  by (simp add: apart_def)

lemma apart_upd [simp]:
  "apart n w0 (w\<lparr>w_store := st, w_draws := d\<rparr>) = apart n w0 w"
  "apart n w0 (w\<lparr>w_core := k\<rparr>) = apart n w0 w"
  by (simp_all add: apart_def)

lemma apart_sync: "apart n w0 w \<Longrightarrow> m_get (w_sync w) key = Some st \<Longrightarrow> fst key = n \<Longrightarrow> networkName (w_conns w0 (ss_peer st)) = n"
  unfolding apart_def by blast

lemma apart_sync_mod:
  assumes w: "apart n w0 w" and "\<And>key. fst key \<noteq> n \<Longrightarrow> m_get m key = m_get (w_sync w) key"
    and "\<And>key st. m_get m key = Some st \<Longrightarrow> fst key = n \<Longrightarrow> networkName (w_conns w0 (ss_peer st)) = n"
  shows "apart n w0 (w\<lparr>w_sync := m\<rparr>)"
  using w assms(2,3) unfolding apart_def by (simp del: map_of_eq_Some_iff split_paired_All)

lemma apart_put:
  assumes w: "apart n w0 w" and key: "fst key = n" and st: "networkName (w_conns w0 (ss_peer st)) = n"
  shows "apart n w0 (w\<lparr>w_sync := m_put key st (w_sync w)\<rparr>)"
proof (rule apart_sync_mod [OF w])
  fix key' :: "string \<times> u32" assume "fst key' \<noteq> n"
  then have "key' \<noteq> key" using key by blast
  then show "m_get (m_put key st (w_sync w)) key' = m_get (w_sync w) key'" by (simp add: m_get_put)
next
  fix key' st' assume "m_get (m_put key st (w_sync w)) key' = Some st'" "fst key' = n"
  then show "networkName (w_conns w0 (ss_peer st')) = n"
    using apart_sync [OF w, of key' st'] st unfolding m_get_put by (cases "key' = key") simp_all
qed

lemma apart_del:
  assumes w: "apart n w0 w" and key: "fst key = n"
  shows "apart n w0 (w\<lparr>w_sync := m_del key (w_sync w)\<rparr>)"
proof (rule apart_sync_mod [OF w])
  fix key' :: "string \<times> u32" assume "fst key' \<noteq> n"
  then have "key' \<noteq> key" using key by blast
  then show "m_get (m_del key (w_sync w)) key' = m_get (w_sync w) key'" by (simp add: m_get_del)
next
  fix key' st' assume "m_get (m_del key (w_sync w)) key' = Some st'" "fst key' = n"
  then show "networkName (w_conns w0 (ss_peer st')) = n"
    using apart_sync [OF w, of key' st'] unfolding m_get_del by (cases "key' = key") simp_all
qed

lemma apart_rooms:
  "apart n w0 w \<Longrightarrow> rooms_wf rs \<Longrightarrow> (\<And>m p. m \<noteq> n \<Longrightarrow> rooms_get rs m p = rooms_get (w_rooms w) m p) \<Longrightarrow>
     (\<And>p c. rooms_get rs n p = Some c \<Longrightarrow> networkName (w_conns w0 c) = n) \<Longrightarrow> apart n w0 (w\<lparr>w_rooms := rs\<rparr>)"
  by (simp add: apart_def)

lemma apart_room: "apart n w0 w \<Longrightarrow> rooms_get (w_rooms w) n p = Some c \<Longrightarrow> networkName (w_conns w0 c) = n"
  and apart_name: "apart n w0 w \<Longrightarrow> networkName (w_conns w c) = networkName (w_conns w0 c)"
  and apart_wf: "apart n w0 w \<Longrightarrow> rooms_wf (w_rooms w)"
  by (simp_all add: apart_def)

lemma apart_depart:
  assumes w: "apart n w0 w" and c: "c \<in> of_network n w0"
  shows "apart n w0 (depart cx c w)"
proof -
  have name: "networkName (w_conns w c) = n" using c apart_name [OF w] by simp
  let ?rs = "snd (rooms_delete n (peerId (w_conns w c)) c (w_rooms w))"
  let ?k = "(w_conns w c)\<lparr>phase := Closed\<rparr>"
  have "apart n w0 (w\<lparr>w_rooms := ?rs\<rparr>)"
    by (rule apart_rooms [OF w]) (use apart_wf [OF w] apart_room [OF w] in \<open>auto split: if_splits\<close>)
  then have "apart n w0 (if phase_of c w = Ready then w\<lparr>w_rooms := ?rs, w_sync := m_del (routeSyncKey (w_conns w c)) (w_sync w)\<rparr>
      else w\<lparr>w_rooms := ?rs\<rparr>)" (is "apart n w0 ?w")
    using apart_del [of n w0 "w\<lparr>w_rooms := ?rs\<rparr>" "routeSyncKey (w_conns w c)"] name by (simp add: routeSyncKey_def)
  then have "apart n w0 (conn_mod c (\<lambda>_. ?k) ?w)"
    by (rule apart_conn [OF _ c]) simp
  then show ?thesis
    by (subst apart_frame [of _ "conn_mod c (\<lambda>_. ?k) ?w"]) (simp_all add: conn_mod_def name)
qed

interpretation apt: closing_invariant cx "apart n w0" "of_network n w0" "{n}" for cx n w0
proof unfold_locales
  fix w :: "('a, 'b, 'c) world" and k :: "'a connection" and c
  assume "apart n w0 w" "c \<in> of_network n w0" "identity k = identity (w_conns w c)"
  then show "apart n w0 (conn_mod c (\<lambda>_. k) w)" by (intro apart_conn) (simp_all add: identity_def)
next
  fix w :: "('a, 'b, 'c) world" and key and s s' :: sync_state
  assume w: "apart n w0 w" and "fst key \<in> {n}" "m_get (w_sync w) key = Some s" "ss_peer s' = ss_peer s"
  then show "apart n w0 (w\<lparr>w_sync := m_put key s' (w_sync w)\<rparr>)"
    by (intro apart_put) (simp_all add: apart_sync [OF w])
next
  fix w :: "('a, 'b, 'c) world" and c key and s :: sync_state
  assume "apart n w0 w" "c \<in> of_network n w0" "routeSyncKey (w_conns w c) = key" "ss_peer s = c"
  then show "apart n w0 (w\<lparr>w_sync := m_put key s (w_sync w)\<rparr>)"
    by (intro apart_put) (auto simp: routeSyncKey_def apart_name)
next
  fix w :: "('a, 'b, 'c) world" and key and s :: sync_state
  assume "apart n w0 w" "fst key \<in> {n}" "m_get (w_sync w) key = Some s"
  then show "ss_peer s \<in> of_network n w0" using apart_sync by simp
next
  fix w :: "('a, 'b, 'c) world" and c
  assume "apart n w0 w" "c \<in> of_network n w0"
  then show "networkName (w_conns w c) \<in> {n}" by (simp add: apart_name)
next
  fix w :: "('a, 'b, 'c) world" and c now
  assume w: "apart n w0 w" and c: "c \<in> of_network n w0"
  let ?k = "(w_conns w c)\<lparr>handshakeTimer := False, secure := None\<rparr>"
  have "apart n w0 (conn_mod c (\<lambda>_. ?k) w)" by (rule apart_conn [OF w c]) simp
  then show "apart n w0 (dispose now c w)"
    by (subst apart_frame [of _ "conn_mod c (\<lambda>_. ?k) w"]) (simp_all add: conn_mod_def)
next
  fix w :: "('a, 'b, 'c) world" and name
  assume "apart n w0 w" "name \<in> {n}"
  then show "set (rooms_peers (w_rooms w) name) \<subseteq> of_network n w0"
    using rooms_peers_iff [OF apart_wf] apart_room by fastforce
qed (simp_all add: apart_depart)


subsection \<open>Handlers stay in their network\<close>

lemma apart_start:
  assumes "world_ok cx X R w"
  shows "apart n w w"
proof -
  have reg: "registered_ok R w" and sync: "sync_ok w" using assms by (simp_all add: world_ok_def)
  have "networkName (w_conns w (ss_peer st)) = n" if "m_get (w_sync w) key = Some st" "fst key = n" for key st
    using sync_ok_get [OF sync that(1)] that(2) by (auto simp: routeSyncKey_def)
  then show ?thesis
    using registered_get [OF reg] reg unfolding apart_def registered_ok_def by blast
qed

lemma keeps_apart_conn:
  "c \<in> of_network n w0 \<Longrightarrow> (\<And>k. networkName (f k) = networkName k) \<Longrightarrow> keeps (apart n w0) (mmod (conn_mod c f))"
  by (rule keeps_mod) (use apart_conn in \<open>force simp: conn_mod_def\<close>)

lemma keeps_apart_secure: "c \<in> of_network n w0 \<Longrightarrow> keeps (apart n w0) (on_secure c m)"
proof (rule keepsI)
  fix w assume c: "c \<in> of_network n w0" and w: "apart n w0 w"
  show "apart n w0 (snd (on_secure c m w))"
  proof (cases "secure (w_conns w c)")
    case (Some p)
    let ?s = "snd (m \<lparr>sc_peer = p, sc_store = w_store w, sc_draws = w_draws w\<rparr>)"
    have "apart n w0 (conn_mod c (\<lambda>_. (w_conns w c)\<lparr>secure := Some (sc_peer ?s)\<rparr>) w)"
      by (rule apart_conn [OF w c]) simp
    with Some show ?thesis
      by (simp add: on_secure_def case_prod_unfold conn_mod_def apart_def)
  qed (use w in \<open>simp add: on_secure_def\<close>)
qed

lemma keeps_apart_close: "c \<in> of_network n w0 \<Longrightarrow> keeps (apart n w0) (close_conn cx now c code reason)"
  by (rule keepsI, rule close_keeps [OF apt.closing_invariant_axioms]) (auto intro: apart_depart)

lemma keeps_apart_add:
  assumes c: "c \<in> of_network n w0"
  shows "keeps (apart n w0) (addPeer cx c)"
proof (rule keepsI)
  fix w assume w: "apart n w0 w"
  have key: "fst (routeSyncKey (w_conns w c)) = n" using c apart_name [OF w] by (simp add: routeSyncKey_def)
  have "keeps (apart n w0) (mmod (\<lambda>w'. w'\<lparr>w_sync := m_del (routeSyncKey (w_conns w c)) (w_sync w')\<rparr>))"
    by (rule keeps_mod, erule apart_del, rule key)
  moreover have "keeps (apart n w0) (on_core m)" for m :: "(('b, 'c) rpc_core, unit) op"
    by (simp add: keeps_def on_core_def case_prod_unfold)
  ultimately have "keeps (apart n w0) (mbind (on_core (core_add_peer (sx_rpc cx) (networkName (w_conns w c)) (peerId (w_conns w c))
      (remotePublicKey (w_conns w c)))) (\<lambda>_. mmod (\<lambda>w'. w'\<lparr>w_sync := m_del (routeSyncKey (w_conns w c)) (w_sync w')\<rparr>)))"
    by (intro keeps_bind)
  from keepsD [OF this w] show "apart n w0 (snd (addPeer cx c w))"
    unfolding addPeer_def mbind_mget .
qed

lemma keeps_apart_register:
  assumes c: "c \<in> of_network n w0"
  shows "keeps (apart n w0) (registerConnection cx now c)"
proof (rule keepsI)
  fix w assume w: "apart n w0 w"
  have name: "networkName (w_conns w c) = n" using c apart_name [OF w] by simp
  obtain replaced rs where r: "rooms_set n (peerId (w_conns w c)) c (w_rooms w) = (replaced, rs)" by (cases "rooms_set n (peerId (w_conns w c)) c (w_rooms w)")
  then have rs: "rs = snd (rooms_set n (peerId (w_conns w c)) c (w_rooms w))" by simp
  from r rooms_set_previous [of n "peerId (w_conns w c)" c "w_rooms w"]
  have replaced: "replaced = rooms_get (w_rooms w) n (peerId (w_conns w c))" by (simp del: rooms_set_previous)
  have w1: "apart n w0 (w\<lparr>w_rooms := rs\<rparr>)"
    unfolding rs by (rule apart_rooms [OF w]) (use apart_wf [OF w] apart_room [OF w] c in \<open>auto split: if_splits\<close>)
  have old: "replaced = Some old \<Longrightarrow> old \<in> of_network n w0" for old
    using apart_room [OF w] replaced by simp
  have "keeps (apart n w0) (mbind (case replaced of None \<Rightarrow> mret ()
      | Some old \<Rightarrow> if old \<noteq> c then close_conn cx now old 4000 ''replaced by an authenticated reconnect'' else mret ())
      (\<lambda>_. addPeer cx c))"
    by (rule keeps_bind, cases replaced) (auto intro!: keeps_ret keeps_apart_close keeps_apart_add c old)
  from keepsD [OF this w1] show "apart n w0 (snd (registerConnection cx now c w))"
    by (simp add: registerConnection_def mbind_mget name r mbind_mrun)
qed

lemma keeps_apart_handshake3:
  assumes c: "c \<in> of_network n w0"
  shows "keeps (apart n w0) (handleHandshakeMessage3 cx now c frame ptype)"
proof -
  have broadcast: "keeps (apart n w0) (broadcastRouteUpdate cx now n None)"
    by (rule keeps_broadcastRouteUpdate [OF apt.closing_invariant_axioms]) simp
  have rest: "keeps (apart n w0) (mbind (mget (\<lambda>w. w_conns w c)) (\<lambda>k.
        if ai_peerId auth \<noteq> peerId k \<or> ai_networkName auth \<noteq> networkName k
        then mraise (Err ''secure handshake identity mismatch'')
        else
          mbind (mmod (conn_mod c (\<lambda>k. k\<lparr>remotePublicKey := ai_remotePublicKey auth\<rparr>))) (\<lambda>_.
          mbind (registerConnection cx now c) (\<lambda>_.
          mbind (mmod (conn_mod c completeHandshake)) (\<lambda>_.
          broadcastRouteUpdate cx now (networkName k) None)))))" for auth
  proof (rule keepsI)
    fix w assume w: "apart n w0 w"
    have name: "networkName (w_conns w c) = n" using c apart_name [OF w] by simp
    have "keeps (apart n w0) (mbind (mmod (conn_mod c (\<lambda>k. k\<lparr>remotePublicKey := ai_remotePublicKey auth\<rparr>))) (\<lambda>_.
          mbind (registerConnection cx now c) (\<lambda>_.
          mbind (mmod (conn_mod c completeHandshake)) (\<lambda>_.
          broadcastRouteUpdate cx now n None))))"
      by (intro pres keeps_apart_conn keeps_apart_register broadcast c) (simp_all add: completeHandshake_def)
    from keepsD [OF this w] w show "apart n w0 (snd (mbind (mget (\<lambda>w. w_conns w c)) (\<lambda>k.
        if ai_peerId auth \<noteq> peerId k \<or> ai_networkName auth \<noteq> networkName k
        then mraise (Err ''secure handshake identity mismatch'')
        else
          mbind (mmod (conn_mod c (\<lambda>k. k\<lparr>remotePublicKey := ai_remotePublicKey auth\<rparr>))) (\<lambda>_.
          mbind (registerConnection cx now c) (\<lambda>_.
          mbind (mmod (conn_mod c completeHandshake)) (\<lambda>_.
          broadcastRouteUpdate cx now (networkName k) None)))) w))"
      by (simp add: mbind_mget name mraise_def)
  qed
  show ?thesis
    unfolding handleHandshakeMessage3_def
    by (rule keeps_if, rule keeps_raise, rule keeps_bind, rule keeps_apart_secure [OF c],
        rule keeps_bind, rule keeps_lift, rule rest)
qed

lemma apart_forward:
  assumes c: "c \<in> of_network n w0"
  shows "keeps (apart n w0) (forwardPacket cx now c frame to_peer)"
proof (rule keepsI)
  fix w assume w: "apart n w0 w"
  have name: "networkName (w_conns w c) = n" using c apart_name [OF w] by simp
  show "apart n w0 (snd (forwardPacket cx now c frame to_peer w))"
  proof (cases "rooms_get (w_rooms w) n to_peer")
    case (Some target)
    then have t: "target \<in> of_network n w0" using apart_room [OF w] by simp
    have "keeps (apart n w0) (mbind (mget (phase_of target)) (\<lambda>p.
         if p \<noteq> Ready then mret ()
         else
           mbind (mlift (incrementForwardCounter frame)) (\<lambda>forwarded.
           mcatch (on_conn target (sendConnection now forwarded))
                  (\<lambda>e. close_conn cx now target 1013 ''outbound relay capacity exceeded''))))"
      by (intro pres keeps_apart_close t) (rule apt.keeps_send [OF t])
    from keepsD [OF this w] Some show ?thesis
      by (simp add: forwardPacket_def mbind_mget findPeer_def name)
  qed (use w in \<open>simp add: forwardPacket_def mbind_mget findPeer_def name mret_def\<close>)
qed

lemma apart_ready_packet:
  assumes c: "c \<in> of_network n w0"
  shows "leads (\<lambda>w. apart n w0 w \<and> phase_of c w = Ready) (handleReadyPacket cx now c frame header) (apart n w0)"
proof -
  let ?J = "\<lambda>w. apart n w0 w \<and> phase_of c w = Ready"
  have ready: "server_invariant cx ?J (of_network n w0) {n}" by (rule apt.ready)
  have broadcast: "keeps (apart n w0) (broadcastRouteUpdate cx now n exclude)" for exclude
    by (rule keeps_broadcastRouteUpdate [OF apt.closing_invariant_axioms]) simp
  have rest: "leads ?J (if from_peer_id header \<noteq> peerId k
        then mraise (Err ''direct control packet source does not match the authenticated peer'')
        else if (packet_type header = Ping \<or> packet_type header = Pong) \<and> encrypted header
        then mraise (Err ''EasyTier Ping and Pong packets must remain unencrypted'')
        else if packet_type header = Ping
        then mbind (mlift (createPong frame)) (\<lambda>pong. on_conn c (sendConnection now pong))
        else if packet_type header = Pong then mret ()
        else if packet_type header \<noteq> RpcReq \<and> packet_type header \<noteq> RpcResp then mret ()
        else if \<not> encrypted header
        then mraise (Err ''secure_mode requires encrypted direct RPC packets'')
        else
          mbind (on_secure c (decrypt_packet (sx_lib cx) (of_nat now) frame)) (\<lambda>clear.
          if clear = [] then mret ()
          else
            mbind (mlift (parsePacket clear)) (\<lambda>(clear_header, payload).
            if packet_type header = RpcReq
            then mbind (handleRequest cx now c payload) (\<lambda>result.
                 if result = Route then broadcastRouteUpdate cx now (networkName k) (Some (peerId k))
                 else mret ())
            else handleResponse cx now c payload))) (apart n w0)"
    if k: "networkName k = n" for k :: "'a connection"
    unfolding k
    by (intro leads_if leads_bind leads_case_prod leads_keeps' [OF broadcast] pres c
        server_invariant.keeps_decrypt [OF ready] server_invariant.keeps_handleRequest [OF ready]
        leads_keeps [OF server_invariant.keeps_send [OF ready c]]
        leads_keeps [OF server_invariant.keeps_handleResponse [OF ready c]]
        leads_keeps [OF keeps_ret] leads_keeps [OF keeps_raise]) simp_all
  show ?thesis
    unfolding leads_def
  proof (intro allI impI)
    fix w assume w: "?J w"
    then have name: "networkName (w_conns w c) = n" using c apart_name [of n w0 w c] by simp
    show "apart n w0 (snd (handleReadyPacket cx now c frame header w))"
    proof (cases "to_peer_id header \<noteq> SERVER_PEER_ID")
      case True
      from keepsD [OF apart_forward [OF c], of w] w show ?thesis
        unfolding handleReadyPacket_def if_P [OF True] by blast
    next
      case False
      from leadsD [OF rest [OF name] w] show ?thesis
        unfolding handleReadyPacket_def if_not_P [OF False] mbind_mget .
    qed
  qed
qed

subsection \<open>Stored sessions\<close>

text \<open>What a client that has proved nothing leaves of the session it names: the key, the generation, the
  algorithm and a client key once pinned.  The session is still live afterwards.\<close>

definition session_kept :: "u64 \<Rightarrow> stored_session \<Rightarrow> stored_session \<Rightarrow> bool" where
  "session_kept now_ms x x' \<longleftrightarrow> st_root_key x' = st_root_key x \<and> st_generation x' = st_generation x
     \<and> st_client_algorithm x' = st_client_algorithm x
     \<and> (st_remote_public_key x \<noteq> None \<longrightarrow> st_remote_public_key x' = st_remote_public_key x)
     \<and> session_live now_ms x'"

definition sessions_kept :: "u64 \<Rightarrow> session_key \<Rightarrow> store \<Rightarrow> store \<Rightarrow> bool" where
  "sessions_kept now_ms key st st' \<longleftrightarrow> (\<forall>k x. m_get st k = Some x \<longrightarrow> session_live now_ms x \<longrightarrow>
     (if k = key then \<exists>x'. m_get st' k = Some x' \<and> session_kept now_ms x x' else m_get st' k = Some x))"

lemma sessions_kept_refl: "sessions_kept now_ms key st st"
  by (simp add: sessions_kept_def session_kept_def del: map_of_eq_Some_iff)

lemma m_get_retain_Some: "m_get m k = Some x \<Longrightarrow> P k x \<Longrightarrow> m_get (m_retain P m) k = Some x"
  by (induction m) (auto simp: m_retain_def split: if_splits)

lemma sessions_kept_retain:
  "sessions_kept now_ms key st st' \<Longrightarrow> sessions_kept now_ms key st (m_retain (\<lambda>_. session_live now_ms) st')"
  by (fastforce simp: sessions_kept_def session_kept_def simp del: map_of_eq_Some_iff intro: m_get_retain_Some)

lemma sessions_kept_put:
  assumes "sessions_kept now_ms key st st'" and "m_get st' key = Some y"
    and "\<And>x. session_kept now_ms x y \<Longrightarrow> session_kept now_ms x y'"
  shows "sessions_kept now_ms key st (m_put key y' st')"
  using assms by (fastforce simp: sessions_kept_def m_get_put simp del: map_of_eq_Some_iff)

lemma sessions_kept_new:
  assumes "sessions_kept now_ms key st st'" and "m_get st' key = None"
  shows "sessions_kept now_ms key st (m_put key y st')"
  using assms by (fastforce simp: sessions_kept_def m_get_put simp del: map_of_eq_Some_iff)

lemma session_live_now: "session_live now_ms (x\<lparr>st_last_touch_ms := now_ms\<rparr>)"
  by (simp add: session_live_def SESSION_IDLE_MS_def)

text \<open>The session a peer uses or will use.\<close>

definition destined :: "session_key \<Rightarrow> 'hs secure_peer \<Rightarrow> bool" where
  "destined key p \<longleftrightarrow> (case session_key_of p of Some k \<Rightarrow> k = key
     | None \<Rightarrow> \<forall>name pid. network_name p = Some name \<longrightarrow> peer_id p = Some pid \<longrightarrow> session_key_for p name pid = key)"

lemma destined_exists: "\<exists>key. destined key p"
  by (cases "session_key_of p"; cases "network_name p"; cases "peer_id p") (auto simp: destined_def)

definition sec_kept :: "u64 \<Rightarrow> session_key \<Rightarrow> store \<Rightarrow> 'hs sec \<Rightarrow> bool" where
  "sec_kept now_ms key st s \<longleftrightarrow> sessions_kept now_ms key st (sc_store s) \<and> destined key (sc_peer s)"

lemma sec_kept_peer: "(\<And>p. destined key p \<Longrightarrow> destined key (f p)) \<Longrightarrow> keeps (sec_kept now_ms key st) (peer_mod f)"
  by (simp add: keeps_def sec_kept_def peer_mod_def op_defs)

lemma sec_kept_random [pres]: "keeps (sec_kept now_ms key st) (random_uuid lib)"
  unfolding random_uuid_def by (intro pres) (simp add: keeps_def fill_random_def sec_kept_def)

lemma sec_kept_attach [pres]: "keeps (sec_kept now_ms key st) (attach_session now_ms)"
proof -
  have "session_kept now_ms x y \<Longrightarrow> session_kept now_ms x (y\<lparr>st_attachments := n, st_last_touch_ms := now_ms\<rparr>)" for x y n
    using session_live_now [of now_ms "y\<lparr>st_attachments := n\<rparr>"] by (simp add: session_kept_def)
  then show ?thesis
    by (auto simp: keeps_def sec_kept_def attach_session_def stored_of_def store_put_def peer_need_def peer_mod_def op_defs
        ok_or_def destined_def session_key_for_def simp del: map_of_eq_Some_iff split: option.splits sum.splits
        elim!: sessions_kept_put)
qed

lemma sec_kept_load [pres]: "keeps (sec_kept now_ms key st) load_session_state"
  unfolding load_session_state_def
  by (intro pres sec_kept_peer) (auto simp: destined_def load_from_def session_key_for_def split: option.splits)

lemma sec_kept_confirm: "sec_kept now_ms key st s \<Longrightarrow> session_key_of (sc_peer s) = Some k \<Longrightarrow>
  sec_kept now_ms key st (snd (confirm_session_public_key now_ms k remote s))"
  by (auto simp: sec_kept_def confirm_session_public_key_def store_put_def op_defs ok_or_def destined_def
      session_kept_def session_live_now simp del: map_of_eq_Some_iff split: option.splits
      intro!: sessions_kept_put)

lemma sec_kept_upsert: "keeps (sec_kept now_ms key st) (upsert_session lib now_ms key generation alg)"
proof -
  have join: "session_kept now_ms x y \<Longrightarrow> session_kept now_ms x (y\<lparr>st_last_touch_ms := now_ms\<rparr>)"
    and sync: "session_kept now_ms x y \<Longrightarrow> session_kept now_ms x (sync_session now_ms y)" for x y
    using session_live_now [of now_ms y] by (simp_all add: session_kept_def sync_session_def session_live_def SESSION_IDLE_MS_def)
  show ?thesis
  proof (rule keepsI)
    fix s :: "'a sec" assume s: "sec_kept now_ms key st s"
    define st' where "st' = m_retain (\<lambda>_. session_live now_ms) (sc_store s)"
    have st': "sessions_kept now_ms key st st'" using s by (simp add: st'_def sec_kept_def sessions_kept_retain)
    show "sec_kept now_ms key st (snd (upsert_session lib now_ms key generation alg s))"
    proof (cases "m_get st' key")
      case None
      then show ?thesis
        using s st' sessions_kept_new [OF st' None]
        by (auto simp: upsert_session_def op_defs st'_def [symmetric] sec_kept_def fill_random_def store_put_def
            split: sum.splits)
    next
      case (Some y)
      then show ?thesis
        using s st' sessions_kept_put [OF st' Some] join sync
        by (auto simp: upsert_session_def op_defs st'_def [symmetric] sec_kept_def store_put_def Let_def)
    qed
  qed
qed

lemma sec_kept_write: "keeps (sec_kept now_ms key st) (write_handshake lib message)"
  unfolding write_handshake_def
  by (intro pres sec_kept_peer) (auto simp: destined_def session_key_for_def split: option.splits)

lemma mbind_peer_get: "mbind (peer_get f) k s = k (f (sc_peer s)) s"
  and mbind_peer_need: "mbind (peer_need g m) h s =
    (case g (sc_peer s) of None \<Rightarrow> (Inl (Err m), s) | Some a \<Rightarrow> h a s)"
  by (simp_all add: mbind_def peer_get_def peer_need_def mget_def mtry_def split: option.split)

lemma sec_kept_build: "keeps (sec_kept now_ms key st) (build_msg2 lib now_ms secret)"
proof (rule keepsI)
  fix s :: "'a sec" assume s: "sec_kept now_ms key st s"
  have rest: "keeps (sec_kept now_ms key st)
    (mbind (peer_need client_algorithm ''message 1 has no encryption algorithm'') (\<lambda>alg.
     mbind (peer_get a_session_generation) (\<lambda>generation.
     mbind (upsert_session lib now_ms key generation alg) (\<lambda>session.
     mbind (random_uuid lib) (\<lambda>conn_id.
     mbind (peer_get (\<lambda>p. encode_msg2 lib (noise_msg2_of p name session conn_id proof_bytes))) (\<lambda>message.
     mbind (write_handshake lib message) (\<lambda>noise_message.
     mbind (peer_mod (\<lambda>p. p\<lparr>proof_challenge := map_option (noise_hash lib) (handshake p),
                            network_secret := Some (ascii secret),
                            root_key := Some (session_root_key session),
                            session_key_of := Some key\<rparr>)) (\<lambda>_.
     mbind (attach_session now_ms) (\<lambda>_.
     mbind load_session_state (\<lambda>_.
     mbind (peer_mod (\<lambda>p. p\<lparr>b_conn_id := Some conn_id\<rparr>)) (\<lambda>_.
     mret (wrap_packet (sk_server_peer_id key) pid PACKET_NOISE_MSG2 0 noise_message))))))))))))" for name pid proof_bytes
    by (intro pres sec_kept_upsert sec_kept_write sec_kept_peer)
       (auto simp: destined_def session_key_for_def split: option.splits)
  show "sec_kept now_ms key st (snd (build_msg2 lib now_ms secret s))"
  proof (cases "secret = [] \<or> session_key_of (sc_peer s) \<noteq> None \<or> peer_id (sc_peer s) = None
      \<or> network_name (sc_peer s) = None \<or> handshake (sc_peer s) = None")
    case True
    with s show ?thesis
      unfolding build_msg2_def
      by (auto simp: mbind_peer_get mbind_peer_need mraise_def Let_def split: option.split)
  next
    case False
    then obtain name pid hs where p: "network_name (sc_peer s) = Some name" "peer_id (sc_peer s) = Some pid"
        "handshake (sc_peer s) = Some hs" "session_key_of (sc_peer s) = None" "secret \<noteq> []"
      by auto
    then have "session_key_for (sc_peer s) name pid = key" using s by (simp add: sec_kept_def destined_def)
    with p keepsD [OF rest s, of name "secret_proof lib (ascii secret) (noise_hash lib hs)" pid] show ?thesis
      unfolding build_msg2_def Let_def by (simp add: mbind_peer_get mbind_peer_need)
  qed
qed

text \<open>A continuation that runs in the peer's own state.\<close>

lemma sec_kept_need_key:
  assumes "\<And>k. keeps (sec_kept now_ms key st) (f k)"
  shows "keeps (sec_kept now_ms key st) (mbind (peer_need session_key_of message) (\<lambda>k.
    mbind (confirm_session_public_key now_ms k remote) (\<lambda>_. f k)))"
proof (rule keepsI)
  fix s :: "'a sec" assume s: "sec_kept now_ms key st s"
  show "sec_kept now_ms key st (snd (mbind (peer_need session_key_of message) (\<lambda>k.
    mbind (confirm_session_public_key now_ms k remote) (\<lambda>_. f k)) s))"
  proof (cases "session_key_of (sc_peer s)")
    case (Some k)
    have "sec_kept now_ms key st (snd (mbind (confirm_session_public_key now_ms k remote) (\<lambda>_. f k) s))"
      using sec_kept_confirm [OF s Some, of remote] assms [of k]
      by (auto simp: mbind_def keeps_def split: prod.split sum.split)
    with Some show ?thesis by (simp add: mbind_peer_need)
  qed (use s in \<open>simp add: mbind_peer_need\<close>)
qed

lemma sec_kept_finish: "keeps (sec_kept now_ms key st) (finish_msg3 lib now_ms packet)"
  unfolding finish_msg3_def msg3_checked_def
  by (intro sec_kept_need_key pres sec_kept_peer)
     (auto simp: destined_def session_key_for_def split: option.splits)

lemma sec_kept_drop:
  assumes "sessions_kept now_ms key st st'" and "destined key p"
  shows "sessions_kept now_ms key st (drop_peer now_ms p st')"
  using assms session_live_now
  by (auto simp: drop_peer_def destined_def session_kept_def simp del: map_of_eq_Some_iff
      split: option.split bool.split intro!: sessions_kept_put)

subsection \<open>Before authentication\<close>

definition only :: "cid \<Rightarrow> ('hs, 'x, 'y) world \<Rightarrow> ('hs, 'x, 'y) world \<Rightarrow> bool" where
  "only c w0 w \<longleftrightarrow> (\<forall>d. d \<noteq> c \<longrightarrow> w_conns w d = w_conns w0 d) \<and> w_rooms w = w_rooms w0
     \<and> w_core w = w_core w0 \<and> w_sync w = w_sync w0 \<and> w_next w = w_next w0
     \<and> removeAll c (w_connections w) = removeAll c (w_connections w0) \<and> phase_of c w \<noteq> Ready
     \<and> (\<forall>n p. rooms_get (w_rooms w0) n p \<noteq> Some c)"

definition only_session :: "nat \<Rightarrow> session_key \<Rightarrow> cid \<Rightarrow> ('hs, 'x, 'y) world \<Rightarrow> ('hs, 'x, 'y) world \<Rightarrow> bool" where
  "only_session now key c w0 w \<longleftrightarrow> sessions_kept (of_nat now) key (w_store w0) (w_store w)
     \<and> (\<forall>p. secure (w_conns w c) = Some p \<longrightarrow> destined key p)"

lemma keeps_session_mod:
  "(\<And>k. secure (f k) = secure k) \<Longrightarrow> keeps (only_session now key c w0) (mmod (conn_mod c f))"
  by (simp add: keeps_def mmod_def only_session_def conn_mod_def)

lemma keeps_session_on_conn:
  "(\<And>k. secure (snd (m k)) = secure k) \<Longrightarrow> keeps (only_session now key c w0) (on_conn c m)"
  by (simp add: keeps_def on_conn_def case_prod_unfold only_session_def conn_mod_def)

lemma keeps_session_secure:
  "keeps (sec_kept (of_nat now) key (w_store w0)) m \<Longrightarrow> keeps (only_session now key c w0) (on_secure c m)"
  by (auto simp: keeps_def on_secure_def case_prod_unfold only_session_def sec_kept_def conn_mod_def split: option.split)

lemma depart_session [simp]: "w_store (depart cx c w) = w_store w" "secure (w_conns (depart cx c w) d) = secure (w_conns w d)"
  by (simp_all add: depart_def Let_def removePeer_def conn_mod_def)

lemma keeps_session_remove:
  assumes "phase_of c w \<noteq> Ready" and "only_session now key c w0 w"
  shows "only_session now key c w0 (snd (remove_with cx now close c w))"
proof -
  have "only_session now key c w0 (dispose now c (depart cx c w))"
    using assms(2) sec_kept_drop [of "of_nat now" key "w_store w0"]
    by (auto simp: dispose_def disposeConnection_def only_session_def conn_mod_def split: option.split)
  with assms show ?thesis by (simp add: remove_with_depart mbind_def mret_def mmod_def)
qed

lemma only_conn: "only c w0 w \<Longrightarrow> phase k \<noteq> Ready \<Longrightarrow> only c w0 (conn_mod c (\<lambda>_. k) w)"
  by (simp add: only_def conn_mod_def phase_of_def)

lemma keeps_only_conn: "(\<And>k. phase k \<noteq> Ready \<Longrightarrow> phase (f k) \<noteq> Ready) \<Longrightarrow> keeps (only c w0) (mmod (conn_mod c f))"
  by (rule keeps_mod) (simp add: only_def conn_mod_def phase_of_def)

lemma keeps_only_on_conn: "(\<And>k. phase (snd (m k)) = phase k) \<Longrightarrow> keeps (only c w0) (on_conn c m)"
  by (simp add: keeps_def on_conn_def case_prod_unfold only_def conn_mod_def phase_of_def)

lemma keeps_only_secure: "keeps (only c w0) (on_secure c m)"
  by (auto simp: keeps_def on_secure_def case_prod_unfold only_def conn_mod_def phase_of_def split: option.split)

lemma only_delete: "only c w0 w \<Longrightarrow> snd (rooms_delete n p c (w_rooms w)) = w_rooms w"
  by (auto simp: only_def rooms_delete_def rooms_get_def split: option.splits)

lemma keeps_only_remove: "keeps (only c w0) (remove_with cx now close c)"
proof (rule keepsI)
  fix w assume w: "only c w0 w"
  then have "phase_of c w \<noteq> Ready" by (simp add: only_def)
  moreover have "only c w0 (dispose now c (depart cx c w))"
    using w only_delete [OF w] by (simp add: only_def phase_of_depart)
  ultimately show "only c w0 (snd (remove_with cx now close c w))"
    using w by (simp add: remove_with_depart mbind_def mret_def mmod_def)
qed

lemma keeps_both: "keeps P m \<Longrightarrow> keeps Q m \<Longrightarrow> keeps (\<lambda>w. P w \<and> Q w) m"
  by (simp add: keeps_def)

text \<open>What a client before authentication may have changed, and what it did to the session \<open>key\<close>.\<close>

definition stranger :: "nat \<Rightarrow> session_key \<Rightarrow> cid \<Rightarrow> ('hs, 'x, 'y) world \<Rightarrow> ('hs, 'x, 'y) world \<Rightarrow> bool" where
  "stranger now key c w0 w \<longleftrightarrow> only c w0 w \<and> only_session now key c w0 w"

lemma keeps_stranger:
  "keeps (only c w0) m \<Longrightarrow> keeps (only_session now key c w0) m \<Longrightarrow> keeps (stranger now key c w0) m"
  unfolding stranger_def [abs_def] by (rule keeps_both)

lemma keeps_stranger_remove: "keeps (stranger now key c w0) (remove_with cx now close c)"
proof (rule keepsI)
  fix w assume "stranger now key c w0 w"
  then have w: "only c w0 w" "only_session now key c w0 w" by (simp_all add: stranger_def)
  then have "phase_of c w \<noteq> Ready" by (simp add: only_def)
  with w keepsD [OF keeps_only_remove w(1)] keeps_session_remove
  show "stranger now key c w0 (snd (remove_with cx now close c w))" unfolding stranger_def by blast
qed

lemma keeps_stranger_close: "keeps (stranger now key c w0) (close_conn cx now c code reason)"
proof (rule keepsI)
  fix w assume w: "stranger now key c w0 w"
  have "keeps (stranger now key c w0) (close_fuel cx now n c code reason)" for n
  proof (cases n)
    case (Suc m)
    have "keeps (stranger now key c w0) (on_conn c (on_socket (socket_close code (take 120 reason))))"
      by (intro keeps_stranger keeps_only_on_conn keeps_session_on_conn) (simp_all add: on_socket_def case_prod_unfold)
    then show ?thesis
      unfolding Suc close_fuel.simps by (intro pres keeps_stranger_remove)
  qed (simp add: pres)
  from keepsD [OF this w] show "stranger now key c w0 (snd (close_conn cx now c code reason w))"
    by (simp add: close_conn_def)
qed

lemma keeps_stranger_send: "keeps (stranger now key c w0) (on_conn c (sendConnection now p))"
  using sendConnection_frame [OF refl, of now p]
  by (intro keeps_stranger keeps_only_on_conn keeps_session_on_conn) blast+

lemma keeps_stranger_secure:
  "keeps (sec_kept (of_nat now) key (w_store w0)) m \<Longrightarrow> keeps (stranger now key c w0) (on_secure c m)"
  by (intro keeps_stranger keeps_only_secure keeps_session_secure)

lemma read_msg1_store: "sc_store (snd (read_msg1 lib b s)) = sc_store s"
proof -
  have "keeps (\<lambda>s'. sc_store s' = sc_store s) (read_msg1 lib b)"
    unfolding read_msg1_def by (intro pres) (simp add: keeps_def peer_mod_def op_defs)
  from keepsD [OF this] show ?thesis by simp
qed

lemma only_start:
  assumes "world_ok cx {} {} w" and "phase_of c w \<noteq> Ready"
  shows "only c w w"
proof -
  have "registered_ok {} w" using assms(1) by (simp add: world_ok_def)
  from registered_get [OF this] assms(2) show ?thesis by (auto simp: only_def)
qed


lemma stranger_start:
  assumes "only c w w"
  shows "\<exists>key. stranger now key c w (snd (on_secure c (read_msg1 lib b) w))"
proof (cases "secure (w_conns w c)")
  case None
  with assms show ?thesis by (simp add: on_secure_def stranger_def only_session_def sessions_kept_refl)
next
  case (Some p)
  let ?s = "snd (read_msg1 lib b \<lparr>sc_peer = p, sc_store = w_store w, sc_draws = w_draws w\<rparr>)"
  obtain key where key: "destined key (sc_peer ?s)" using destined_exists by blast
  have "only_session now key c w (snd (on_secure c (read_msg1 lib b) w))"
    using key by (simp add: on_secure_def Some case_prod_unfold only_session_def read_msg1_store sessions_kept_refl conn_mod_def)
  with keepsD [OF keeps_only_secure assms] show ?thesis unfolding stranger_def by blast
qed

lemma stranger_refl:
  assumes "only c w w"
  shows "\<exists>key. stranger now key c w w"
proof (cases "secure (w_conns w c)")
  case (Some p)
  obtain key where "destined key p" using destined_exists by blast
  with assms Some show ?thesis by (auto simp: stranger_def only_session_def sessions_kept_refl)
qed (use assms in \<open>simp add: stranger_def only_session_def sessions_kept_refl\<close>)

lemma stranger_handshake1:
  assumes "only c w w"
  shows "\<exists>key. stranger now key c w (snd (handleHandshakeMessage1 cx now c frame ptype w))"
proof (cases "ptype = NoiseHandshakeMsg1")
  case True
  obtain key where key: "stranger now key c w (snd (on_secure c (read_msg1 (sx_lib cx) frame) w))"
    using stranger_start [OF assms] by blast
  have "keeps (stranger now key c w) (mbind (mlift (parseHandshakeInfo json)) (\<lambda>info.
        case m_get (cfg_rooms (sx_config cx)) (hi_networkName info) of
          None \<Rightarrow> close_conn cx now c 4403 ''network is not configured''
        | Some secret \<Rightarrow>
            mbind (mmod (conn_mod c (\<lambda>k. k\<lparr>peerId := hi_peerId info, networkName := hi_networkName info\<rparr>))) (\<lambda>_.
            mbind (on_secure c (build_msg2 (sx_lib cx) (of_nat now) (to_rust_str secret))) (\<lambda>msg2.
            mbind (on_conn c (sendConnection now msg2)) (\<lambda>_.
            mmod (conn_mod c (\<lambda>k. k\<lparr>phase := Msg3\<rparr>)))))))" for json
    by (intro pres keeps_stranger_close keeps_stranger_secure sec_kept_build keeps_stranger_send
        keeps_stranger keeps_only_conn keeps_session_mod) simp_all
  with True key show ?thesis
    unfolding handleHandshakeMessage1_def set_phase_def
    by (intro exI [of _ key]) (auto simp: mbind_def [of "on_secure c m" for m] keeps_def split: prod.split sum.split)
next
  case False
  with stranger_refl [OF assms] show ?thesis by (simp add: handleHandshakeMessage1_def mraise_def)
qed

subsection \<open>What a message can change\<close>

lemma apart_message:
  assumes w: "apart n w0 w" and c: "c \<in> of_network n w0" and "phase_of c w \<noteq> Msg1"
  shows "apart n w0 (snd (onMessage cx now c data w))"
proof (rule onMessage_ends)
  show "apart n w0 (snd (handleMessage cx now c data w))"
  proof (cases rule: message_cases [where cx = cx and now = now and c = c and data = data and w = w])
    case (frame frame header payload)
    show ?thesis
      unfolding frame(4)
      using assms keepsD [OF keeps_apart_handshake3 [OF c] w] leadsD [OF apart_ready_packet [OF c], of w]
      by (cases "phase_of c w") (simp_all add: mret_def)
  qed (use w in simp)
qed (rule keeps_apart_close [OF c])

lemma stranger_message:
  assumes w: "world_ok cx {} {} w"
    and c: "phase_of c w = Msg1 \<or> phase_of c w = Msg3 \<and> (\<forall>frame. data = BinaryFrame frame \<longrightarrow>
      isl (fst (on_secure c (finish_msg3 (sx_lib cx) (of_nat now) frame) w)))"
  shows "\<exists>key. stranger now key c w (snd (onMessage cx now c data w))"
proof -
  have start: "only c w w" using w c by (intro only_start) auto
  have "\<exists>key. stranger now key c w (snd (handleMessage cx now c data w))"
  proof (cases rule: message_cases [where cx = cx and now = now and c = c and data = data and w = w])
    case (frame frame header payload)
    show ?thesis
    proof (cases "phase_of c w = Msg1")
      case True
      then show ?thesis unfolding frame(4) using stranger_handshake1 [OF start] by simp
    next
      case False
      then have p: "phase_of c w = Msg3" and r: "isl (fst (on_secure c (finish_msg3 (sx_lib cx) (of_nat now) frame) w))"
        using c frame(1) by auto
      obtain key where key: "stranger now key c w w" using stranger_refl [OF start] by blast
      have "stranger now key c w (snd (on_secure c (finish_msg3 (sx_lib cx) (of_nat now) frame) w))"
        by (rule keepsD [OF keeps_stranger_secure [OF sec_kept_finish] key])
      with r key have "stranger now key c w (snd (handleHandshakeMessage3 cx now c frame (packet_type header) w))"
        by (auto simp: handleHandshakeMessage3_def mraise_def mbind_def split: prod.split sum.split)
      with p show ?thesis unfolding frame(4) by auto
    qed
  qed (use stranger_refl [OF start] in simp)
  then obtain key where "stranger now key c w (snd (handleMessage cx now c data w))" by blast
  from onMessage_ends [where I = "stranger now key c w", OF this keeps_stranger_close] show ?thesis by blast
qed

lemma only_message:
  assumes "world_ok cx {} {} w"
    and "phase_of c w = Msg1 \<or> phase_of c w = Msg3 \<and> (\<forall>frame. data = BinaryFrame frame \<longrightarrow>
      isl (fst (on_secure c (finish_msg3 (sx_lib cx) (of_nat now) frame) w)))"
  shows "only c w (snd (onMessage cx now c data w))"
  using stranger_message [OF assms] by (auto simp: stranger_def)

end
