(* ===== verification/Example_World.thy ===== *)
theory Example_World
  imports Isolation
begin

text \<open>
  Concrete states of the Durable Object, for the examples of the properties: two clients of network
  \<open>home\<close>, one of \<open>lab\<close> and a connection that has not authenticated.
\<close>

definition toy_peer :: "u32 \<Rightarrow> string \<Rightarrow> nat secure_peer" where
  "toy_peer p name = Secure_Session.toy_pending\<lparr>peer_id := Some p, network_name := Some name, authenticated := True\<rparr>"

definition toy_client :: "u32 \<Rightarrow> string \<Rightarrow> nat connection" where
  "toy_client p name = (createConnection 1000 (0, p) open_socket (toy_peer p name))
     \<lparr>peerId := p, networkName := name, remotePublicKey := replicate 32 7, phase := Ready, handshakeTimer := False\<rparr>"

definition toy_add :: "string \<Rightarrow> u32 \<Rightarrow> (unit, unit) rpc_core \<Rightarrow> (unit, unit) rpc_core" where
  "toy_add name p c = snd (core_add_peer toy_rpc_lib name p (replicate 32 7) c)"

definition toy_world :: "(nat, unit, unit) world" where
  "toy_world = \<lparr>
     w_conns = (\<lambda>_. no_connection)(0 := toy_client 7 ''home'', 1 := toy_client 9 ''home'', 2 := toy_client 8 ''lab'',
       3 := createConnection 1000 (0, 6) open_socket Secure_Session.toy_pending),
     w_next = 4, w_connections = [0, 1, 2, 3],
     w_rooms = [(''home'', [(7, 0), (9, 1)]), (''lab'', [(8, 2)])], w_timer = True,
     w_core = toy_add ''lab'' 8 (toy_add ''home'' 9 (toy_add ''home'' 7 (projr (core_new (replicate 32 2) ''edge'' 10000001)))),
     w_sync = [], w_store = [], w_draws = 0\<rparr>"

lemma toy_cx_sel [simp]: "sx_lib toy_cx = toy_lib" "sx_rpc toy_cx = toy_rpc_lib" "sx_config toy_cx = sample_config"
  by (simp_all add: toy_cx_def)

lemma toy_json: "json_writer (to_json (sx_lib toy_cx))"
  using jw.json_writer_axioms by (simp add: toy_lib_def)

lemma toy_core_ok: "core_ok toy_rpc_lib 10000001 (w_core toy_world)"
  unfolding toy_world_def toy_add_def world.select_convs
  by (intro core_reachable_ok core_added core_start [of "replicate 32 2" "''edge''"]) (simp_all add: core_new_def)

lemma toy_members:
  "core_member toy_rpc_lib (w_core toy_world) ''home'' 7" "core_member toy_rpc_lib (w_core toy_world) ''home'' 9"
  "core_member toy_rpc_lib (w_core toy_world) ''lab'' 8"
  by code_simp+

lemma toy_conns [simp]:
  "w_conns toy_world 0 = toy_client 7 ''home''" "w_conns toy_world (Suc 0) = toy_client 9 ''home''"
  "w_conns toy_world 2 = toy_client 8 ''lab''"
  "w_conns toy_world 3 = createConnection 1000 (0, 6) open_socket Secure_Session.toy_pending"
  by (simp_all add: toy_world_def)

lemma toy_client_sel [simp]:
  "peerId (toy_client p name) = p" "networkName (toy_client p name) = name" "phase (toy_client p name) = Ready"
  "secure (toy_client p name) = Some (toy_peer p name)" "remotePublicKey (toy_client p name) = replicate 32 7"
  "socket (toy_client p name) = open_socket"
  by (simp_all add: toy_client_def createConnection_def)

lemma toy_phase: "phase_of c toy_world = (if c < 3 then Ready else if c = 3 then Msg1 else Closed)"
  by (auto simp: phase_of_def toy_world_def createConnection_def no_connection_def less_Suc_eq numeral_3_eq_3)

lemma toy_rooms: "rooms_get (w_rooms toy_world) n p =
    (if n = ''home'' then if p = 7 then Some 0 else if p = 9 then Some 1 else None
     else if n = ''lab'' \<and> p = 8 then Some 2 else None)"
  by (simp add: toy_world_def rooms_get_def)

lemma toy_world_ok: "world_ok toy_cx {} {} toy_world"
proof -
  have ready: "c = 0 \<or> c = 1 \<or> c = 2" if "phase_of c toy_world = Ready" for c
    using that by (auto simp: toy_phase split: if_splits)
  have "conn_ok toy_cx (w_conns toy_world c)" for c
  proof (cases "c < 4")
    case True
    then have "c = 0 \<or> c = 1 \<or> c = 2 \<or> c = 3" by auto
    then show ?thesis
      by (auto simp: conn_ok_def proved_def toy_peer_def configured_def sample_config_def sample_rooms_def
        Secure_Session.toy_pending_def SERVER_PEER_ID_def createConnection_def)
  qed (simp add: conn_ok_def toy_world_def no_connection_def)
  moreover have "registered_ok {} toy_world"
  proof -
    have "rooms_wf (w_rooms toy_world)" by (simp add: toy_world_def rooms_wf_def)
    moreover have "routeSyncKey (w_conns toy_world c) = (n, p) \<and> phase_of c toy_world = Ready"
      if "rooms_get (w_rooms toy_world) n p = Some c" for n p c
      using that by (auto simp: toy_rooms toy_phase routeSyncKey_def split: if_splits)
    moreover have "rooms_get (w_rooms toy_world) (networkName (w_conns toy_world c)) (peerId (w_conns toy_world c)) = Some c"
      if "phase_of c toy_world = Ready" for c
      using ready [OF that] by (auto simp: toy_rooms)
    ultimately show ?thesis unfolding registered_ok_def by blast
  qed
  moreover have "core_member toy_rpc_lib (w_core toy_world) (networkName (w_conns toy_world c)) (peerId (w_conns toy_world c))"
    if "phase_of c toy_world = Ready" for c
    using ready [OF that] toy_members by auto
  then have "core_members_ok toy_cx toy_world"
    using toy_core_ok by (simp add: core_members_ok_def SERVER_PEER_ID_def)
  moreover have "sync_ok toy_world" by (simp add: sync_ok_def toy_world_def)
  moreover have "w_connections toy_world = open_ids toy_world" "w_next toy_world = 4"
    by (simp_all add: open_ids_def toy_phase) (simp_all add: toy_world_def upt_rec numeral_eq_Suc)
  moreover have "heap_ok toy_world" by (simp add: heap_ok_def toy_phase) (simp add: toy_world_def)
  ultimately show ?thesis by (simp add: world_ok_def MAX_CONNECTIONS_def) (simp add: toy_world_def)
qed

subsection \<open>A run: two requests, and a handshake of the first client\<close>

text \<open>The secure session of peer 7 after message 3; the stages before it are in \<open>Secure_Session\<close>.\<close>

definition toy_sec3 :: "nat sec" where
  "toy_sec3 = (let s = snd (msg3_checked toy_lib 1000 toy_msg3 toy_sec2) in s\<lparr>sc_peer := (sc_peer s)\<lparr>authenticated := True\<rparr>\<rparr>)"

lemma toy_info: "parseHandshakeInfo (render (msg1_info 7 ''home'' ''aes-gcm'')) = Inr \<lparr>hi_peerId = 7, hi_networkName = ''home''\<rparr>"
proof -
  have "JSON_parse (render (msg1_info 7 ''home'' ''aes-gcm'')) = Some (msg1_info 7 ''home'' ''aes-gcm'')"
    by (rule JSON_parse_render) (simp add: msg1_info_def)
  then show ?thesis using readPeerId_json_u32 [of 7]
    by (simp add: parseHandshakeInfo_def parseObject_def msg1_info_def readString_def del: render.simps)
qed

lemma toy_checked: "fst (msg3_checked toy_lib 1000 toy_msg3 toy_sec2) = Inr (7, replicate 32 7)"
  by code_simp

lemma toy_named: "network_name (sc_peer (snd (msg3_checked toy_lib 1000 toy_msg3 toy_sec2))) = Some ''home''"
  by code_simp

lemma toy_finish:
  "finish_msg3 toy_lib 1000 toy_msg3 toy_sec2 = (Inr (render (auth_info toy_lib 7 ''home'' (replicate 32 7))), toy_sec3)"
  using toy_checked toy_named
  by (cases "msg3_checked toy_lib 1000 toy_msg3 toy_sec2")
     (simp add: finish_msg3_def mbind_def peer_mod_def mmod_def mtry_def toy_sec3_def Let_def toy_lib_def write_json_def
       del: render.simps)

lemma toy_auth: "parseAuthenticationInfo (render (auth_info toy_lib 7 ''home'' (replicate 32 7))) =
    Inr \<lparr>ai_peerId = 7, ai_networkName = ''home'', ai_remotePublicKey = replicate 32 7\<rparr>"
proof -
  have "JSON_parse (render (auth_info toy_lib 7 ''home'' (replicate 32 7))) = Some (auth_info toy_lib 7 ''home'' (replicate 32 7))"
    by (rule JSON_parse_render) (simp add: auth_info_def)
  then show ?thesis using readPeerId_json_u32 [of 7]
    by (simp add: parseAuthenticationInfo_def parseObject_def auth_info_def readString_def toy_lib_def decodePublicKey_def atob_encode del: render.simps)
qed


text \<open>The stages of the RPC core, up to the first route update.\<close>

definition toy_core0 :: "(unit, unit) rpc_core" where
  "toy_core0 = projr (core_new (replicate 32 2) ''edge'' 10000001)"

definition toy_core1 :: "(unit, unit) rpc_core" where
  "toy_core1 = toy_add ''home'' 7 toy_core0"

definition toy_sid :: u64 where "toy_sid = randomU64 0 5"
  
definition toy_core2 :: "(unit, unit) rpc_core" where
  "toy_core2 = snd (core_build_route_update toy_rpc_lib ''home'' 7 toy_sid False 1000 toy_core1)"

definition toy_clear :: bytes where
  "toy_clear = wrap_packet 10000001 7 RpcReq 0 [129]"

lemma toy_wrap: "createPacket SERVER_PEER_ID 7 RpcReq [129] = Inr toy_clear"
  by (simp add: createPacket_def build_packet_def toy_clear_def wrap_packet_def join_header_payload_def SERVER_PEER_ID_def)

lemma toy_added: "fst (core_add_peer toy_rpc_lib ''home'' 7 (replicate 32 7) toy_core0) = Inr ()"
  by code_simp

lemma toy_update: "fst (core_build_route_update toy_rpc_lib ''home'' 7 toy_sid False 1000 toy_core1) = Inr [129]"
  by code_simp

lemma toy_sealed: "isl (fst (encrypt_packet toy_lib 1000 toy_clear toy_sec3)) = False"
  by code_simp

lemma toy_sealed_length: "length (projr (fst (encrypt_packet toy_lib 1000 toy_clear toy_sec3))) \<le> 100"
  by code_simp

definition toy_request :: http_request where
  "toy_request = \<lparr>http_method = ''GET'', pathname = ''/'', upgrade_header = Some ''WebSocket''\<rparr>"

lemma toy_strings:
  "to_rust_str (b64_encode (replicate 32 1)) = b64_encode (replicate 32 1)"
  "to_rust_str (b64_encode (replicate 32 2)) = b64_encode (replicate 32 2)"
  "to_rust_str ''s3cret'' = ''s3cret''" "wants_websocket toy_request"
  by (code_simp, code_simp, code_simp, code_simp)

lemma toy_new_peer: "new_peer toy_lib 1000 (b64_encode (replicate 32 1)) (b64_encode (replicate 32 2)) SERVER_PEER_ID = Inr toy_peer0"
  by (simp add: SERVER_PEER_ID_def toy_peer_made)

definition toy_start :: "(nat, unit, unit) world" where
  "toy_start = \<lparr>w_conns = (\<lambda>_. no_connection), w_next = 0, w_connections = [], w_rooms = [], w_timer = False,
     w_core = toy_core0, w_sync = [], w_store = [], w_draws = 0\<rparr>"

definition toy_open :: "(nat, unit, unit) world" where
  "toy_open = snd (server_fetch toy_cx 1000 (0, 9) open_socket toy_request
     (snd (server_fetch toy_cx 1000 (0, 5) open_socket toy_request toy_start)))"

lemma toy_new: "server_new toy_lib toy_rpc_lib [] (sample_env sample_rooms) = Inr (toy_cx, toy_start)"
  by (simp add: toy_start_def server_new_def sample_env_config core_new_def sample_config_def SERVER_PEER_ID_def toy_cx_def
    toy_core0_def)

lemma toy_open_eq: "toy_open = toy_start\<lparr>
    w_conns := (\<lambda>_. no_connection)(0 := createConnection 1000 (0, 5) open_socket toy_peer0,
      1 := createConnection 1000 (0, 9) open_socket toy_peer0),
    w_next := 2, w_connections := [0, 1], w_timer := True\<rparr>"
proof -
  have "server_fetch toy_cx 1000 words open_socket toy_request w = (Upgraded (w_next w), scheduleMaintenance
      (w\<lparr>w_conns := (w_conns w)(w_next w := createConnection 1000 words open_socket toy_peer0), w_next := Suc (w_next w),
         w_connections := w_connections w @ [w_next w]\<rparr>))"
    if "length (w_connections w) < 10" for w words
    using that toy_strings toy_new_peer
    by (simp add: server_fetch_def MAX_CONNECTIONS_def sample_config_def Let_def) (simp add: toy_request_def)
  then show ?thesis by (simp add: toy_open_def toy_start_def scheduleMaintenance_def numeral_2_eq_2)
qed

end
