(* ===== verification/Example_Run.thy ===== *)
theory Example_Run
  imports Example_World
begin

text \<open>
  A run of the Durable Object from its constructor: two requests are accepted, then the first client
  completes the handshake, is registered and gets its first route update.  The successful branch of the
  two handshake handlers is stated in general (\<open>onMessage_greet\<close>, \<open>onMessage_admit\<close>); the run applies it.
\<close>

subsection \<open>Successful handshakes\<close>

text \<open>What is left of each handler once the secure session has accepted the message.\<close>

definition greet :: "('hs, 'x, 'y) server_ctx \<Rightarrow> nat \<Rightarrow> cid \<Rightarrow> handshake_info \<Rightarrow> string \<Rightarrow> (('hs, 'x, 'y) world, unit) op" where
  "greet cx now c info secret =
     mbind (mmod (conn_mod c (\<lambda>k. k\<lparr>peerId := hi_peerId info, networkName := hi_networkName info\<rparr>))) (\<lambda>_.
     mbind (on_secure c (build_msg2 (sx_lib cx) (of_nat now) (to_rust_str secret))) (\<lambda>msg2.
     mbind (on_conn c (sendConnection now msg2)) (\<lambda>_.
     set_phase c Msg3)))"

definition admit :: "('hs, 'x, 'y) server_ctx \<Rightarrow> nat \<Rightarrow> cid \<Rightarrow> authentication_info \<Rightarrow> (('hs, 'x, 'y) world, unit) op" where
  "admit cx now c auth =
     mbind (mmod (conn_mod c (\<lambda>k. k\<lparr>remotePublicKey := ai_remotePublicKey auth\<rparr>))) (\<lambda>_.
     mbind (registerConnection cx now c) (\<lambda>_.
     mbind (mmod (conn_mod c completeHandshake)) (\<lambda>_.
     broadcastRouteUpdate cx now (ai_networkName auth) None)))"

lemma mbind_step: "m s = (Inr a, s') \<Longrightarrow> mbind m f s = f a s'"
  by (simp add: mbind_def)

lemma onMessage_greet:
  assumes "phase_of c w = Msg1" and "parsePacket frame = Inr (h, p)" and "length frame \<le> maxFrameBytes (sx_config cx)"
    and "packet_type h = NoiseHandshakeMsg1" and r: "on_secure c (read_msg1 (sx_lib cx) frame) w = (Inr t, w1)"
    and i: "parseHandshakeInfo t = Inr info" and "m_get (cfg_rooms (sx_config cx)) (hi_networkName info) = Some secret"
    and "fst (greet cx now c info secret w1) = Inr ()"
  shows "onMessage cx now c (BinaryFrame frame) w = greet cx now c info secret w1"
proof -
  have info: "mlift (parseHandshakeInfo t) w1 = (Inr info, w1)" by (simp add: i)
  have "handleHandshakeMessage1 cx now c frame (packet_type h) w = greet cx now c info secret w1"
    unfolding handleHandshakeMessage1_def greet_def
    using assms(4,7) by (simp add: mbind_step [where m = "on_secure c (read_msg1 (sx_lib cx) frame)", OF r]
        mbind_step [where m = "mlift (parseHandshakeInfo t)", OF info])
  then have "handleMessage cx now c (BinaryFrame frame) w = greet cx now c info secret w1"
    using assms(1-3) by (simp add: handleMessage_def mbind_def mlift_def mget_def)
  with assms(8) show ?thesis
    by (cases "greet cx now c info secret w1") (simp add: onMessage_def mcatch_def)
qed

lemma onMessage_admit:
  assumes "phase_of c w = Msg3" and "parsePacket frame = Inr (h, p)" and "length frame \<le> maxFrameBytes (sx_config cx)"
    and "packet_type h = NoiseHandshakeMsg3" and r: "on_secure c (finish_msg3 (sx_lib cx) (of_nat now) frame) w = (Inr t, w1)"
    and i: "parseAuthenticationInfo t = Inr auth" and k: "ai_peerId auth = peerId (w_conns w1 c)"
      "ai_networkName auth = networkName (w_conns w1 c)" and "fst (admit cx now c auth w1) = Inr ()"
  shows "onMessage cx now c (BinaryFrame frame) w = admit cx now c auth w1"
proof -
  have auth: "mlift (parseAuthenticationInfo t) w1 = (Inr auth, w1)" by (simp add: i)
  have "handleHandshakeMessage3 cx now c frame (packet_type h) w = admit cx now c auth w1"
    unfolding handleHandshakeMessage3_def admit_def
    using assms(4) k by (simp add: mbind_step [where m = "on_secure c (finish_msg3 (sx_lib cx) (of_nat now) frame)", OF r]
        mbind_step [where m = "mlift (parseAuthenticationInfo t)", OF auth] mbind_mget)
  then have "handleMessage cx now c (BinaryFrame frame) w = admit cx now c auth w1"
    using assms(1-3) by (simp add: handleMessage_def mbind_def mlift_def mget_def)
  with assms(9) show ?thesis
    by (cases "admit cx now c auth w1") (simp add: onMessage_def mcatch_def)
qed

lemma sendConnection_ready:
  assumes "readyState (socket k) = WS_OPEN" "\<not> send_throws (socket k)" "int now - int (sendWindowStartedAt k) < 1000"
    and "sentBytesInWindow k + length p \<le> MAX_SEND_BYTES_PER_WINDOW" "sentFramesInWindow k < MAX_SEND_FRAMES_PER_WINDOW"
  shows "sendConnection now p k = (Inr (), k\<lparr>sentBytesInWindow := sentBytesInWindow k + length p,
    sentFramesInWindow := sentFramesInWindow k + 1, socket := (socket k)\<lparr>sent_frames := sent_frames (socket k) @ [p]\<rparr>\<rparr>)"
  using assms by (simp add: sendConnection_def op_defs on_socket_def socket_send_def SEND_WINDOW_MS_def)

subsection \<open>The run\<close>

definition toy_k1 :: "nat connection" where
  "toy_k1 = (createConnection 1000 (0, 5) open_socket toy_peer0)\<lparr>peerId := 7, networkName := ''home'',
     secure := Some (sc_peer toy_sec2), phase := Msg3, sentBytesInWindow := 48, sentFramesInWindow := 1,
     socket := open_socket\<lparr>sent_frames := [wrap_packet 10000001 7 14 0 (replicate 32 0)]\<rparr>\<rparr>"

definition toy_greeted :: "(nat, unit, unit) world" where
  "toy_greeted = toy_open\<lparr>w_conns := (w_conns toy_open)(0 := toy_k1), w_store := sc_store toy_sec2, w_draws := sc_draws toy_sec2\<rparr>"

lemma toy_greet: "snd (onMessage toy_cx 1000 0 (BinaryFrame toy_frame1) toy_open) = toy_greeted"
proof -
  have read: "on_secure 0 (read_msg1 (sx_lib toy_cx) toy_frame1) toy_open =
      (Inr (render (msg1_info 7 ''home'' ''aes-gcm'')), conn_mod 0 (\<lambda>k. k\<lparr>secure := Some (sc_peer toy_sec1)\<rparr>) toy_open)"
    using toy_read
    by (simp add: on_secure_def toy_open_eq createConnection_def toy_start_def conn_mod_def del: render.simps)
      (simp add: toy_sec1_def)
  have build: "build_msg2 toy_lib 1000 ''s3cret'' toy_sec1 = (Inr (wrap_packet 10000001 7 14 0 (replicate 32 0)), toy_sec2)"
    using toy_built by (cases "build_msg2 toy_lib 1000 ''s3cret'' toy_sec1") (simp add: toy_sec2_def)
  have len: "length (wrap_packet 10000001 7 14 0 (replicate 32 0)) = 48" by code_simp
  have g: "greet toy_cx 1000 0 \<lparr>hi_peerId = 7, hi_networkName = ''home''\<rparr> ''s3cret''
      (conn_mod 0 (\<lambda>k. k\<lparr>secure := Some (sc_peer toy_sec1)\<rparr>) toy_open) = (Inr (), toy_greeted)"
  proof -
    have s1: "\<lparr>sc_peer = sc_peer toy_sec1, sc_store = [], sc_draws = 0\<rparr> = toy_sec1" by (simp add: toy_sec1_def)
    show ?thesis
      unfolding greet_def mbind_mmod
      apply (simp add: mbind_def on_secure_def conn_mod_def toy_open_eq createConnection_def toy_start_def s1 build toy_strings on_conn_def
        sendConnection_ready open_socket_def WS_OPEN_def MAX_SEND_BYTES_PER_WINDOW_def MAX_SEND_FRAMES_PER_WINDOW_def len set_phase_def mmod_def)
      apply (simp add: toy_greeted_def toy_open_eq toy_start_def toy_k1_def createConnection_def open_socket_def)
      done
  qed
  show ?thesis
    using onMessage_greet [OF _ toy_frames(2) _ _ read toy_info, of "''s3cret''" 1000] g
    by (simp add: toy_open_eq phase_of_def createConnection_def toy_frames NoiseHandshakeMsg1_def sample_config_def sample_rooms_def)
qed

definition toy_sec4 :: "nat sec" where
  "toy_sec4 = snd (encrypt_packet toy_lib 1000 toy_clear toy_sec3)"

definition toy_sent :: bytes where
  "toy_sent = projr (fst (encrypt_packet toy_lib 1000 toy_clear toy_sec3))"

definition toy_k2 :: "nat connection" where
  "toy_k2 = toy_k1\<lparr>secure := Some (sc_peer toy_sec3), remotePublicKey := replicate 32 7, handshakeTimer := False, phase := Ready\<rparr>"

definition toy_k3 :: "nat connection" where
  "toy_k3 = toy_k2\<lparr>secure := Some (sc_peer toy_sec4), sentBytesInWindow := 48 + length toy_sent, sentFramesInWindow := 2,
     socket := open_socket\<lparr>sent_frames := [wrap_packet 10000001 7 14 0 (replicate 32 0), toy_sent]\<rparr>\<rparr>"

definition toy_ready_world :: "(nat, unit, unit) world" where
  "toy_ready_world = toy_greeted\<lparr>w_conns := (w_conns toy_greeted)(0 := toy_k2), w_store := sc_store toy_sec3,
     w_draws := sc_draws toy_sec3, w_rooms := [(''home'', [(7, 0)])], w_core := toy_core1\<rparr>"

definition toy_joined :: "(nat, unit, unit) world" where
  "toy_joined = toy_ready_world\<lparr>w_conns := (w_conns toy_greeted)(0 := toy_k3), w_store := sc_store toy_sec4,
     w_draws := sc_draws toy_sec4, w_core := toy_core2,
     w_sync := [((''home'', 7), \<lparr>ss_peer = 0, inFlight = True, dirty = False, forceFull = False, sentAt = 1000, lastCompletedAt = 0\<rparr>)]\<rparr>"

lemma toy_encrypt: "encrypt_packet toy_lib 1000 toy_clear toy_sec3 = (Inr toy_sent, toy_sec4)"
  using toy_sealed by (cases "encrypt_packet toy_lib 1000 toy_clear toy_sec3"; cases "fst (encrypt_packet toy_lib 1000 toy_clear toy_sec3)")
    (simp_all add: toy_sent_def toy_sec4_def)

lemma toy_build: "core_build_route_update toy_rpc_lib ''home'' 7 (randomU64 0 5) False 1000 toy_core1 = (Inr [129], toy_core2)"
  using toy_update by (cases "core_build_route_update toy_rpc_lib ''home'' 7 toy_sid False 1000 toy_core1") (simp add: toy_core2_def toy_sid_def)

lemma toy_sid_eq: "serverSessionId toy_k2 = randomU64 0 5"
  by (simp add: toy_k2_def toy_k1_def createConnection_def)

lemma toy_sendRouteUpdate: "sendRouteUpdate toy_cx 1000 0 False toy_ready_world = (Inr (), toy_joined)"
proof -
  have rdy: "toy_ready_world = toy_start\<lparr>w_conns := (w_conns toy_open)(0 := toy_k2), w_next := 2, w_connections := [0, 1], w_timer := True,
     w_store := sc_store toy_sec3, w_draws := sc_draws toy_sec3, w_rooms := [(''home'', [(7, 0)])], w_core := toy_core1\<rparr>"
    by (simp add: toy_ready_world_def toy_greeted_def toy_open_eq toy_start_def)
  have k2: "networkName toy_k2 = ''home''" "peerId toy_k2 = 7" "secure toy_k2 = Some (sc_peer toy_sec3)"
    "sentBytesInWindow toy_k2 = 48" "sentFramesInWindow toy_k2 = 1" "sendWindowStartedAt toy_k2 = 1000"
    "socket toy_k2 = open_socket\<lparr>sent_frames := [wrap_packet 10000001 7 14 0 (replicate 32 0)]\<rparr>"
    by (simp_all add: toy_k2_def toy_k1_def createConnection_def)
  have s3: "\<lparr>sc_peer = sc_peer toy_sec3, sc_store = sc_store toy_sec3, sc_draws = sc_draws toy_sec3\<rparr> = toy_sec3" by simp
  have len: "length toy_sent \<le> 100" using toy_sealed_length by (simp add: toy_sent_def)
  have "sendConnection 1000 toy_sent (toy_k2\<lparr>secure := Some (sc_peer toy_sec4)\<rparr>) = (Inr (), toy_k3)"
    by (subst sendConnection_ready)
       (use len in \<open>simp_all add: k2 open_socket_def WS_OPEN_def MAX_SEND_BYTES_PER_WINDOW_def MAX_SEND_FRAMES_PER_WINDOW_def\<close>,
        simp add: toy_k3_def toy_k2_def toy_k1_def open_socket_def createConnection_def)
  then show ?thesis
    apply (simp add: sendRouteUpdate_def mbind_mget mbind_mmod rdy toy_start_def routeSyncKey_def k2 sync_mod_def new_sync_state_def
      flushRouteUpdate_def Let_def on_core_def toy_sid_eq toy_build mbind_def mcatch_def mget_def mmod_def sendControl_def toy_wrap mlift_def
      on_secure_def s3 toy_encrypt on_conn_def conn_mod_def)
    apply (simp add: toy_joined_def rdy toy_start_def toy_greeted_def)
    done
qed

lemma toy_admit: "snd (onMessage toy_cx 1000 0 (BinaryFrame toy_msg3) toy_greeted) = toy_joined"
proof -
  obtain h p where h: "parsePacket toy_msg3 = Inr (h, p)" "packet_type h = 15"
    using toy_frames(3) by (cases "parsePacket toy_msg3") auto
  let ?w = "toy_greeted\<lparr>w_conns := (w_conns toy_greeted)(0 := toy_k1\<lparr>secure := Some (sc_peer toy_sec3)\<rparr>), w_store := sc_store toy_sec3,
     w_draws := sc_draws toy_sec3\<rparr>"
  have s2: "\<lparr>sc_peer = sc_peer toy_sec2, sc_store = sc_store toy_sec2, sc_draws = sc_draws toy_sec2\<rparr> = toy_sec2" by simp
  have fin: "on_secure 0 (finish_msg3 (sx_lib toy_cx) (of_nat 1000) toy_msg3) toy_greeted =
      (Inr (render (auth_info toy_lib 7 ''home'' (replicate 32 7))), ?w)"
    by (simp add: on_secure_def toy_greeted_def toy_k1_def conn_mod_def s2 toy_finish del: render.simps)
  have add: "core_add_peer toy_rpc_lib ''home'' 7 (replicate 32 7) toy_core0 = (Inr (), toy_core1)"
    using toy_added by (cases "core_add_peer toy_rpc_lib ''home'' 7 (replicate 32 7) toy_core0") (simp add: toy_core1_def toy_add_def)
  have a: "admit toy_cx 1000 0 \<lparr>ai_peerId = 7, ai_networkName = ''home'', ai_remotePublicKey = replicate 32 7\<rparr> ?w = (Inr (), toy_joined)"
  proof -
    define w1 where "w1 = conn_mod 0 (\<lambda>k. k\<lparr>remotePublicKey := replicate 32 7\<rparr>) ?w"
    have k1: "networkName (w_conns w1 0) = ''home''" "peerId (w_conns w1 0) = 7" "remotePublicKey (w_conns w1 0) = replicate 32 7"
      "w_rooms w1 = []" "w_core w1 = toy_core0" "w_sync w1 = []"
      by (simp_all add: w1_def conn_mod_def toy_k1_def toy_greeted_def toy_open_eq toy_start_def)
    have "rooms_set ''home'' 7 0 [] = (None, [(''home'', [(7, 0)])])" by (simp add: rooms_set_def)
    then have "registerConnection toy_cx 1000 0 w1 = (Inr (), w1\<lparr>w_rooms := [(''home'', [(7, 0)])], w_core := toy_core1, w_sync := []\<rparr>)"
      by (simp add: registerConnection_def k1 addPeer_def on_core_def add mbind_def mget_def mrun_def mret_def mmod_def routeSyncKey_def)
    moreover have "conn_mod 0 completeHandshake (w1\<lparr>w_rooms := [(''home'', [(7, 0)])], w_core := toy_core1, w_sync := []\<rparr>) = toy_ready_world"
      by (simp add: w1_def conn_mod_def completeHandshake_def toy_ready_world_def toy_k2_def toy_k1_def toy_greeted_def toy_open_eq toy_start_def)
    moreover have "broadcastRouteUpdate toy_cx 1000 ''home'' None toy_ready_world = (Inr (), toy_joined)"
    proof -
      have "w_rooms toy_ready_world = [(''home'', [(7, 0)])]" "phase (w_conns toy_ready_world 0) = Ready"
        by (simp_all add: toy_ready_world_def toy_k2_def)
      then show ?thesis
        using toy_sendRouteUpdate
        by (simp add: broadcastRouteUpdate_def broadcast_with_def mget_def rooms_peers_def mbind_def mcatch_def mret_def)
    qed
    ultimately show ?thesis
      unfolding admit_def mbind_mmod handshake_info.select_convs by (simp add: w1_def [symmetric] mbind_step [where m = "registerConnection toy_cx 1000 0"] mbind_mmod)
  qed
  show ?thesis
    using onMessage_admit [OF _ h(1) _ _ fin toy_auth] a h(2) toy_frames(5)
    by (simp add: toy_greeted_def phase_of_def toy_k1_def NoiseHandshakeMsg3_def sample_config_def)
qed

lemma toy_greeted_reachable: "server_reachable toy_cx toy_greeted"
proof -
  have "server_reachable toy_cx toy_open"
    unfolding toy_open_def by (intro requested started [OF toy_new])
  then show ?thesis
    unfolding toy_greet [symmetric] by (rule received) (simp add: toy_open_eq)
qed

lemma toy_joined_reachable: "server_reachable toy_cx toy_joined"
  unfolding toy_admit [symmetric]
  by (rule received [OF toy_greeted_reachable]) (simp add: toy_greeted_def toy_open_eq)

end
