(* ===== verification/Progress.thy ===== *)
theory Progress
  imports Isolation Example_Run
begin

text \<open>
  Progress of the handshake in \<open>server.ts\<close>: after every message a connection has gone one phase further or
  is closed; a message that fails, at whichever step, closes it.  The phases are a linear order, and
  \<open>past p c\<close>, that \<open>c\<close> has come to \<open>p\<close> at least, is kept by all operations but those of \<open>c\<close>'s own handshake.
\<close>

subsection \<open>The order of the phases\<close>

primrec phase_rank :: "connection_phase \<Rightarrow> nat" where
  "phase_rank Msg1 = 0"
| "phase_rank Msg3 = 1"
| "phase_rank Ready = 2"
| "phase_rank Closed = 3"

lemma phase_rank_eq: "phase_rank p = phase_rank q \<Longrightarrow> p = q"
  by (cases p; cases q) simp_all

instantiation connection_phase :: linorder
begin

definition less_eq_connection_phase :: "connection_phase \<Rightarrow> connection_phase \<Rightarrow> bool" where
  "less_eq_connection_phase p q \<longleftrightarrow> phase_rank p \<le> phase_rank q"

definition less_connection_phase :: "connection_phase \<Rightarrow> connection_phase \<Rightarrow> bool" where
  "less_connection_phase p q \<longleftrightarrow> phase_rank p < phase_rank q"

instance
  by standard (auto simp: less_eq_connection_phase_def less_connection_phase_def intro: phase_rank_eq)

end

lemma phase_le_iff: "p \<le> q \<longleftrightarrow> phase_rank p \<le> phase_rank q"
  by (simp add: less_eq_connection_phase_def)

lemma Closed_greatest [simp]: "p \<le> Closed"
  by (cases p) (simp_all add: phase_le_iff)

lemma Ready_le: "Ready \<le> p \<longleftrightarrow> p = Ready \<or> p = Closed"
  by (cases p) (simp_all add: phase_le_iff)

subsection \<open>Nobody falls back\<close>

definition past :: "connection_phase \<Rightarrow> cid \<Rightarrow> ('hs, 'x, 'y) world \<Rightarrow> bool" where
  "past p c w \<longleftrightarrow> p \<le> phase_of c w"

interpretation past: closing_invariant cx "past p c" UNIV UNIV for cx p c
  by unfold_locales (auto simp: past_def phase_of_def conn_mod_def identity_def depart_def dispose_def Let_def
    disposeConnection_def removePeer_def split: prod.splits option.splits)

lemma past_close [pres]: "keeps (past p c) (close_conn cx now d code reason)"
  by (rule keepsI, rule close_keeps [OF past.closing_invariant_axioms]) (auto simp: past_def phase_of_depart)

lemma past_broadcast [pres]: "keeps (past p c) (broadcastRouteUpdate cx now name exclude)"
  by (rule keeps_broadcastRouteUpdate [OF past.closing_invariant_axioms]) simp

lemma past_forward: "keeps (past p c) (forwardPacket cx now d frame to_peer)"
  unfolding forwardPacket_def by (intro pres past.keeps_send UNIV_I)

lemma past_ready_packet:
  "leads (\<lambda>w. past p c w \<and> phase_of d w = Ready) (handleReadyPacket cx now d frame header) (past p c)"
  unfolding handleReadyPacket_def
  by (intro leads_if leads_bind leads_case_prod leads_keeps' [OF past_forward] leads_keeps' [OF past_broadcast] pres UNIV_I
        server_invariant.keeps_decrypt [OF past.ready] server_invariant.keeps_handleRequest [OF past.ready]
        leads_keeps [OF server_invariant.keeps_send [OF past.ready UNIV_I]]
        leads_keeps [OF server_invariant.keeps_handleResponse [OF past.ready UNIV_I]]
        leads_keeps [OF keeps_ret] leads_keeps [OF keeps_raise]) simp_all

lemma past_mod [pres]: "d \<noteq> c \<Longrightarrow> keeps (past p c) (mmod (conn_mod d f))"
  by (simp add: keeps_def mmod_def past_def phase_of_def conn_mod_def)

lemma past_on_secure [pres]: "d \<noteq> c \<Longrightarrow> keeps (past p c) (on_secure d m)"
  by (auto simp: keeps_def on_secure_def past_def phase_of_def conn_mod_def split: option.split prod.split)

lemma past_register [pres]: "keeps (past p c) (registerConnection cx now d)"
  unfolding registerConnection_def addPeer_def on_core_def
  by (intro pres keeps_run keeps_mod) (auto simp: keeps_def past_def phase_of_def split: prod.split)

lemma past_handshakes:
  assumes "d \<noteq> c"
  shows "keeps (past p c) (handleHandshakeMessage1 cx now d frame ptype)"
    "keeps (past p c) (handleHandshakeMessage3 cx now d frame ptype)"
  unfolding handleHandshakeMessage1_def handleHandshakeMessage3_def set_phase_def
  by (intro pres past.keeps_send UNIV_I assms)+

lemma others_do_not_fall_back:
  assumes "d \<noteq> c"
  shows "phase_of d w \<le> phase_of d (snd (onMessage cx now c data w))"
proof -
  have w: "past (phase_of d w) d w" by (simp add: past_def)
  have "past (phase_of d w) d (snd (handleMessage cx now c data w))"
  proof (cases rule: message_cases [where cx = cx and now = now and c = c and data = data and w = w])
    case (frame frame header payload)
    show ?thesis
      unfolding frame(4)
      using w keepsD [OF past_handshakes(1) w] keepsD [OF past_handshakes(2) w] assms
        leadsD [OF past_ready_packet [of "phase_of d w" d c cx now frame header], of w]
      by (cases "phase_of c w") (simp_all add: mret_def)
  qed (simp add: w)
  then show ?thesis
    using onMessage_ends [of "past (phase_of d w) d" cx now c data w, OF _ past_close] by (simp add: past_def)
qed

subsection \<open>The handshake\<close>

lemma heap_ok_on_secure: "heap_ok w \<Longrightarrow> heap_ok (snd (on_secure c m w))"
  by (auto simp: on_secure_def heap_ok_def phase_of_def conn_mod_def split: option.split prod.split)

lemma close_after_read:
  "heap_ok w \<Longrightarrow> on_secure c m w = (r, w0) \<Longrightarrow> close_conn cx now c code reason w0 = (Inr v, w1) \<Longrightarrow>
   phase_of c w1 = Closed"
  using heap_ok_on_secure [of w c m] close_closes [of w0 c cx now code reason] by simp

lemma handshake1_progress:
  assumes "heap_ok w" and "handleHandshakeMessage1 cx now c frame ptype w = (Inr u, w')"
  shows "phase_of c w' = Msg3 \<or> phase_of c w' = Closed"
  using assms(2)
  by (auto simp: handleHandshakeMessage1_def op_inv set_phase_def split: if_splits option.splits
      dest!: close_after_read [OF assms(1)]) (simp add: phase_of_def conn_mod_def)

lemma handshake3_progress:
  assumes "handleHandshakeMessage3 cx now c frame ptype w = (Inr u, w')"
  shows "past Ready c w'"
proof -
  obtain w1 name where "broadcastRouteUpdate cx now name None (conn_mod c completeHandshake w1) = (Inr u, w')"
    using assms by (auto simp: handleHandshakeMessage3_def op_inv split: if_splits)
  moreover have "past Ready c (conn_mod c completeHandshake w1)"
    by (simp add: past_def Ready_le phase_of_def conn_mod_def completeHandshake_def)
  ultimately show ?thesis
    using keepsD [OF past_broadcast, of Ready c "conn_mod c completeHandshake w1" cx now name None] by simp
qed

lemma message_progress:
  assumes "world_ok cx {} {} w" and "handleMessage cx now c data w = (Inr u, w')"
  shows "phase_of c w' = Closed \<or> (case phase_of c w of Msg1 \<Rightarrow> phase_of c w' = Msg3 | Closed \<Rightarrow> w' = w | _ \<Rightarrow> phase_of c w' = Ready)"
proof (cases rule: message_cases [where cx = cx and now = now and c = c and data = data and w = w])
  case (frame frame header payload)
  have heap: "heap_ok w" using assms(1) by (simp add: world_ok_def)
  show ?thesis
  proof (cases "phase_of c w")
    case Msg1
    with frame(4) assms(2) have "phase_of c w' = Msg3 \<or> phase_of c w' = Closed"
      by (intro handshake1_progress [OF heap]) simp
    with Msg1 show ?thesis by auto
  next
    case Msg3
    with frame(4) assms(2) have "past Ready c w'" by (auto intro: handshake3_progress)
    with Msg3 show ?thesis by (auto simp: past_def Ready_le)
  next
    case Ready
    with frame(4) assms(2) have "handleReadyPacket cx now c frame header w = (Inr u, w')" by simp
    with Ready leadsD [OF past_ready_packet [of Ready c c cx now frame header], of w] have "past Ready c w'"
      by (simp add: past_def Ready_le)
    with Ready show ?thesis by (auto simp: past_def Ready_le)
  qed (use frame(4) assms(2) in \<open>simp add: mret_def\<close>)
qed (use assms in simp)

lemma failure_closes:
  assumes "json_writer (to_json (sx_lib cx))" and "world_ok cx {} {} w" and "handleMessage cx now c data w = (Inl e, w')"
  shows "phase_of c (snd (failConnection cx now c w')) = Closed"
proof -
  have "world_ok cx {c} {c} w'" using message_ok [OF assms(1,2), of c now data] assms(3) by (simp add: outcome_ok_def)
  then show ?thesis unfolding failConnection_def by (intro close_closes) (simp add: world_ok_def)
qed

lemma own_progress:
  assumes "json_writer (to_json (sx_lib cx))" and "world_ok cx {} {} w"
  shows "let p = phase_of c (snd (onMessage cx now c data w)) in
    case phase_of c w of
      Msg1 \<Rightarrow> p \<in> {Msg3, Closed}
    | Msg3 \<Rightarrow> p \<in> {Ready, Closed}
    | Ready \<Rightarrow> p \<in> {Ready, Closed}
    | Closed \<Rightarrow> p = Closed"
proof (cases "handleMessage cx now c data w")
  case (Pair r w')
  show ?thesis
  proof (cases r)
    case (Inl e)
    with Pair failure_closes [OF assms, of now c data e w'] show ?thesis
      by (simp add: onMessage_def mcatch_def split: connection_phase.split)
  next
    case (Inr u)
    with Pair message_progress [OF assms(2), of now c data u w'] show ?thesis
      by (auto simp: onMessage_def mcatch_def split: connection_phase.splits)
  qed
qed

text \<open>C9: The handshake cannot stall: after every message a client sends, acceptable or not, its connection
  has gone one phase further (from the first message to the third, from the third to ready) or is
  closed; an accepted client stays ready until it is closed.  And no connection, whoever sent the
  message, ever falls back: in the order Msg1, Msg3, Ready, Closed its phase never decreases.\<close>

theorem handshake_makes_progress:
  assumes "json_writer (to_json (sx_lib cx))" and "world_ok cx {} {} w"
  shows "let w' = snd (onMessage cx now c data w) in
    (case phase_of c w of
       Msg1 \<Rightarrow> phase_of c w' \<in> {Msg3, Closed}
     | Msg3 \<Rightarrow> phase_of c w' \<in> {Ready, Closed}
     | Ready \<Rightarrow> phase_of c w' \<in> {Ready, Closed}
     | Closed \<Rightarrow> phase_of c w' = Closed)
    \<and> (\<forall>d. phase_of d w \<le> phase_of d w')"
proof -
  note own = own_progress [OF assms, where now = now and c = c and data = data, unfolded Let_def]
  have "phase_of c w \<le> phase_of c (snd (onMessage cx now c data w))"
    using own by (auto simp: phase_le_iff split: connection_phase.splits)
  then have "phase_of d w \<le> phase_of d (snd (onMessage cx now c data w))" for d
    using others_do_not_fall_back by (cases "d = c") auto
  with own show ?thesis by (simp add: Let_def)
qed

theorem handshake_makes_progress_witness:
  "phase_of 0 toy_greeted = Msg3
   \<and> phase_of 0 (snd (onMessage toy_cx 1000 0 (BinaryFrame toy_msg3) toy_greeted)) \<in> {Ready, Closed}
   \<and> phase_of 1 (snd (onMessage toy_cx 1000 1 (TextFrame ''hello'') toy_greeted)) \<in> {Msg3, Closed}"
proof -
  have ok: "world_ok toy_cx {} {} toy_greeted"
    by (rule reachable_ok [OF toy_greeted_reachable toy_json])
  have p: "phase_of 0 toy_greeted = Msg3" "phase_of 1 toy_greeted = Msg1"
    by (simp_all add: phase_of_def toy_greeted_def toy_open_eq toy_k1_def createConnection_def)
  note progress = handshake_makes_progress [OF toy_json ok, where now = 1000, unfolded Let_def]
  from progress [where c = 0 and data = "BinaryFrame toy_msg3"] progress [where c = 1 and data = "TextFrame ''hello''"] p
  show ?thesis by simp
qed

end
