(* ===== verification/Key_Tool.thy ===== *)
theory Key_Tool
  imports Server
begin

text \<open>
  \<open>cloudflare/scripts/generate-keypair.mjs\<close>, which prints the two keys of a new server.  The key pair
  comes from \<open>node:crypto\<close>; the model takes the two members \<open>d\<close> and \<open>x\<close> of the exported JWKs as arguments,
  absent members included.  What is printed is checked against what \<open>readServerConfig\<close> and the
  \<open>SecurePeer\<close> accept.
\<close>

subsection \<open>The program\<close>

text \<open>\<open>Buffer.from(value, "base64url")\<close>: both alphabets are understood, anything else is skipped.\<close>

definition b64url_value :: "char \<Rightarrow> nat option" where
  "b64url_value c = (case b64_value c of
     Some n \<Rightarrow> Some n
   | None \<Rightarrow> if c = CHR ''-'' then Some 62 else if c = CHR ''_'' then Some 63 else None)"

definition from_base64url :: "string \<Rightarrow> bytes" where
  "from_base64url value = b64_bytes (List.map_filter b64url_value value)"

definition fromBase64Url :: "string option \<Rightarrow> error + string" where
  "fromBase64Url value = (case value of
     None \<Rightarrow> Inl (Err ''Node did not export raw X25519 key material'')
   | Some v \<Rightarrow>
       (if v = [] then Inl (Err ''Node did not export raw X25519 key material'')
        else Inr (b64_encode (from_base64url v))))"

text \<open>The state is what has been printed.\<close>

definition print_line :: "string \<Rightarrow> (string list, unit) op" where
  "print_line s = mmod (\<lambda>out. out @ [s])"

definition generate_keypair :: "string option \<Rightarrow> string option \<Rightarrow> (string list, unit) op" where
  "generate_keypair d x =
     mbind (mlift (fromBase64Url d)) (\<lambda>private_key.
     mbind (print_line (''LOCAL_PRIVATE_KEY='' @ private_key)) (\<lambda>_.
     mbind (mlift (fromBase64Url x)) (\<lambda>public_key.
     print_line (''LOCAL_PUBLIC_KEY='' @ public_key))))"

subsection \<open>base64url\<close>

text \<open>How a JWK writes bytes: the URL alphabet, without padding (RFC 7517, RFC 4648).\<close>

definition b64url_char :: "nat \<Rightarrow> char" where
  "b64url_char n = (if n = 62 then CHR ''-'' else if n = 63 then CHR ''_'' else b64_char n)"

definition base64url :: "bytes \<Rightarrow> string" where
  "base64url bs = map b64url_char (sextets bs)"

lemma b64url_value_char [simp]: "n < 64 \<Longrightarrow> b64url_value (b64url_char n) = Some n"
proof -
  assume n: "n < 64"
  have "b64_value CHR ''-'' = None" "b64_value CHR ''_'' = None" by (simp_all add: b64_value_def char_code_def)
  moreover from this have "b64_char n \<noteq> CHR ''-''" "b64_char n \<noteq> CHR ''_''"
    using b64_value_char [OF n] by (metis option.distinct(1))+
  ultimately show ?thesis using n by (auto simp: b64url_value_def b64url_char_def)
qed

lemma from_base64url_inverse: "from_base64url (base64url bs) = bs"
proof -
  have "List.map_filter b64url_value (map b64url_char ns) = ns" if "\<forall>n \<in> set ns. n < 64" for ns
    using that by (induction ns) (simp_all add: map_filter_simps)
  then show ?thesis by (simp add: from_base64url_def base64url_def sextets_small sextets_bytes)
qed

lemma base64url_nonempty: "bs \<noteq> [] \<Longrightarrow> base64url bs \<noteq> []"
  by (cases bs rule: sextets.cases) (simp_all add: base64url_def)

lemma fromBase64Url_base64url: "bs \<noteq> [] \<Longrightarrow> fromBase64Url (Some (base64url bs)) = Inr (b64_encode bs)"
  by (simp add: fromBase64Url_def base64url_nonempty from_base64url_inverse)

lemma decodeBase64Key_encode: "length k = 32 \<Longrightarrow> decodeBase64Key (b64_encode k) name = Inr k"
  by (simp add: decodeBase64Key_def atob_encode)

text \<open>C40: The printed keys work: from the JWK export of any X25519 key pair that is not all zero, the script
  prints two lines; copied into the environment they pass the checks of the configuration with the
  right public key, and the \<open>SecurePeer\<close> constructor accepts them.  Of the base64 crate it is assumed that
  it decodes canonical padded base64, as the script writes it.\<close>

theorem generated_keys_are_accepted:
  assumes "length private_key = 32" and "x25519_public lib private_key = public_key" and "length public_key = 32"
    and "\<not> list_all (\<lambda>b. b = 0) private_key" and "\<not> list_all (\<lambda>b. b = 0) public_key"
    and "\<And>bs. base64_decode lib (b64_encode bs) = Some bs"
  shows "\<exists>priv64 pub64 peer.
      generate_keypair (Some (base64url private_key)) (Some (base64url public_key)) [] =
        (Inr (), [''LOCAL_PRIVATE_KEY='' @ priv64, ''LOCAL_PUBLIC_KEY='' @ pub64])
    \<and> read_keys (env\<lparr>LOCAL_PRIVATE_KEY := Some priv64, LOCAL_PUBLIC_KEY := Some pub64\<rparr>) = Inr (priv64, pub64, public_key)
    \<and> new_peer lib now_ms priv64 pub64 SERVER_PEER_ID = Inr peer
    \<and> local_private peer = private_key \<and> local_public peer = public_key"
proof -
  have ne: "private_key \<noteq> []" "public_key \<noteq> []" using assms(1,3) by auto
  then have "b64_encode private_key \<noteq> []" "b64_encode public_key \<noteq> []" by (simp_all add: b64.enc_nonempty)
  moreover have "generate_keypair (Some (base64url private_key)) (Some (base64url public_key)) [] =
      (Inr (), [''LOCAL_PRIVATE_KEY='' @ b64_encode private_key, ''LOCAL_PUBLIC_KEY='' @ b64_encode public_key])"
    using ne by (simp add: generate_keypair_def print_line_def op_defs fromBase64Url_base64url)
  ultimately show ?thesis
    using assms by (intro exI [of _ "b64_encode private_key"] exI [of _ "b64_encode public_key"])
      (simp add: read_keys_def Let_def decodeBase64Key_encode new_peer_def decode_key_def atob_encode SERVER_PEER_ID_def)
qed

theorem generated_keys_are_accepted_witness:
  "\<exists>priv64 pub64. snd (generate_keypair (Some (base64url (replicate 32 1))) (Some (base64url (replicate 32 2))) []) =
      [''LOCAL_PRIVATE_KEY='' @ priv64, ''LOCAL_PUBLIC_KEY='' @ pub64]
    \<and> read_keys ((sample_env [])\<lparr>LOCAL_PRIVATE_KEY := Some priv64, LOCAL_PUBLIC_KEY := Some pub64\<rparr>) =
        Inr (priv64, pub64, replicate 32 2)"
proof -
  have "x25519_public toy_lib (replicate 32 1) = replicate 32 2" by (simp add: toy_lib_def)
  from generated_keys_are_accepted [OF _ this, of "sample_env []" 0] show ?thesis
    by (force simp: toy_lib_def atob_encode)
qed

end
