(* ===== verification/Build_Script.thy ===== *)
theory Build_Script
  imports Prelude
begin

text \<open>
  \<open>cloudflare/scripts/build-wasm.mjs\<close>, which compiles the WASM package and, on a build machine without
  Rust, installs the tool chain first.  The model has the script's control flow and its effects on the
  paths it works on: the installer, the temporary and the published package directory.

  What the world answers is a field of the parameter \<open>machine\<close>: the outcome of the \<open>k\<close>-th interaction, be it
  a spawned process, a download or a file operation, so that every \<open>await\<close> may fail.  A failing file
  operation leaves the files as they were.  Every spawned command is logged with what its program path
  held at that moment and with its outcome.  \<open>wasm-pack\<close> fills the directory it is given, whether it
  succeeds or not; what the other programs do elsewhere is not modelled.
\<close>

subsection \<open>The machine\<close>

datatype entry = FileEntry bytes | DirEntry "(string, bytes) jsmap"

record command =
  program :: string
  arguments :: "string list"
  environment :: "(string, string) jsmap option"

text \<open>A child process emits \<open>exit\<close>, with a code or (after a signal) none, or \<open>error\<close>, with the code of the error.\<close>

datatype outcome = Exited "int option" | Failed "string option"

record machine =
  platform :: string
  arch :: string
  process_env :: "(string, string) jsmap"
  home_directory :: string
  temporary_directory :: string
  process_id :: string
  path_delimiter :: string
  path_join :: "string list \<Rightarrow> string"
  package_root :: string
  spawned :: "nat \<Rightarrow> command \<Rightarrow> outcome"
  produced :: "nat \<Rightarrow> (string, bytes) jsmap"
  fetched :: "nat \<Rightarrow> error + (bool \<times> (error + bytes))"
  sha256_hex :: "bytes \<Rightarrow> string"
  file_error :: "nat \<Rightarrow> error option"

record build_state =
  interactions :: nat
  files :: "(string, entry) jsmap"
  commands :: "(command \<times> entry option \<times> outcome) list"

definition outDir :: "machine \<Rightarrow> string" where
  "outDir mc = path_join mc [package_root mc, ''src'', ''wasm'', ''pkg'']"

definition temporaryOutDir :: "machine \<Rightarrow> string" where
  "temporaryOutDir mc = path_join mc [package_root mc, ''.tmp'', ''wasm-pkg'']"

definition cargoExecutable :: "machine \<Rightarrow> string" where
  "cargoExecutable mc = (if platform mc = ''win32'' then ''cargo.exe'' else ''cargo'')"

definition rustupSha256 :: string where
  "rustupSha256 = ''4acc9acc76d5079515b46346a485974457b5a79893cfb01112423c89aeb5aa10''"

definition spawn :: "machine \<Rightarrow> command \<Rightarrow> (build_state, outcome) op" where
  "spawn mc c = mrun (\<lambda>s.
     let r = spawned mc (interactions s) c
     in (r, s\<lparr>interactions := Suc (interactions s), commands := commands s @ [(c, m_get (files s) (program c), r)]\<rparr>))"

definition run :: "machine \<Rightarrow> command \<Rightarrow> (build_state, int) op" where
  "run mc c = mbind (spawn mc c) (\<lambda>r. case r of
     Exited code \<Rightarrow> mret (case code of None \<Rightarrow> 1 | Some n \<Rightarrow> n)
   | Failed _ \<Rightarrow> mraise (Err ''spawn failed''))"

definition commandSucceeds :: "machine \<Rightarrow> command \<Rightarrow> (build_state, bool) op" where
  "commandSucceeds mc c = mbind (spawn mc c) (\<lambda>r. case r of
     Exited code \<Rightarrow> mret (code = Some 0)
   | Failed code \<Rightarrow> if code = Some ''ENOENT'' then mret False else mraise (Err ''spawn failed''))"

subsection \<open>Files\<close>

definition file_op :: "machine \<Rightarrow> ((string, entry) jsmap \<Rightarrow> (string, entry) jsmap) \<Rightarrow> (build_state, unit) op" where
  "file_op mc f = (\<lambda>s.
     case file_error mc (interactions s) of
       Some e \<Rightarrow> (Inl e, s\<lparr>interactions := Suc (interactions s)\<rparr>)
     | None \<Rightarrow> (Inr (), s\<lparr>interactions := Suc (interactions s), files := f (files s)\<rparr>))"

definition rm :: "machine \<Rightarrow> string \<Rightarrow> (build_state, unit) op" where
  "rm mc p = file_op mc (m_del p)"

text \<open>With \<open>recursive\<close>, a directory that exists already is no error.\<close>

definition mkdir :: "machine \<Rightarrow> string \<Rightarrow> (build_state, unit) op" where
  "mkdir mc p =
     mbind (mget (\<lambda>s. m_get (files s) p)) (\<lambda>x. case x of
       None \<Rightarrow> file_op mc (m_put p (DirEntry []))
     | Some (DirEntry _) \<Rightarrow> file_op mc id
     | Some (FileEntry _) \<Rightarrow> mraise (Err ''EEXIST''))"

definition writeFile :: "machine \<Rightarrow> string \<Rightarrow> bytes \<Rightarrow> (build_state, unit) op" where
  "writeFile mc p b = file_op mc (m_put p (FileEntry b))"

definition rename :: "machine \<Rightarrow> string \<Rightarrow> string \<Rightarrow> (build_state, unit) op" where
  "rename mc from to =
     mbind (mtry (\<lambda>s. ok_or (Err ''ENOENT'') (m_get (files s) from))) (\<lambda>x.
     file_op mc (\<lambda>fs. m_put to x (m_del from fs)))"

text \<open>A file in a directory; writing into what is not a directory fails.\<close>

definition write_into :: "machine \<Rightarrow> string \<Rightarrow> string \<Rightarrow> bytes \<Rightarrow> (build_state, unit) op" where
  "write_into mc p name b =
     mbind (mtry (\<lambda>s. case m_get (files s) p of Some (DirEntry d) \<Rightarrow> Inr d | _ \<Rightarrow> Inl (Err ''ENOENT''))) (\<lambda>d.
     file_op mc (m_put p (DirEntry (m_put name b d))))"

subsection \<open>The installer\<close>

definition fetch_installer :: "machine \<Rightarrow> (build_state, bool \<times> (error + bytes)) op" where
  "fetch_installer mc = (\<lambda>s. (fetched mc (interactions s), s\<lparr>interactions := Suc (interactions s)\<rparr>))"

definition download_once :: "machine \<Rightarrow> string \<Rightarrow> (build_state, unit) op" where
  "download_once mc destination =
     mbind (fetch_installer mc) (\<lambda>(response_ok, body).
     if \<not> response_ok then mraise (Err ''rustup download failed'')
     else
       mbind (mlift body) (\<lambda>bs.
       if sha256_hex mc bs \<noteq> rustupSha256 then mraise (Err ''rustup checksum mismatch'')
       else
         mbind (writeFile mc destination bs) (\<lambda>_.
         file_op mc id)))"

primrec download_attempts :: "machine \<Rightarrow> string \<Rightarrow> nat \<Rightarrow> (build_state, unit) op" where
  "download_attempts mc destination 0 = mraise (Err ''failed to download the verified rustup installer'')"
| "download_attempts mc destination (Suc n) =
     mcatch (download_once mc destination) (\<lambda>e. download_attempts mc destination n)"

definition downloadRustup :: "machine \<Rightarrow> string \<Rightarrow> (build_state, unit) op" where
  "downloadRustup mc destination = download_attempts mc destination 3"

definition installer_path :: "machine \<Rightarrow> string" where
  "installer_path mc = path_join mc [temporary_directory mc, ''rustup-init-'' @ process_id mc]"

definition cargo_home :: "machine \<Rightarrow> string" where
  "cargo_home mc = (case m_get (process_env mc) ''CARGO_HOME'' of
     Some p \<Rightarrow> p | None \<Rightarrow> path_join mc [home_directory mc, ''.cargo''])"

definition rustup_home :: "machine \<Rightarrow> string" where
  "rustup_home mc = (case m_get (process_env mc) ''RUSTUP_HOME'' of
     Some p \<Rightarrow> p | None \<Rightarrow> path_join mc [home_directory mc, ''.rustup''])"

definition build_environment :: "machine \<Rightarrow> (string, string) jsmap" where
  "build_environment mc =
     m_put ''PATH'' (path_join mc [cargo_home mc, ''bin''] @ path_delimiter mc @
         (case m_get (process_env mc) ''PATH'' of None \<Rightarrow> [] | Some p \<Rightarrow> p))
       (m_put ''RUSTUP_HOME'' (rustup_home mc) (m_put ''CARGO_HOME'' (cargo_home mc) (process_env mc)))"

definition rustup_executable :: "machine \<Rightarrow> string" where
  "rustup_executable mc = path_join mc [cargo_home mc, ''bin'', ''rustup'']"

definition install_rust :: "machine \<Rightarrow> (build_state, unit) op" where
  "install_rust mc =
     mbind (downloadRustup mc (installer_path mc)) (\<lambda>_.
     mbind (run mc \<lparr>program = installer_path mc,
         arguments = [''-y'', ''--profile'', ''minimal'', ''--default-toolchain'', ''none'', ''--no-modify-path''],
         environment = Some (build_environment mc)\<rparr>) (\<lambda>code.
     if code \<noteq> 0 then mraise (Err ''rustup-init failed'')
     else
       mbind (run mc \<lparr>program = rustup_executable mc, arguments = [''toolchain'', ''install''],
           environment = Some (build_environment mc)\<rparr>) (\<lambda>code.
       if code \<noteq> 0 then mraise (Err ''rustup toolchain install failed'') else mret ())))"

definition prepareBuildEnvironment :: "machine \<Rightarrow> (build_state, (string, string) jsmap) op" where
  "prepareBuildEnvironment mc =
     mbind (commandSucceeds mc \<lparr>program = cargoExecutable mc, arguments = [''--version''], environment = None\<rparr>) (\<lambda>present.
     if present then mret (process_env mc)
     else if m_get (process_env mc) ''WORKERS_CI'' \<noteq> Some ''1''
     then mraise (Err ''cargo was not found; install the Rust toolchain declared in rust-toolchain.toml'')
     else if platform mc \<noteq> ''linux'' \<or> arch mc \<noteq> ''x64''
     then mraise (Err ''automatic Rust installation is unsupported'')
     else
       mbind (mfinally (install_rust mc) (rm mc (installer_path mc))) (\<lambda>_.
       mret (build_environment mc)))"

subsection \<open>The build\<close>

definition wasm_executable :: "machine \<Rightarrow> string" where
  "wasm_executable mc = (if platform mc = ''win32'' then ''wasm-pack.cmd'' else ''wasm-pack'')"

definition wasm_pack :: "machine \<Rightarrow> (string, string) jsmap \<Rightarrow> (build_state, int) op" where
  "wasm_pack mc env =
     mbind (mmod (\<lambda>s. s\<lparr>files := m_put (temporaryOutDir mc) (DirEntry (produced mc (interactions s))) (files s)\<rparr>)) (\<lambda>_.
     run mc \<lparr>program = wasm_executable mc,
       arguments = [''build'', path_join mc [package_root mc, ''wasm''], ''--release'', ''--target'', ''web'',
         ''--out-dir'', temporaryOutDir mc, ''--out-name'', ''easytier_edge_wasm'', ''--locked''],
       environment = Some env\<rparr>)"

definition publish :: "machine \<Rightarrow> (build_state, unit) op" where
  "publish mc =
     mbind (rm mc (outDir mc)) (\<lambda>_.
     mbind (rename mc (temporaryOutDir mc) (outDir mc)) (\<lambda>_.
     write_into mc (outDir mc) ''.gitkeep'' []))"

definition build_wasm :: "machine \<Rightarrow> (build_state, unit) op" where
  "build_wasm mc =
     mbind (file_op mc id) (\<lambda>_.
     mbind (prepareBuildEnvironment mc) (\<lambda>env.
     mbind (rm mc (temporaryOutDir mc)) (\<lambda>_.
     mbind (mkdir mc (temporaryOutDir mc)) (\<lambda>_.
     mbind (mcatch (wasm_pack mc env) (\<lambda>e. mbind (rm mc (temporaryOutDir mc)) (\<lambda>_. mraise e))) (\<lambda>code.
     if code \<noteq> 0
     then mbind (rm mc (temporaryOutDir mc)) (\<lambda>_. mraise (Err ''wasm-pack failed''))
     else publish mc)))))"


subsection \<open>Reasoning about the script\<close>

text \<open>\<open>ends P m Q E\<close>: from a state of \<open>P\<close>, \<open>m\<close> returns a value in a state of \<open>Q\<close> or throws in a state of \<open>E\<close>.\<close>

definition ends :: "('s \<Rightarrow> bool) \<Rightarrow> ('s, 'a) op \<Rightarrow> ('a \<Rightarrow> 's \<Rightarrow> bool) \<Rightarrow> ('s \<Rightarrow> bool) \<Rightarrow> bool" where
  "ends P m Q E \<longleftrightarrow> (\<forall>s. P s \<longrightarrow> (case m s of (Inl e, s') \<Rightarrow> E s' | (Inr a, s') \<Rightarrow> Q a s'))"

lemma endsI: "(\<And>s. P s \<Longrightarrow> case m s of (Inl e, s') \<Rightarrow> E s' | (Inr a, s') \<Rightarrow> Q a s') \<Longrightarrow> ends P m Q E"
  by (simp add: ends_def)

lemma ends_Inr: "ends P m Q E \<Longrightarrow> P s \<Longrightarrow> m s = (Inr a, s') \<Longrightarrow> Q a s'"
  by (auto simp: ends_def dest!: spec [of _ s])

lemma ends_either: "ends P m (\<lambda>_. Q) Q \<Longrightarrow> P s \<Longrightarrow> Q (snd (m s))"
  by (cases "m s"; auto simp: ends_def split: sum.splits dest!: spec [of _ s])

lemma ends_weaken:
  "ends P m Q E \<Longrightarrow> (\<And>s. P' s \<Longrightarrow> P s) \<Longrightarrow> (\<And>a s. Q a s \<Longrightarrow> Q' a s) \<Longrightarrow> (\<And>s. E s \<Longrightarrow> E' s) \<Longrightarrow> ends P' m Q' E'"
  by (fastforce simp: ends_def split: prod.splits sum.splits)

named_theorems ending "rules that take a program apart"

lemma ends_bind [ending]: "ends P m R E \<Longrightarrow> (\<And>a. ends (R a) (f a) Q E) \<Longrightarrow> ends P (mbind m f) Q E"
  by (fastforce simp: ends_def mbind_def split: prod.splits sum.splits)

lemma ends_catch [ending]: "ends P m Q R \<Longrightarrow> (\<And>e. ends R (h e) Q E) \<Longrightarrow> ends P (mcatch m h) Q E"
  by (fastforce simp: ends_def mcatch_def split: prod.splits sum.splits)

lemma ends_finally:
  "ends P m Q R \<Longrightarrow> (\<And>a. ends (Q a) f (\<lambda>_. Q' a) E) \<Longrightarrow> ends R f (\<lambda>_. E) E \<Longrightarrow> ends P (mfinally m f) Q' E"
  by (fastforce simp: ends_def mfinally_def split: prod.splits sum.splits)

lemma ends_if [ending]: "(b \<Longrightarrow> ends P m Q E) \<Longrightarrow> (\<not> b \<Longrightarrow> ends P n Q E) \<Longrightarrow> ends P (if b then m else n) Q E"
  by simp

lemma ends_case_prod [ending]: "(\<And>a b. ends P (f a b) Q E) \<Longrightarrow> ends P (case p of (a, b) \<Rightarrow> f a b) Q E"
  by (cases p) simp

lemma ends_ret: "(\<And>s. P s \<Longrightarrow> Q a s) \<Longrightarrow> ends P (mret a) Q E"
  and ends_raise: "(\<And>s. P s \<Longrightarrow> E s) \<Longrightarrow> ends P (mraise e) Q E"
  and ends_mod: "(\<And>s. P s \<Longrightarrow> R () (f s)) \<Longrightarrow> ends P (mmod f) R E"
  by (simp_all add: ends_def op_defs)

lemma ends_keeps: "keeps I m \<Longrightarrow> ends I m (\<lambda>_. I) I"
  by (auto simp: ends_def keeps_def split: prod.split sum.split)

lemma keeps_ends: "ends I m (\<lambda>_. I) I \<Longrightarrow> keeps I m"
  by (simp add: keepsI ends_either)


subsection \<open>Only the verified installer runs\<close>

text \<open>Every run of the installer, so far, ran a file with the pinned checksum.\<close>

definition runs_verified :: "machine \<Rightarrow> build_state \<Rightarrow> bool" where
  "runs_verified mc s \<longleftrightarrow> list_all (\<lambda>(c, e, r). program c = installer_path mc \<longrightarrow>
     (\<exists>bs. e = Some (FileEntry bs) \<and> sha256_hex mc bs = rustupSha256)) (commands s)"

definition installer_verified :: "machine \<Rightarrow> build_state \<Rightarrow> bool" where
  "installer_verified mc s \<longleftrightarrow>
     (\<exists>bs. m_get (files s) (installer_path mc) = Some (FileEntry bs) \<and> sha256_hex mc bs = rustupSha256)"

lemma runs_file_op [pres]: "keeps (runs_verified mc) (file_op mc f)"
  by (simp add: keeps_def file_op_def runs_verified_def split: option.split)

lemma runs_files [pres]:
  "keeps (runs_verified mc) (rm mc p)" "keeps (runs_verified mc) (mkdir mc p)"
  "keeps (runs_verified mc) (writeFile mc p b)" "keeps (runs_verified mc) (rename mc p q)"
  "keeps (runs_verified mc) (write_into mc p n b)"
  unfolding rm_def mkdir_def writeFile_def rename_def write_into_def
  by (auto intro!: pres split: option.split entry.split)

lemma runs_spawn:
  "program c \<noteq> installer_path mc \<Longrightarrow> keeps (runs_verified mc) (spawn mc c)"
  by (simp add: spawn_def keeps_def mrun_def runs_verified_def Let_def)

lemma keeps_case_outcome [pres]:
  "(\<And>x. keeps I (f x)) \<Longrightarrow> (\<And>x. keeps I (g x)) \<Longrightarrow> keeps I (case r of Exited x \<Rightarrow> f x | Failed x \<Rightarrow> g x)"
  by (cases r) simp_all

lemma runs_run [pres]:
  assumes "program c \<noteq> installer_path mc"
  shows "keeps (runs_verified mc) (run mc c)" "keeps (runs_verified mc) (commandSucceeds mc c)"
  unfolding run_def commandSucceeds_def by (intro pres runs_spawn assms)+

lemma runs_installer:
  "program c = installer_path mc \<Longrightarrow>
   ends (\<lambda>s. runs_verified mc s \<and> installer_verified mc s) (run mc c) (\<lambda>_. runs_verified mc) (runs_verified mc)"
  by (auto simp: ends_def run_def spawn_def op_defs runs_verified_def installer_verified_def Let_def split: outcome.split)

lemma downloads_verified:
  "ends (runs_verified mc) (download_attempts mc (installer_path mc) n)
     (\<lambda>_ s. runs_verified mc s \<and> installer_verified mc s) (runs_verified mc)"
proof (induction n)
  case (Suc n)
  have "ends (runs_verified mc) (download_once mc (installer_path mc))
      (\<lambda>_ s. runs_verified mc s \<and> installer_verified mc s) (runs_verified mc)"
    by (auto simp: ends_def download_once_def fetch_installer_def writeFile_def file_op_def op_defs
          runs_verified_def installer_verified_def m_get_put split: option.splits sum.splits prod.splits)
  with Suc.IH show ?case by (simp add: ends_catch)
qed (simp add: ends_raise)

definition paths_distinct :: "machine \<Rightarrow> bool" where
  "paths_distinct mc \<longleftrightarrow>
     installer_path mc \<notin> {cargoExecutable mc, rustup_executable mc, wasm_executable mc} \<and>
     distinct [installer_path mc, temporaryOutDir mc, outDir mc]"

lemma runs_install:
  assumes "paths_distinct mc"
  shows "keeps (runs_verified mc) (install_rust mc)"
proof -
  have p: "rustup_executable mc \<noteq> installer_path mc" using assms by (auto simp: paths_distinct_def)
  show ?thesis
    unfolding install_rust_def downloadRustup_def
    by (rule keeps_ends, rule ends_bind [OF downloads_verified], rule ends_bind, rule runs_installer, simp,
        rule ends_keeps, intro pres) (simp_all add: p)
qed

lemma runs_build:
  assumes "paths_distinct mc"
  shows "keeps (runs_verified mc) (build_wasm mc)"
  unfolding build_wasm_def prepareBuildEnvironment_def wasm_pack_def publish_def
  by (intro pres runs_install keeps_mod) (use assms in \<open>auto simp: paths_distinct_def runs_verified_def\<close>)

text \<open>C37: On a build machine without Rust, the script never runs an installer that it did not check: whenever
  it starts the program at the installer's path, that file holds bytes with the pinned SHA-256, whatever
  the network answered and whichever file operations and commands failed before.
\<close>

theorem only_the_verified_installer_runs:
  assumes "paths_distinct mc" and "commands s = []"
    and "(c, e, r) \<in> set (commands (snd (build_wasm mc s)))" and "program c = installer_path mc"
  shows "\<exists>bs. e = Some (FileEntry bs) \<and> sha256_hex mc bs = rustupSha256"
  using keepsD [OF runs_build [OF assms(1)], of s] assms by (auto simp: runs_verified_def list_all_iff)


subsection \<open>What the build leaves behind\<close>

text \<open>What a path holds is changed by the operations on that path alone.\<close>

definition holds :: "string \<Rightarrow> entry option \<Rightarrow> build_state \<Rightarrow> bool" where
  "holds p x s \<longleftrightarrow> m_get (files s) p = x"

definition untouched :: "string \<Rightarrow> entry option \<Rightarrow> build_state \<Rightarrow> bool" where
  "untouched p x s \<longleftrightarrow> m_get (files s) p \<in> {None, x}"

lemma untouched_file_op [pres]:
  "(\<And>fs. m_get (f fs) p = m_get fs p) \<Longrightarrow> keeps (holds p x) (file_op mc f)"
  "(\<And>fs. m_get (f fs) p = m_get fs p) \<Longrightarrow> keeps (untouched p x) (file_op mc f)"
  by (simp_all add: keeps_def file_op_def holds_def untouched_def split: option.split)

lemma untouched_spawn [pres]:
  "keeps (holds p x) (spawn mc c)" "keeps (untouched p x) (spawn mc c)"
  by (simp_all add: keeps_def spawn_def mrun_def Let_def holds_def untouched_def)

lemma untouched_run [pres]:
  "keeps (holds p x) (run mc c)" "keeps (untouched p x) (run mc c)"
  "keeps (holds p x) (commandSucceeds mc c)" "keeps (untouched p x) (commandSucceeds mc c)"
  unfolding run_def commandSucceeds_def by (intro pres)+

lemma untouched_fetch [pres]: "keeps (holds p x) (fetch_installer mc)" "keeps (untouched p x) (fetch_installer mc)"
  by (simp_all add: keeps_def fetch_installer_def holds_def untouched_def)

lemma untouched_download [pres]:
  assumes "p \<noteq> q"
  shows "keeps (holds p x) (download_attempts mc q n)" "keeps (untouched p x) (download_attempts mc q n)"
  by (induction n) (use assms in \<open>auto intro!: pres simp: download_once_def writeFile_def m_get_put\<close>)

lemma untouched_prepare:
  assumes "p \<noteq> installer_path mc"
  shows "keeps (holds p x) (prepareBuildEnvironment mc)" "keeps (untouched p x) (prepareBuildEnvironment mc)"
  unfolding prepareBuildEnvironment_def install_rust_def downloadRustup_def rm_def
  by (intro pres; simp add: assms m_get_del)+

lemma untouched_other [pres]:
  assumes "p \<noteq> q"
  shows "keeps (holds p x) (rm mc q)" "keeps (untouched p x) (rm mc q)"
    "keeps (holds p x) (mkdir mc q)" "keeps (untouched p x) (mkdir mc q)"
    "keeps (untouched p x) (write_into mc q n b)"
    "p \<noteq> q' \<Longrightarrow> keeps (untouched p x) (rename mc q q')"
  unfolding rm_def mkdir_def write_into_def rename_def using assms
  by (auto intro!: pres simp: m_get_del m_get_put split: option.split entry.split)

text \<open>\<open>wasm-pack\<close> was the last command, and it ended with status 0.\<close>

definition packed :: "machine \<Rightarrow> build_state \<Rightarrow> bool" where
  "packed mc s \<longleftrightarrow> commands s \<noteq> [] \<and>
     (case last (commands s) of (c, e, r) \<Rightarrow> program c = wasm_executable mc \<and> r = Exited (Some 0))"

definition pack_result :: "machine \<Rightarrow> entry option \<Rightarrow> int \<Rightarrow> build_state \<Rightarrow> bool" where
  "pack_result mc x code s \<longleftrightarrow> holds (outDir mc) x s \<and>
     (code = 0 \<longrightarrow> packed mc s \<and> (\<exists>k. m_get (files s) (temporaryOutDir mc) = Some (DirEntry (produced mc k))))"

lemma wasm_pack_result:
  "temporaryOutDir mc \<noteq> outDir mc \<Longrightarrow>
   ends (holds (outDir mc) x) (wasm_pack mc env) (pack_result mc x) (holds (outDir mc) x)"
  by (auto simp: ends_def wasm_pack_def run_def spawn_def op_defs Let_def pack_result_def packed_def holds_def m_get_put
      split: outcome.split option.split)

definition published :: "machine \<Rightarrow> build_state \<Rightarrow> bool" where
  "published mc s \<longleftrightarrow> packed mc s \<and> m_get (files s) (temporaryOutDir mc) = None \<and>
     (\<exists>k. m_get (files s) (outDir mc) = Some (DirEntry (m_put ''.gitkeep'' [] (produced mc k))))"

lemma publish_result:
  "temporaryOutDir mc \<noteq> outDir mc \<Longrightarrow>
   ends (pack_result mc x 0) (publish mc) (\<lambda>_. published mc) (packed mc)"
  by (auto simp: ends_def publish_def rm_def rename_def write_into_def file_op_def op_defs pack_result_def packed_def
      published_def m_get_put m_get_del split: option.splits sum.splits prod.splits entry.splits)

lemma build_publishes:
  assumes "paths_distinct mc"
  shows "ends (holds (outDir mc) x) (build_wasm mc) (\<lambda>_. published mc) (\<lambda>s. holds (outDir mc) x s \<or> packed mc s)"
proof -
  let ?H = "holds (outDir mc) x" and ?E = "\<lambda>s. holds (outDir mc) x s \<or> packed mc s"
  have ne: "temporaryOutDir mc \<noteq> outDir mc" "outDir mc \<noteq> temporaryOutDir mc" "outDir mc \<noteq> installer_path mc"
    using assms by (auto simp: paths_distinct_def)
  have early: "ends ?H m (\<lambda>_. ?H) ?E" if "keeps ?H m" for m :: "(build_state, 'b) op"
    by (rule ends_weaken [OF ends_keeps [OF that]]) auto
  have drop: "ends ?H (mbind (rm mc (temporaryOutDir mc)) (\<lambda>_. mraise e)) Q ?E"
    for e and Q :: "'b \<Rightarrow> build_state \<Rightarrow> bool"
    by (intro ends_bind [OF early] untouched_other ne ends_raise) auto
  have pack: "ends ?H (mcatch (wasm_pack mc env) (\<lambda>e. mbind (rm mc (temporaryOutDir mc)) (\<lambda>_. mraise e)))
      (pack_result mc x) ?E" for env
    by (rule ends_catch [OF wasm_pack_result [OF ne(1)] drop])
  have rest: "ends (pack_result mc x code) (if code \<noteq> 0
      then mbind (rm mc (temporaryOutDir mc)) (\<lambda>_. mraise e) else publish mc) (\<lambda>_. published mc) ?E" for code e
    by (intro ends_if ends_weaken [OF drop] ends_weaken [OF publish_result [OF ne(1)]]) (auto simp: pack_result_def)
  show ?thesis
    unfolding build_wasm_def
    by (intro ends_bind [OF early] ends_bind [OF pack] rest untouched_file_op(1) untouched_prepare(1) untouched_other ne) auto
qed

subsection \<open>Cleaning up\<close>

lemma rm_removes:
  "(\<And>k. file_error mc k = None) \<Longrightarrow> ends P (rm mc p) (\<lambda>_. untouched p x) E"
  by (simp add: ends_def rm_def file_op_def untouched_def m_get_del)

lemma removes_and_raises:
  assumes "\<And>k. file_error mc k = None"
  shows "ends P (mbind (rm mc p) (\<lambda>_. mraise e)) (\<lambda>_. untouched p x) (untouched p x)"
  by (intro ends_bind [OF rm_removes [OF assms]] ends_raise)

lemma anything: "ends P m (\<lambda>_ _. True) (\<lambda>_. True)"
  by (auto simp: ends_def split: prod.split sum.split)

lemma installer_removed:
  assumes "paths_distinct mc" and "\<And>k. file_error mc k = None"
  shows "keeps (untouched (installer_path mc) x) (build_wasm mc)"
proof -
  have ne: "installer_path mc \<noteq> temporaryOutDir mc" "installer_path mc \<noteq> outDir mc"
    using assms(1) by (auto simp: paths_distinct_def)
  have fin: "keeps (untouched (installer_path mc) x) (mfinally (install_rust mc) (rm mc (installer_path mc)))"
    by (rule keeps_ends, rule ends_finally [OF anything]) (rule rm_removes [OF assms(2)])+
  show ?thesis
    unfolding build_wasm_def prepareBuildEnvironment_def wasm_pack_def publish_def
    by (intro pres fin keeps_mod) (use ne in \<open>auto simp: untouched_def m_get_put\<close>)
qed

lemma publish_removes:
  assumes "temporaryOutDir mc \<noteq> outDir mc" and "\<And>k. file_error mc k = None"
  shows "ends P (publish mc) (\<lambda>_. untouched (temporaryOutDir mc) x) (untouched (temporaryOutDir mc) x)"
  using assms
  by (auto simp: ends_def publish_def rm_def rename_def write_into_def file_op_def op_defs untouched_def
      m_get_put m_get_del ok_or_def split: option.splits sum.splits prod.splits entry.splits)

lemma temporary_removed:
  assumes "paths_distinct mc" and "\<And>k. file_error mc k = None"
  shows "keeps (untouched (temporaryOutDir mc) x) (build_wasm mc)"
proof -
  let ?U = "untouched (temporaryOutDir mc) x"
  have ne: "temporaryOutDir mc \<noteq> outDir mc" "temporaryOutDir mc \<noteq> installer_path mc"
    using assms(1) by (auto simp: paths_distinct_def)
  have made: "ends P (mkdir mc (temporaryOutDir mc)) (\<lambda>_ _. True) ?U" if "\<And>s. P s \<Longrightarrow> holds (temporaryOutDir mc) None s" for P
    using that by (auto simp: ends_def mkdir_def file_op_def op_defs holds_def assms(2))
  have removed: "ends ?U (rm mc (temporaryOutDir mc)) (\<lambda>_. holds (temporaryOutDir mc) None) ?U"
    by (simp add: ends_def rm_def file_op_def holds_def m_get_del assms(2))
  have pack: "ends P (mcatch (wasm_pack mc env) (\<lambda>e. mbind (rm mc (temporaryOutDir mc)) (\<lambda>_. mraise e)))
      (\<lambda>_ _. True) ?U" for P env
    by (rule ends_catch [OF anything]) (intro ends_bind [OF rm_removes [OF assms(2)]] ends_raise)
  have rest: "ends P (if code \<noteq> 0 then mbind (rm mc (temporaryOutDir mc)) (\<lambda>_. mraise e) else publish mc)
      (\<lambda>_. ?U) ?U" for P e and code :: int
    by (intro ends_if removes_and_raises publish_removes ne assms(2))
  have from_rm: "ends ?U (mbind (rm mc (temporaryOutDir mc)) (\<lambda>_. mbind (mkdir mc (temporaryOutDir mc)) (\<lambda>_.
      mbind (mcatch (wasm_pack mc env) (\<lambda>e. mbind (rm mc (temporaryOutDir mc)) (\<lambda>_. mraise e))) (\<lambda>code.
      if code \<noteq> 0 then mbind (rm mc (temporaryOutDir mc)) (\<lambda>_. mraise (Err ''wasm-pack failed''))
      else publish mc)))) (\<lambda>_. ?U) ?U" for env
    by (rule ends_bind [OF removed], rule ends_bind [OF made], assumption, rule ends_bind [OF pack], rule rest)
  show ?thesis
    unfolding build_wasm_def
    by (rule keeps_bind, rule untouched_file_op, simp, rule keeps_bind, rule untouched_prepare [OF ne(2)],
        rule keeps_ends, rule from_rm)
qed

text \<open>C38: The package directory is replaced only by a package that \<open>wasm-pack\<close> finished: a build that returns
  leaves the produced package there, with its \<open>.gitkeep\<close> and without the temporary directory, and a build
  that throws, at whichever step, has left the old package in place or fails after a successful
  \<open>wasm-pack\<close>.
\<close>

theorem package_replaced_only_after_success:
  assumes "paths_distinct mc"
  shows "case build_wasm mc s of
      (Inr _, s') \<Rightarrow> published mc s'
    | (Inl e, s') \<Rightarrow> m_get (files s') (outDir mc) = m_get (files s) (outDir mc) \<or> packed mc s'"
  using build_publishes [OF assms, of "m_get (files s) (outDir mc)"] by (auto simp: ends_def holds_def)


text \<open>C39: As long as the file system itself does not fail, the script tidies up after every outcome: whether
  the build returns or throws (no Rust, a failed download, a failed command), the installer and the
  temporary package directory are gone, or what they held before is untouched.
\<close>

theorem nothing_is_left_behind:
  assumes "paths_distinct mc" and "\<And>k. file_error mc k = None"
    and "p \<in> {installer_path mc, temporaryOutDir mc}"
  shows "m_get (files (snd (build_wasm mc s))) p \<in> {None, m_get (files s) p}"
  using keepsD [OF installer_removed [OF assms(1,2)], of "m_get (files s) p" s]
    keepsD [OF temporary_removed [OF assms(1,2)], of "m_get (files s) p" s] assms(3)
  by (auto simp: untouched_def)


subsection \<open>A build on a machine without Rust\<close>

text \<open>The first download is damaged, the second one is good; \<open>wasm-pack\<close> ends with the given status.\<close>

definition toy_machine :: "int \<Rightarrow> machine" where
  "toy_machine status = \<lparr>platform = ''linux'', arch = ''x64'', process_env = [(''WORKERS_CI'', ''1'')],
     home_directory = ''/home'', temporary_directory = ''/tmp'', process_id = ''7'', path_delimiter = '':'',
     path_join = concat \<circ> map (\<lambda>p. ''/'' @ p), package_root = ''/app'',
     spawned = (\<lambda>_ c. if program c = ''cargo'' then Failed (Some ''ENOENT'')
       else if program c = ''wasm-pack'' then Exited (Some status) else Exited (Some 0)),
     produced = (\<lambda>_. [(''easytier_edge_wasm.js'', [1])]),
     fetched = (\<lambda>k. Inr (True, Inr (if k = 2 then [9] else [7, 7]))),
     sha256_hex = (\<lambda>bs. if bs = [7, 7] then rustupSha256 else ''0''), file_error = (\<lambda>_. None)\<rparr>"

definition fresh_checkout :: build_state where
  "fresh_checkout = \<lparr>interactions = 0, files = [(outDir (toy_machine 0), DirEntry [(''.gitkeep'', [])])], commands = []\<rparr>"

lemma toy_distinct: "paths_distinct (toy_machine status)"
  by (simp add: paths_distinct_def toy_machine_def installer_path_def cargoExecutable_def rustup_executable_def
      wasm_executable_def temporaryOutDir_def outDir_def cargo_home_def)

lemma toy_commands:
  "map (\<lambda>(c, e, r). (program c, e, r)) (commands (snd (build_wasm (toy_machine 0) fresh_checkout))) =
     [(''cargo'', None, Failed (Some ''ENOENT'')),
      (installer_path (toy_machine 0), Some (FileEntry [7, 7]), Exited (Some 0)),
      (rustup_executable (toy_machine 0), None, Exited (Some 0)),
      (''wasm-pack'', None, Exited (Some 0))]"
  by code_simp

theorem only_the_verified_installer_runs_witness:
  "\<exists>c e r bs. (c, e, r) \<in> set (commands (snd (build_wasm (toy_machine 0) fresh_checkout))) \<and>
     program c = installer_path (toy_machine 0) \<and>
     e = Some (FileEntry bs) \<and> sha256_hex (toy_machine 0) bs = rustupSha256"
proof -
  have "(installer_path (toy_machine 0), Some (FileEntry [7, 7]), Exited (Some 0))
      \<in> set (map (\<lambda>(c, e, r). (program c, e, r)) (commands (snd (build_wasm (toy_machine 0) fresh_checkout))))"
    unfolding toy_commands by simp
  then obtain c e r where c: "(c, e, r) \<in> set (commands (snd (build_wasm (toy_machine 0) fresh_checkout)))"
      "program c = installer_path (toy_machine 0)"
    by auto
  have "commands fresh_checkout = []" by (simp add: fresh_checkout_def)
  from only_the_verified_installer_runs [OF toy_distinct this c] c show ?thesis by blast
qed

theorem package_replaced_only_after_success_witness:
  "published (toy_machine 0) (snd (build_wasm (toy_machine 0) fresh_checkout))"
proof -
  have "fst (build_wasm (toy_machine 0) fresh_checkout) = Inr ()" by code_simp
  with package_replaced_only_after_success [OF toy_distinct, of 0 fresh_checkout] show ?thesis
    by (auto split: prod.splits sum.splits)
qed

theorem nothing_is_left_behind_witness:
  "fst (build_wasm (toy_machine 5) fresh_checkout) = Inl (Err ''wasm-pack failed'') \<and>
     m_get (files (snd (build_wasm (toy_machine 5) fresh_checkout))) (temporaryOutDir (toy_machine 5)) = None"
proof -
  have "m_get (files fresh_checkout) (temporaryOutDir (toy_machine 5)) = None" by code_simp
  moreover have "file_error (toy_machine 5) k = None" for k by (simp add: toy_machine_def)
  moreover have "fst (build_wasm (toy_machine 5) fresh_checkout) = Inl (Err ''wasm-pack failed'')" by code_simp
  ultimately show ?thesis
    using nothing_is_left_behind [OF toy_distinct, of 5 "temporaryOutDir (toy_machine 5)" fresh_checkout] by auto
qed

end
