(* ===== verification/Spec2Isabelle.thy ===== *)
theory Spec2Isabelle
  imports Packet Traffic Rooms Config Messages Secure_Session Connection Peer_Center Route_State Rpc_Core
    Reassembly Server Example_Run Progress Key_Tool Build_Script
begin

text \<open>
  A verification development for an EasyTier relay that runs on Cloudflare Workers: the TypeScript of
  \<open>cloudflare/src\<close>, the Rust crate \<open>cloudflare/wasm/src\<close> compiled to WASM, and the two scripts of
  \<open>cloudflare/scripts\<close>.

  \<^bold>\<open>The program.\<close>  The Worker (\<open>index.ts\<close>) passes WebSocket requests to one Durable Object (\<open>server.ts\<close>).  For
  every socket the object keeps a \<open>Connection\<close> (\<open>runtime/connection.ts\<close>) in one of the phases Msg1, Msg3,
  Ready, Closed.  Two handshake messages, a Noise XX exchange in the \<open>SecurePeer\<close> of \<open>secure.rs\<close>, take it from
  Msg1 to Ready: message 1 names a network, message 3 proves its secret.  A ready connection is registered
  under its network and peer id (\<open>runtime/rooms.ts\<close>) and added to the RPC core (\<open>rpc.rs\<close>).  From then on a
  packet for another peer of the network is forwarded to that peer's socket, and a packet for the server
  is decrypted and given to the RPC core, which puts fragments together and calls the peer center
  (\<open>peer_center.rs\<close>) or the route service (\<open>route_state.rs\<close>).  \<open>core/rpc.ts\<close> decides when a client is sent a
  route update and waits for its answer.  A maintenance timer repeats what was not answered; whatever
  fails closes the connection it was done for.

  \<^bold>\<open>The theories, in the order of the code.\<close>

  \<^item> \<open>Prelude\<close>: words, byte order, \<open>Map\<close> as association lists, operations \<open>'s \<Rightarrow> (error + 'a) \<times> 's\<close> that may throw
    and keep what they had changed, and the rules \<open>pres\<close> for the predicates such operations keep.
  \<^item> \<open>Packet\<close> (\<open>packet.rs\<close>, \<open>core/packet.ts\<close>, \<open>core/constants.ts\<close>): the record \<open>packet_header\<close>; parse, build, forward, pong.
    Round trip, hop limit, the length check in 32 bits.
  \<^item> \<open>Replay_Window\<close> (\<open>ReplayWindow256\<close> of \<open>secure.rs\<close>): the bitmap with its two in-place shift loops.  It refines
    the set of accepted numbers (locale \<open>anti_replay\<close>).
  \<^item> \<open>Traffic\<close> (\<open>secure.rs\<close>: \<open>encrypt_payload\<close>, \<open>decrypt_payload\<close>, epochs, receive slots): encryption round trip,
    nonces never repeat, at most one receipt, what a forged payload and an idle direction do.
  \<^item> \<open>Secure_Session\<close> (\<open>secure.rs\<close>: \<open>SecurePeer\<close>, \<open>SESSION_STORE\<close>): the handshake, the session store, packets.  In
    the runs \<open>peer_run\<close> of the server's calls on one peer only a proof over the hash of the running handshake
    authenticates; what a \<open>Sync\<close> does to the stored session.
  \<^item> \<open>Js_Number\<close>, \<open>Json\<close>, \<open>Json_Write\<close>, \<open>Base64\<close>: the parts of JavaScript that decide what is accepted:
    \<open>Number\<close> with the rounding of decimal literals, \<open>JSON.parse\<close>, \<open>atob\<close>, each with its inverse (locales
    \<open>json_writer\<close> and \<open>base64_encoder\<close>).
  \<^item> \<open>Messages\<close>, \<open>Config\<close> (\<open>runtime/messages.ts\<close>, \<open>core/config.ts\<close>): reading the JSON of the crate and the
    environment.  Which inputs are accepted, and that accepted configurations are within their limits.
  \<^item> \<open>Rooms\<close>, \<open>Connection\<close> (\<open>runtime/rooms.ts\<close>, \<open>runtime/connection.ts\<close>): the registry refines a partial map
    (locale \<open>registry\<close>), the outbound limit is a fixed window (locale \<open>fixed_window\<close>, once for bytes and once for
    frames).
  \<^item> \<open>Peer_Center\<close>, \<open>Route_State\<close> (\<open>peer_center.rs\<close>, \<open>route_state.rs\<close>): the records of each network, the route
    updates and their caches.  A client speaks for itself only, caches change no answer, the two encodings
    of the topology agree, an acknowledged update is not sent again.
  \<^item> \<open>Rpc_Core\<close>, \<open>Reassembly\<close>, \<open>Members\<close> (\<open>rpc.rs\<close>): dispatch, fragments and their limits, outstanding route
    updates.  The limits hold in every reachable state; fragments in any order give the message;
    an answer counts once; only \<open>add_peer\<close> and \<open>remove_peer\<close> change who is a member.
  \<^item> \<open>Route_Sync\<close>, \<open>Server\<close> (\<open>core/rpc.ts\<close>, \<open>server.ts\<close>, \<open>index.ts\<close>): the record \<open>world\<close> is the Durable Object with the
    heap of its connections, the registry, the RPC core, the synchronisation states and the session store;
    one definition per handler.
  \<^item> \<open>Server_Frames\<close>, \<open>Closing\<close>, \<open>Server_Invariant\<close>, \<open>Registration\<close>, \<open>Server_Events\<close>: the invariant \<open>world_ok\<close> and why every
    event keeps it.  The locale \<open>server_invariant\<close> lists the elementary changes a predicate of the world has
    to survive to be kept by the route synchronisation; \<open>closing_invariant\<close> adds departures, so that
    \<open>close\<close> keeps it as well.  They are interpreted on each invariant used below.  \<open>Server_Events\<close> has the step
    relation \<open>server_reachable\<close>.
  \<^item> \<open>Isolation\<close>, \<open>Progress\<close>: what a message can change in other networks, what it can change before the sender is
    authenticated (its own connection and one stored session), and that the handshake cannot stall.
  \<^item> \<open>Example_World\<close>, \<open>Example_Run\<close>: a concrete world and a run from the constructor to a registered client.
  \<^item> \<open>Key_Tool\<close>, \<open>Build_Script\<close> (\<open>cloudflare/scripts\<close>): the key generator, whose output the configuration accepts,
    and the build, which runs a checked installer only and publishes finished packages only.

  This theory holds the properties of the server as a whole.

  \<^bold>\<open>Parameters.\<close>  Code outside the repository is an argument of the definitions that use it: the Noise library and
  the primitives in the record \<open>lib\<close>, the Protocol Buffers codecs, compression and random numbers in the records
  of \<open>route_lib\<close>, \<open>peer_center_lib\<close> and \<open>rpc_lib\<close>, the sockets' ready states and failures, the clock as an
  argument of each handler, the outcomes of processes and downloads in \<open>machine\<close>.  What a property needs of
  them (that opening inverts sealing, that \<open>serde_json\<close> writes what \<open>JSON.parse\<close> reads) is a hypothesis with an
  instance in its witness.

  \<^bold>\<open>Bounds and fuel.\<close>  \<open>close\<close> and \<open>broadcastRouteUpdate\<close> call each other; the model gives \<open>close_fuel\<close> the number of live
  connections, and \<open>closing_ends\<close> shows that the code's own equation holds then, since each level closes one
  more connection.  \<open>next_transaction_id\<close> draws at most 16 numbers and the download is tried at most three
  times, as in the code.  All other loops are structural.

  \<^bold>\<open>Not modelled.\<close>  \<open>wasm/index.ts\<close> and the crate root load and export code without deciding anything;
  \<open>build.rs\<close> and the messages it generates appear as records and codec parameters; console output, fixed
  response headers and the texts spliced into error messages are left out.  The configuration of vitest and
  wrangler, the unit tests, shell scripts and the deployment files are not part of the running program.
  The handlers run to completion one after the other, as they do in the Durable Object: none of them
  awaits anything.
\<close>

text \<open>C2: In every state the Durable Object can reach, its tables agree.  The connection list holds exactly the
  connections that are not closed, at most 2048, and the maintenance timer is armed only while there are
  some.  A connection is ready exactly when its secure session is authenticated; then it carries the
  authenticated peer id, network and 32-byte key, its network is configured, and the RPC core has it as
  a member.  The registry finds exactly the ready connections, each under its own network and id, and a
  synchronisation state belongs to the ready connection of its key.\<close>

theorem server_state_is_consistent:
  assumes "server_reachable cx w" and "json_writer (to_json (sx_lib cx))"
  shows "w_connections w = filter (\<lambda>c. phase_of c w \<noteq> Closed) [0..<w_next w]
    \<and> length (w_connections w) \<le> 2048 \<and> (w_timer w \<longrightarrow> w_connections w \<noteq> [])
    \<and> (\<forall>c. phase_of c w = Ready \<longrightarrow>
         (\<exists>p. secure (w_conns w c) = Some p \<and> authenticated p \<and> peer_id p = Some (peerId (w_conns w c))
            \<and> network_name p = Some (networkName (w_conns w c)))
       \<and> length (remotePublicKey (w_conns w c)) = 32
       \<and> m_get (cfg_rooms (sx_config cx)) (networkName (w_conns w c)) \<noteq> None
       \<and> core_member (sx_rpc cx) (w_core w) (networkName (w_conns w c)) (peerId (w_conns w c)))
    \<and> (\<forall>c p. phase_of c w \<noteq> Closed \<longrightarrow> secure (w_conns w c) = Some p \<longrightarrow> authenticated p = (phase_of c w = Ready))
    \<and> (\<forall>name pid c. findPeer name pid w = Some c \<longleftrightarrow>
         phase_of c w = Ready \<and> networkName (w_conns w c) = name \<and> peerId (w_conns w c) = pid)
    \<and> (\<forall>key st. m_get (w_sync w) key = Some st \<longrightarrow> findPeer (fst key) (snd key) w = Some (ss_peer st))"
proof (intro conjI allI impI)
  have ok: "world_ok cx {} {} w" using assms by (rule reachable_ok)
  then have reg: "registered_ok {} w" and conns: "conn_ok cx (w_conns w c)" and sync: "sync_ok w" for c
    by (simp_all add: world_ok_def)
  show "w_connections w = filter (\<lambda>c. phase_of c w \<noteq> Closed) [0..<w_next w]" "length (w_connections w) \<le> 2048"
    using ok by (simp_all add: world_ok_def open_ids_def MAX_CONNECTIONS_def)
  show "w_connections w \<noteq> []" if "w_timer w" using ok that by (simp add: world_ok_def)
  show found: "findPeer name pid w = Some c \<longleftrightarrow>
      phase_of c w = Ready \<and> networkName (w_conns w c) = name \<and> peerId (w_conns w c) = pid" for name pid c
    using registered_get [OF reg] registered_ready [OF reg] by (auto simp: findPeer_def)
  show "findPeer (fst key) (snd key) w = Some (ss_peer st)" if "m_get (w_sync w) key = Some st" for key st
    using sync_ok_get [OF sync that] by (auto simp: found routeSyncKey_def)
  show "authenticated p = (phase_of c w = Ready)" if "phase_of c w \<noteq> Closed" "secure (w_conns w c) = Some p" for c p
    using conns [of c] that by (auto simp: conn_ok_def phase_of_def proved_def)
  fix c assume c: "phase_of c w = Ready"
  then obtain p where p: "secure (w_conns w c) = Some p" "peer_id p = Some (peerId (w_conns w c))"
    "network_name p = Some (networkName (w_conns w c))" "authenticated p" "length (remotePublicKey (w_conns w c)) = 32"
    "configured cx (networkName (w_conns w c))"
    using conns [of c] by (auto simp: conn_ok_def phase_of_def proved_def split: option.splits)
  show "\<exists>p. secure (w_conns w c) = Some p \<and> authenticated p \<and> peer_id p = Some (peerId (w_conns w c))
      \<and> network_name p = Some (networkName (w_conns w c))" "length (remotePublicKey (w_conns w c)) = 32"
    "m_get (cfg_rooms (sx_config cx)) (networkName (w_conns w c)) \<noteq> None"
    using p by (auto simp: configured_def)
  show "core_member (sx_rpc cx) (w_core w) (networkName (w_conns w c)) (peerId (w_conns w c))"
    using ok c by (simp add: world_ok_def core_members_ok_def)
qed

theorem server_state_is_consistent_witness:
  "phase_of 0 toy_joined = Ready \<and> phase_of 1 toy_joined = Msg1
   \<and> findPeer ''home'' 7 toy_joined = Some 0 \<and> w_connections toy_joined = [0, 1]
   \<and> length (remotePublicKey (w_conns toy_joined 0)) = 32
   \<and> core_member toy_rpc_lib (w_core toy_joined) ''home'' 7"
proof -
  note facts = server_state_is_consistent [OF toy_joined_reachable toy_json]
  have k: "w_conns toy_joined 0 = toy_k3" "w_conns toy_joined 1 = createConnection 1000 (0, 9) open_socket toy_peer0"
    "w_next toy_joined = 2"
    by (simp_all add: toy_joined_def toy_ready_world_def toy_greeted_def toy_open_eq)
  then have p: "phase_of 0 toy_joined = Ready" "phase_of 1 toy_joined = Msg1"
    "networkName (w_conns toy_joined 0) = ''home''" "peerId (w_conns toy_joined 0) = 7"
    by (simp_all add: phase_of_def toy_k3_def toy_k2_def toy_k1_def createConnection_def)
  moreover from facts p have "findPeer ''home'' 7 toy_joined = Some 0" by blast
  moreover from facts p have "length (remotePublicKey (w_conns toy_joined 0)) = 32" by blast
  moreover from facts p have "core_member (sx_rpc toy_cx) (w_core toy_joined) (networkName (w_conns toy_joined 0)) (peerId (w_conns toy_joined 0))"
    by blast
  moreover from facts have "w_connections toy_joined = filter (\<lambda>c. phase_of c toy_joined \<noteq> Closed) [0..<2]"
    unfolding k(3) by blast
  ultimately show ?thesis by (simp add: upt_rec)
qed

text \<open>C1: Networks are isolated from each other: whatever message a client sends, in whatever phase, every other
  connection whose network is not the client's stays exactly as it was, its socket, session and
  counters included, and so do the registry and the synchronisation states of all other networks.\<close>

theorem networks_are_isolated:
  assumes "world_ok cx {} {} w"
  shows "let w' = snd (onMessage cx now c data w); n = networkName (w_conns w c) in
    (\<forall>d. d \<noteq> c \<longrightarrow> networkName (w_conns w d) \<noteq> n \<longrightarrow> w_conns w' d = w_conns w d)
    \<and> (\<forall>m p. m \<noteq> n \<longrightarrow> findPeer m p w' = findPeer m p w)
    \<and> (\<forall>m p. m \<noteq> n \<longrightarrow> m_get (w_sync w') (m, p) = m_get (w_sync w) (m, p))"
proof (cases "phase_of c w = Msg1")
  case True
  from only_message [OF assms(1) disjI1 [OF True], where now = now and data = data] show ?thesis
    by (simp add: only_def Let_def findPeer_def)
next
  case False
  let ?w = "snd (onMessage cx now c data w)" and ?n = "networkName (w_conns w c)"
  have apart: "apart ?n w ?w"
    by (rule apart_message [OF apart_start [OF assms] _ False]) simp
  then have "networkName (w_conns w d) \<noteq> ?n \<Longrightarrow> w_conns ?w d = w_conns w d"
    "m \<noteq> ?n \<Longrightarrow> findPeer m p ?w = findPeer m p w" for d m p
    unfolding apart_def findPeer_def by blast+
  moreover have "m_get (w_sync ?w) (m, p) = m_get (w_sync w) (m, p)" if "m \<noteq> ?n" for m p
    using apart that unfolding apart_def by (metis fst_conv)
  ultimately show ?thesis unfolding Let_def by blast
qed

theorem networks_are_isolated_witness:
  "w_conns (snd (onMessage toy_cx 1000 0 (TextFrame ''hello'') toy_world)) 2 = toy_client 8 ''lab''
   \<and> phase_of 2 (snd (onMessage toy_cx 1000 0 (TextFrame ''hello'') toy_world)) = Ready
   \<and> findPeer ''lab'' 8 (snd (onMessage toy_cx 1000 0 (TextFrame ''hello'') toy_world)) = Some 2"
proof -
  let ?w = "snd (onMessage toy_cx 1000 0 (TextFrame ''hello'') toy_world)"
  note facts = networks_are_isolated [OF toy_world_ok, where now = 1000 and c = 0 and data = "TextFrame ''hello''", unfolded Let_def]
  from facts have "w_conns ?w 2 = w_conns toy_world 2" by simp
  moreover from facts have "findPeer ''lab'' 8 ?w = findPeer ''lab'' 8 toy_world" by simp
  ultimately show ?thesis by (simp add: phase_of_def findPeer_def toy_rooms)
qed



text \<open>C4: A packet for another peer reaches that peer and nobody else.  It is looked up in the sender's own
  network; without such a peer nothing happens.  Otherwise the found connection is ready, registered
  under exactly that network and id, and is sent the frame with its forward counter raised, as one
  message; the sender and everybody else stay as they were.\<close>

theorem forwarding_reaches_the_addressee_only:
  assumes "world_ok cx {} {} w" and "phase_of c w = Ready"
    and "parsePacket frame = Inr (h, payload)" and "length frame \<le> maxFrameBytes (sx_config cx)"
    and "to_peer_id h \<noteq> SERVER_PEER_ID"
  shows "case findPeer (networkName (w_conns w c)) (to_peer_id h) w of
      None \<Rightarrow> onMessage cx now c (BinaryFrame frame) w = (Inr (), w)
    | Some t \<Rightarrow> phase_of t w = Ready \<and> routeSyncKey (w_conns w t) = (networkName (w_conns w c), to_peer_id h)
        \<and> (\<forall>forwarded k. incrementForwardCounter frame = Inr forwarded \<longrightarrow>
             sendConnection now forwarded (w_conns w t) = (Inr (), k) \<longrightarrow>
             onMessage cx now c (BinaryFrame frame) w = (Inr (), w\<lparr>w_conns := (w_conns w)(t := k)\<rparr>)
             \<and> sent_frames (socket k) = sent_frames (socket (w_conns w t)) @ [forwarded])"
proof -
  have reg: "registered_ok {} w" using assms(1) by (simp add: world_ok_def)
  have "handleMessage cx now c (BinaryFrame frame) w = forwardPacket cx now c frame (to_peer_id h) w"
    using assms(2-5) by (simp add: handleMessage_def mbind_def mlift_def mget_def handleReadyPacket_def)
  then have eq: "onMessage cx now c (BinaryFrame frame) w =
      mcatch (forwardPacket cx now c frame (to_peer_id h)) (\<lambda>e. failConnection cx now c) w"
    by (simp add: onMessage_def mcatch_def)
  show ?thesis
  proof (cases "findPeer (networkName (w_conns w c)) (to_peer_id h) w")
    case None
    then show ?thesis by (simp add: eq forwardPacket_def mcatch_def mbind_mget mret_def)
  next
    case (Some t)
    have t: "phase_of t w = Ready" "routeSyncKey (w_conns w t) = (networkName (w_conns w c), to_peer_id h)"
      using registered_get [OF reg, of _ _ t] Some by (auto simp: findPeer_def routeSyncKey_def)
    have "onMessage cx now c (BinaryFrame frame) w = (Inr (), w\<lparr>w_conns := (w_conns w)(t := k)\<rparr>)
        \<and> sent_frames (socket k) = sent_frames (socket (w_conns w t)) @ [forwarded]"
      if "incrementForwardCounter frame = Inr forwarded" "sendConnection now forwarded (w_conns w t) = (Inr (), k)" for forwarded k
      using that t(1) Some sendConnection_frames [of now forwarded "w_conns w t"]
      by (simp add: eq forwardPacket_def mbind_def mget_def mlift_def mcatch_def on_conn_def conn_mod_def)
    with Some t show ?thesis by simp
  qed
qed

theorem forwarding_reaches_the_addressee_only_witness:
  "sent_frames (socket (w_conns (snd (onMessage toy_cx 1000 0 (BinaryFrame (wrap_packet 7 9 1 0 [5])) toy_world)) 1)) =
     [[7, 0, 0, 0, 9, 0, 0, 0, 1, 0, 2, 0, 1, 0, 0, 0, 5]]
   \<and> onMessage toy_cx 1000 0 (BinaryFrame (wrap_packet 7 3 1 0 [5])) toy_world = (Inr (), toy_world)"
proof -
  have r: "phase_of 0 toy_world = Ready" by (simp add: toy_phase)
  have p: "parsePacket (wrap_packet 7 9 1 0 [5]) = Inr (\<lparr>from_peer_id = 7, to_peer_id = 9, packet_type = 1, flags = 0,
      forward_counter = 1, reserved = 0, len = 1\<rparr>, [5])"
    "parsePacket (wrap_packet 7 3 1 0 [5]) = Inr (\<lparr>from_peer_id = 7, to_peer_id = 3, packet_type = 1, flags = 0,
      forward_counter = 1, reserved = 0, len = 1\<rparr>, [5])"
    "length (wrap_packet 7 9 1 0 [5]) = 17" "length (wrap_packet 7 3 1 0 [5]) = 17"
    by code_simp+
  have f: "incrementForwardCounter (wrap_packet 7 9 1 0 [5]) = Inr [7, 0, 0, 0, 9, 0, 0, 0, 1, 0, 2, 0, 1, 0, 0, 0, 5]"
    by code_simp
  have k: "sendConnection 1000 b (toy_client 9 ''home'') = (Inr (), (toy_client 9 ''home'')\<lparr>sentBytesInWindow := 17,
      sentFramesInWindow := 1, socket := open_socket\<lparr>sent_frames := [b]\<rparr>\<rparr>)" if "length b = 17" for b
    using that by (subst sendConnection_ready) (simp_all add: toy_client_def createConnection_def open_socket_def WS_OPEN_def
      MAX_SEND_BYTES_PER_WINDOW_def MAX_SEND_FRAMES_PER_WINDOW_def)
  have ids: "networkName (w_conns toy_world 0) = ''home''" by simp
  note fwd = forwarding_reaches_the_addressee_only [OF toy_world_ok r, where now = 1000]
  from fwd [OF p(1)] f k p(3)
  have "onMessage toy_cx 1000 0 (BinaryFrame (wrap_packet 7 9 1 0 [5])) toy_world = (Inr (), toy_world\<lparr>w_conns := (w_conns toy_world)
      (1 := (toy_client 9 ''home'')\<lparr>sentBytesInWindow := 17, sentFramesInWindow := 1,
         socket := open_socket\<lparr>sent_frames := [[7, 0, 0, 0, 9, 0, 0, 0, 1, 0, 2, 0, 1, 0, 0, 0, 5]]\<rparr>\<rparr>)\<rparr>)"
    by (simp add: findPeer_def toy_rooms sample_config_def SERVER_PEER_ID_def)
  moreover from fwd [OF p(2)] p(4) have "onMessage toy_cx 1000 0 (BinaryFrame (wrap_packet 7 3 1 0 [5])) toy_world = (Inr (), toy_world)"
    by (simp add: findPeer_def toy_rooms sample_config_def SERVER_PEER_ID_def)
  ultimately show ?thesis by simp
qed

end
